theory Spec2Isabelle
  imports Main "HOL-Library.Sublist" "HOL-Library.Multiset"
begin

section \<open>Strings of the ICS parser (caldav-client.ts)\<close>

text \<open>
  A JavaScript string is a sequence of UTF-16 code units. The model uses \<^typ>\<open>string\<close>,
  whose characters are the code units 0 to 255. On this alphabet the line terminators of
  a JavaScript regular expression are line feed and carriage return (U+2028 and U+2029
  lie outside it), the white space class \<^verbatim>\<open>\s\<close> is tab, line feed, vertical tab, form
  feed, carriage return, space and no-break space, \<^verbatim>\<open>\d\<close> is the ten ASCII digits, and
  the \<^verbatim>\<open>i\<close> flag identifies exactly the ASCII letters of both cases for the letters
  that occur in the patterns of this file.
\<close>

definition LF :: char where "LF = CHR 0x0A"
definition CR :: char where "CR = CHR 0x0D"
definition TAB :: char where "TAB = CHR 0x09"

definition CRLF :: string where "CRLF = [CR, LF]"

definition is_line_terminator :: "char \<Rightarrow> bool" where
  "is_line_terminator c \<longleftrightarrow> c = LF \<or> c = CR"

definition is_space :: "char \<Rightarrow> bool" where
  "is_space c \<longleftrightarrow> c \<in> set [TAB, LF, CHR 0x0B, CHR 0x0C, CR, CHR '' '', CHR 0xA0]"

definition is_digit :: "char \<Rightarrow> bool" where
  "is_digit c \<longleftrightarrow> c \<in> set ''0123456789''"

definition ascii_lower :: "char \<Rightarrow> char" where
  "ascii_lower c =
     (case map_of (zip ''ABCDEFGHIJKLMNOPQRSTUVWXYZ'' ''abcdefghijklmnopqrstuvwxyz'') c of
        Some d \<Rightarrow> d
      | None \<Rightarrow> c)"

text \<open>\<^verbatim>\<open>s.slice(i, j)\<close> for \<open>0 \<le> i \<le> j\<close>.\<close>

definition slice :: "nat \<Rightarrow> nat \<Rightarrow> 'a list \<Rightarrow> 'a list" where
  "slice i j s = take (j - i) (drop i s)"

subsection \<open>formatICSDate\<close>

text \<open>
  The pattern \<^verbatim>\<open>/^(\d{4})(\d{2})(\d{2})T(\d{2})(\d{2})(\d{2})(Z?)$/\<close> has no flag, so it
  matches whole strings only: fifteen characters, or sixteen ending in \<open>Z\<close>. The result is
  the seven capture groups.
\<close>

definition match_datetime ::
  "string \<Rightarrow> (string \<times> string \<times> string \<times> string \<times> string \<times> string \<times> string) option" where
  "match_datetime s =
     (if (length s = 15 \<or> (length s = 16 \<and> s ! 15 = CHR ''Z''))
         \<and> list_all is_digit (slice 0 8 s) \<and> s ! 8 = CHR ''T''
         \<and> list_all is_digit (slice 9 15 s)
      then Some (slice 0 4 s, slice 4 6 s, slice 6 8 s,
                 slice 9 11 s, slice 11 13 s, slice 13 15 s, drop 15 s)
      else None)"

definition formatICSDate :: "string \<Rightarrow> string" where
  "formatICSDate icsDate =
     (if icsDate = [] then []
      else if CHR ''-'' \<in> set icsDate then icsDate
      else if length icsDate = 8
        then slice 0 4 icsDate @ ''-'' @ slice 4 6 icsDate @ ''-'' @ slice 6 8 icsDate
      else (case match_datetime icsDate of
              Some (y, mo, d, h, mi, s, z) \<Rightarrow>
                y @ ''-'' @ mo @ ''-'' @ d @ ''T'' @ h @ '':'' @ mi @ '':'' @ s @ z
            | None \<Rightarrow> icsDate))"

subsection \<open>extractProp and unfoldICS\<close>

text \<open>
  A search with a pattern \<^verbatim>\<open>/^...$/m\<close> tries every position of the subject from left
  to right; \<^verbatim>\<open>^\<close> holds at position 0 and after a line terminator. The flag of
  \<open>line_search\<close> says whether the current position is the start of a line, and \<open>at\<close> is
  the attempt to match the rest of the pattern at the current position.
\<close>

fun line_search :: "(string \<Rightarrow> 'a option) \<Rightarrow> bool \<Rightarrow> string \<Rightarrow> 'a option" where
  "line_search at b [] = (if b then at [] else None)"
| "line_search at b (c # cs) =
     (case (if b then at (c # cs) else None) of
        Some r \<Rightarrow> Some r
      | None \<Rightarrow> line_search at (is_line_terminator c) cs)"

text \<open>
  \<^verbatim>\<open>PROP[;:](.*)$\<close> at the current position: the property name, one separator, then
  the capture group. The dot matches no line terminator, so the greedy group is the rest
  of the physical line, and \<^verbatim>\<open>$\<close> holds after it. The name is spliced into the pattern
  as it is; the model reads it literally, as is right for the names the parser uses
  (letters and the hyphen).
\<close>

definition prop_at :: "string \<Rightarrow> string \<Rightarrow> string option" where
  "prop_at prop s =
     (if prefix prop s then
        (case drop (length prop) s of
           [] \<Rightarrow> None
         | c # rest \<Rightarrow>
             if c = CHR '';'' \<or> c = CHR '':''
             then Some (takeWhile (\<lambda>x. \<not> is_line_terminator x) rest)
             else None)
      else None)"

text \<open>\<^verbatim>\<open>value.replace(/\r?\n[ \t]/g, '')\<close>\<close>

fun remove_folds :: "string \<Rightarrow> string" where
  "remove_folds [] = []"
| "remove_folds (c # cs) =
     (if c = CR \<and> (case cs of d # e # _ \<Rightarrow> d = LF \<and> (e = CHR '' '' \<or> e = TAB) | _ \<Rightarrow> False)
        then remove_folds (drop 2 cs)
      else if c = LF \<and> (case cs of e # _ \<Rightarrow> e = CHR '' '' \<or> e = TAB | _ \<Rightarrow> False)
        then remove_folds (drop 1 cs)
      else c # remove_folds cs)"

text \<open>\<^verbatim>\<open>s.replace(/\\x/g, r)\<close>: every backslash followed by \<open>x\<close> becomes \<open>r\<close>.\<close>

fun replace_escape :: "char \<Rightarrow> char \<Rightarrow> string \<Rightarrow> string" where
  "replace_escape x r (a # b # cs) =
     (if a = CHR 0x5C \<and> b = x then r # replace_escape x r cs
      else a # replace_escape x r (b # cs))"
| "replace_escape x r cs = cs"

definition unfoldICS :: "string \<Rightarrow> string" where
  "unfoldICS v = replace_escape (CHR '','') (CHR '','') (replace_escape (CHR ''n'') LF (remove_folds v))"

definition is_date_prop :: "string \<Rightarrow> bool" where
  "is_date_prop prop \<longleftrightarrow> prefix ''DT'' prop \<or> prop = ''CREATED'' \<or> prop = ''LAST-MODIFIED''"

definition extractProp :: "string \<Rightarrow> string \<Rightarrow> string option" where
  "extractProp vevent prop =
     (case line_search (prop_at prop) True vevent of
        None \<Rightarrow> None
      | Some raw \<Rightarrow>
          if is_date_prop prop then
            (if CHR '':'' \<in> set raw
             then Some (drop 1 (dropWhile (\<lambda>x. x \<noteq> CHR '':'') raw))
             else Some raw)
          else Some (unfoldICS raw))"

subsection \<open>extractAttendees\<close>

record attendee =
  email :: string
  name :: "string option"

text \<open>
  \<^verbatim>\<open>/LIT([CLASS]+)/i\<close> searched in a line: the leftmost position where the literal
  matches up to ASCII case and at least one character of the class follows; the result
  is the capture group, the longest run of class characters.
\<close>

definition ci_group_at :: "string \<Rightarrow> (char \<Rightarrow> bool) \<Rightarrow> string \<Rightarrow> string option" where
  "ci_group_at lit cls s =
     (if length lit \<le> length s \<and> map ascii_lower (take (length lit) s) = map ascii_lower lit
      then (case takeWhile cls (drop (length lit) s) of [] \<Rightarrow> None | g \<Rightarrow> Some g)
      else None)"

fun ci_group_search :: "string \<Rightarrow> (char \<Rightarrow> bool) \<Rightarrow> string \<Rightarrow> string option" where
  "ci_group_search lit cls [] = ci_group_at lit cls []"
| "ci_group_search lit cls (c # cs) =
     (case ci_group_at lit cls (c # cs) of
        Some g \<Rightarrow> Some g
      | None \<Rightarrow> ci_group_search lit cls cs)"

text \<open>\<^verbatim>\<open>line.match(/mailto:([^\s;]+)/i)\<close> and \<^verbatim>\<open>line.match(/CN=([^;:]+)/i)\<close>\<close>

definition emailMatch :: "string \<Rightarrow> string option" where
  "emailMatch line = ci_group_search ''mailto:'' (\<lambda>c. \<not> is_space c \<and> c \<noteq> CHR '';'') line"

definition nameMatch :: "string \<Rightarrow> string option" where
  "nameMatch line = ci_group_search ''CN='' (\<lambda>c. c \<noteq> CHR '';'' \<and> c \<noteq> CHR '':'') line"

text \<open>
  The loop \<^verbatim>\<open>while ((match = regex.exec(vevent)) !== null)\<close> over
  \<^verbatim>\<open>/^ATTENDEE[;:](.*?)$/gm\<close>. Each search starts where the last match ended
  (\<^verbatim>\<open>lastIndex\<close>), which is never the start of a line, since the character before it belongs
  to the match. The lazy group followed by \<^verbatim>\<open>$\<close> stops at the first line terminator, so
  the match is the nine characters of \<^verbatim>\<open>ATTENDEE\<close> and its separator, then the group. The
  body of the loop pushes an entry only when the address matched.
\<close>

definition push_attendee :: "string \<Rightarrow> attendee list \<Rightarrow> attendee list" where
  "push_attendee line attendees =
     (case emailMatch line of
        None \<Rightarrow> attendees
      | Some e \<Rightarrow> attendees @ [\<lparr>email = e, name = nameMatch line\<rparr>])"

function attendees_loop :: "bool \<Rightarrow> string \<Rightarrow> attendee list \<Rightarrow> attendee list" where
  "attendees_loop b [] attendees = attendees"
| "attendees_loop b (c # cs) attendees =
     (case (if b then prop_at ''ATTENDEE'' (c # cs) else None) of
        Some line \<Rightarrow>
          attendees_loop False (drop (9 + length line) (c # cs)) (push_attendee line attendees)
      | None \<Rightarrow> attendees_loop (is_line_terminator c) cs attendees)"
  by pat_completeness auto
termination
  by (relation "measure (\<lambda>(b, s, a). length s)") auto

definition extractAttendees :: "string \<Rightarrow> attendee list" where
  "extractAttendees vevent = attendees_loop True vevent []"

text \<open>
  The attendee rule in the words of the specification: the text is cut into physical
  lines at every line terminator, the lines that begin with \<^verbatim>\<open>ATTENDEE\<close> and a
  separator are kept, and each of them gives at most one entry.
\<close>

fun split_lines :: "string \<Rightarrow> string list" where
  "split_lines [] = [[]]"
| "split_lines (c # cs) =
     (if is_line_terminator c then [] # split_lines cs
      else (case split_lines cs of l # ls \<Rightarrow> (c # l) # ls | [] \<Rightarrow> [[c]]))"

definition is_attendee_line :: "string \<Rightarrow> bool" where
  "is_attendee_line l \<longleftrightarrow> prefix ''ATTENDEE;'' l \<or> prefix ''ATTENDEE:'' l"

definition attendee_of_line :: "string \<Rightarrow> attendee option" where
  "attendee_of_line line =
     (case emailMatch line of
        None \<Rightarrow> None
      | Some e \<Rightarrow> Some \<lparr>email = e, name = nameMatch line\<rparr>)"

definition spec_attendees :: "string \<Rightarrow> attendee list" where
  "spec_attendees vevent =
     List.map_filter attendee_of_line
       (map (drop 9) (filter is_attendee_line (split_lines vevent)))"

subsection \<open>parseICS\<close>

record CalendarEvent =
  id' :: string
  title :: string
  description :: string
  start :: string
  end' :: string
  location :: string
  participants :: "attendee list"

text \<open>The text before and after the leftmost occurrence of a literal.\<close>

fun split_first :: "string \<Rightarrow> string \<Rightarrow> (string \<times> string) option" where
  "split_first pat [] = (if pat = [] then Some ([], []) else None)"
| "split_first pat (c # cs) =
     (if prefix pat (c # cs) then Some ([], drop (length pat) (c # cs))
      else (case split_first pat cs of
              None \<Rightarrow> None
            | Some (before, after) \<Rightarrow> Some (c # before, after)))"

text \<open>
  \<^verbatim>\<open>icsData.match(/BEGIN:VEVENT[\s\S]*?END:VEVENT/)\<close>: from the leftmost
  \<^verbatim>\<open>BEGIN:VEVENT\<close> to the first \<^verbatim>\<open>END:VEVENT\<close> after it.
\<close>

definition veventMatch :: "string \<Rightarrow> string option" where
  "veventMatch icsData =
     (case split_first ''BEGIN:VEVENT'' icsData of
        None \<Rightarrow> None
      | Some (_, rest) \<Rightarrow>
          (case split_first ''END:VEVENT'' rest of
             None \<Rightarrow> None
           | Some (body, _) \<Rightarrow> Some (''BEGIN:VEVENT'' @ body @ ''END:VEVENT'')))"

text \<open>\<^verbatim>\<open>x || d\<close> for a string or null \<open>x\<close>: null and the empty string give \<open>d\<close>.\<close>

definition or_default :: "string option \<Rightarrow> string \<Rightarrow> string" where
  "or_default x d = (case x of None \<Rightarrow> d | Some v \<Rightarrow> if v = [] then d else v)"

definition parseICS :: "string \<Rightarrow> CalendarEvent option" where
  "parseICS icsData =
     (case veventMatch icsData of
        None \<Rightarrow> None
      | Some vevent \<Rightarrow>
          Some \<lparr>id' = or_default (extractProp vevent ''UID'') [],
                title = or_default (extractProp vevent ''SUMMARY'') ''Untitled'',
                description = or_default (extractProp vevent ''DESCRIPTION'') [],
                start = formatICSDate (or_default (extractProp vevent ''DTSTART'') []),
                end' = formatICSDate (or_default (extractProp vevent ''DTEND'') []),
                location = or_default (extractProp vevent ''LOCATION'') [],
                participants = extractAttendees vevent\<rparr>)"

section \<open>JSON values and JavaScript expressions\<close>

text \<open>
  The values the clients receive and send are JSON; \<^verbatim>\<open>any\<close>-typed data is a \<open>json\<close>.
  An object is the list of its properties in insertion order, read with \<open>map_of\<close>.
  Numbers are integers: the limits and counts of this program.
\<close>

datatype json =
    JUndefined
  | JNull
  | JBool bool
  | JNum int
  | JStr string
  | JArr "json list"
  | JObj "(string \<times> json) list"

datatype ErrorCode = InvalidRequest | MethodNotFound | InvalidParams | InternalError

text \<open>
  What a \<^verbatim>\<open>throw\<close> carries: an \<^verbatim>\<open>Error\<close> with its message (a \<^verbatim>\<open>TypeError\<close> raised by the
  engine is one, its message is the engine's), an \<^verbatim>\<open>McpError\<close> with its code and message,
  or a value that is no \<^verbatim>\<open>Error\<close>, given by its \<^verbatim>\<open>String(...)\<close>. The messages of the engine
  are those of V8 for a property read and for a destructuring; for a call of something
  that is no function V8 names the expression, and the message here names the method.
\<close>

datatype js_error =
    Error string
  | TypeError string
  | McpError ErrorCode string
  | Thrown string

definition quoted :: "string \<Rightarrow> string" where
  "quoted k = [CHR 0x27] @ k @ [CHR 0x27]"

definition truthy :: "json \<Rightarrow> bool" where
  "truthy v \<longleftrightarrow> (case v of
       JUndefined \<Rightarrow> False | JNull \<Rightarrow> False | JBool b \<Rightarrow> b
     | JNum n \<Rightarrow> n \<noteq> 0 | JStr s \<Rightarrow> s \<noteq> [] | _ \<Rightarrow> True)"

fun digits_of :: "nat \<Rightarrow> string" where
  "digits_of n = (if n < 10 then [''0123456789'' ! n] else digits_of (n div 10) @ [''0123456789'' ! (n mod 10)])"

text \<open>
  \<^verbatim>\<open>v.k\<close>: a \<^verbatim>\<open>TypeError\<close> on undefined and null, undefined when the property is missing.
  The names that this program reads are names of data (\<^verbatim>\<open>list\<close>, \<^verbatim>\<open>id\<close>, \<^verbatim>\<open>role\<close> and the
  like), none of which an object inherits from its prototype.
\<close>

definition get_prop :: "json \<Rightarrow> string \<Rightarrow> js_error + json" where
  "get_prop v k = (case v of
       JUndefined \<Rightarrow> Inl (TypeError (''Cannot read properties of undefined (reading '' @ quoted k @ '')''))
     | JNull \<Rightarrow> Inl (TypeError (''Cannot read properties of null (reading '' @ quoted k @ '')''))
     | JObj kvs \<Rightarrow> Inr (case map_of kvs k of Some x \<Rightarrow> x | None \<Rightarrow> JUndefined)
     | _ \<Rightarrow> Inr JUndefined)"

text \<open>\<^verbatim>\<open>v[i]\<close> for an index \<open>i\<close>.\<close>

definition get_index :: "json \<Rightarrow> nat \<Rightarrow> js_error + json" where
  "get_index v i = (case v of
       JArr xs \<Rightarrow> Inr (if i < length xs then xs ! i else JUndefined)
     | JStr s \<Rightarrow> Inr (if i < length s then JStr [s ! i] else JUndefined)
     | _ \<Rightarrow> get_prop v (digits_of i))"

datatype accessor = Prop string | Idx nat

fun get_path :: "json \<Rightarrow> accessor list \<Rightarrow> js_error + json" where
  "get_path v [] = Inr v"
| "get_path v (Prop k # p) = (case get_prop v k of Inl e \<Rightarrow> Inl e | Inr x \<Rightarrow> get_path x p)"
| "get_path v (Idx i # p) = (case get_index v i of Inl e \<Rightarrow> Inl e | Inr x \<Rightarrow> get_path x p)"

text \<open>
  The own properties of an object come in the order of JavaScript: the array indices
  first, in ascending order, then the other keys in the order of their creation. An array
  index is the canonical decimal numeral of a number below \<open>2^32 - 1\<close>. A list with a
  repeated key stands for the object of the first entry of every key.
\<close>

definition number_of :: "string \<Rightarrow> nat" where
  "number_of s = foldl (\<lambda>n c. 10 * n + (of_char c - 48)) 0 s"

definition array_index :: "string \<Rightarrow> nat option" where
  "array_index k =
     (if k \<noteq> [] \<and> list_all is_digit k \<and> (hd k \<noteq> CHR ''0'' \<or> k = ''0'')
         \<and> number_of k < 4294967295
      then Some (number_of k) else None)"

definition goes_before :: "string \<Rightarrow> string \<Rightarrow> bool" where
  "goes_before k k' \<longleftrightarrow>
     (case array_index k of
        None \<Rightarrow> False
      | Some i \<Rightarrow> (case array_index k' of None \<Rightarrow> True | Some j \<Rightarrow> i < j))"

fun insert_key :: "string \<Rightarrow> json \<Rightarrow> (string \<times> json) list \<Rightarrow> (string \<times> json) list" where
  "insert_key k v [] = [(k, v)]"
| "insert_key k v ((k', v') # kvs) =
     (if goes_before k k' then (k, v) # (k', v') # kvs else (k', v') # insert_key k v kvs)"

text \<open>
  \<^verbatim>\<open>o[k] = v\<close> on an object made by a literal: a property that is there takes the value
  at its place, a new one is created at the place of its key. The key \<^verbatim>\<open>__proto__\<close> is
  the exception: when the object has no such property of its own the assignment goes to
  the setter that the object inherits, which creates no property (it sets the prototype
  when \<open>v\<close> is an object, and nothing is read from the prototype of an object built this
  way: it is only serialised). Then \<^verbatim>\<open>delete o[k]\<close>, and \<^verbatim>\<open>Object.keys(x)\<close> for a truthy
  \<open>x\<close>.
\<close>

definition obj_set :: "string \<Rightarrow> json \<Rightarrow> (string \<times> json) list \<Rightarrow> (string \<times> json) list" where
  "obj_set k v kvs =
     (if k \<in> set (map fst kvs) then map (\<lambda>(k', v'). if k' = k then (k, v) else (k', v')) kvs
      else if k = ''__proto__'' then kvs
      else insert_key k v kvs)"

definition obj_delete :: "string \<Rightarrow> (string \<times> json) list \<Rightarrow> (string \<times> json) list" where
  "obj_delete k kvs = filter (\<lambda>(k', _). k' \<noteq> k) kvs"

fun first_keys :: "string list \<Rightarrow> string list" where
  "first_keys [] = []"
| "first_keys (k # ks) = k # filter (\<lambda>k'. k' \<noteq> k) (first_keys ks)"

definition own_keys :: "(string \<times> json) list \<Rightarrow> string list" where
  "own_keys kvs =
     (let ks = first_keys (map fst kvs)
      in sort_key (\<lambda>k. the (array_index k)) (filter (\<lambda>k. array_index k \<noteq> None) ks)
         @ filter (\<lambda>k. array_index k = None) ks)"

definition object_keys :: "json \<Rightarrow> string list" where
  "object_keys v = (case v of
       JObj kvs \<Rightarrow> own_keys kvs
     | JArr xs \<Rightarrow> map digits_of [0 ..< length xs]
     | JStr s \<Rightarrow> map digits_of [0 ..< length s]
     | _ \<Rightarrow> [])"

text \<open>
  The string of a value, as a template literal and a computed property key take it
  (\<^verbatim>\<open>String(v)\<close>).
\<close>

fun join_comma :: "string list \<Rightarrow> string" where
  "join_comma [] = []"
| "join_comma [x] = x"
| "join_comma (x # y # ys) = x @ '','' @ join_comma (y # ys)"

fun to_js_string :: "json \<Rightarrow> string" where
  "to_js_string JUndefined = ''undefined''"
| "to_js_string JNull = ''null''"
| "to_js_string (JBool b) = (if b then ''true'' else ''false'')"
| "to_js_string (JNum n) = (if n < 0 then ''-'' @ digits_of (nat (- n)) else digits_of (nat n))"
| "to_js_string (JStr s) = s"
| "to_js_string (JArr xs) =
     join_comma (map (\<lambda>x. if x = JUndefined \<or> x = JNull then [] else to_js_string x) xs)"
| "to_js_string (JObj kvs) = ''[object Object]''"

text \<open>\<^verbatim>\<open>String.prototype.toLowerCase\<close> on the code units 0 to 255, and \<^verbatim>\<open>includes\<close>.\<close>

definition to_lower_char :: "char \<Rightarrow> char" where
  "to_lower_char c =
     (let n = (of_char c :: nat) in
      if (65 \<le> n \<and> n \<le> 90) \<or> (192 \<le> n \<and> n \<le> 222 \<and> n \<noteq> 215) then char_of (n + 32) else c)"

definition toLowerCase :: "string \<Rightarrow> string" where
  "toLowerCase s = map to_lower_char s"

definition str_includes :: "string \<Rightarrow> string \<Rightarrow> bool" where
  "str_includes s t \<longleftrightarrow> split_first t s \<noteq> None"

text \<open>\<^verbatim>\<open>v.toLowerCase()\<close> on a value that may be no string.\<close>

definition lower_of :: "json \<Rightarrow> js_error + string" where
  "lower_of v = (case v of
       JStr s \<Rightarrow> Inr (toLowerCase s)
     | JUndefined \<Rightarrow> Inl (TypeError (''Cannot read properties of undefined (reading '' @ quoted ''toLowerCase'' @ '')''))
     | JNull \<Rightarrow> Inl (TypeError (''Cannot read properties of null (reading '' @ quoted ''toLowerCase'' @ '')''))
     | _ \<Rightarrow> Inl (TypeError ''toLowerCase is not a function''))"

text \<open>\<^verbatim>\<open>a.find(p)\<close>: the first element on which the callback is true, or undefined.\<close>

fun find_first :: "(json \<Rightarrow> js_error + bool) \<Rightarrow> json list \<Rightarrow> js_error + json" where
  "find_first p [] = Inr JUndefined"
| "find_first p (x # xs) =
     (case p x of Inl e \<Rightarrow> Inl e | Inr b \<Rightarrow> if b then Inr x else find_first p xs)"

definition array_find :: "json \<Rightarrow> (json \<Rightarrow> js_error + bool) \<Rightarrow> js_error + json" where
  "array_find a p = (case a of
       JArr xs \<Rightarrow> find_first p xs
     | JUndefined \<Rightarrow> Inl (TypeError (''Cannot read properties of undefined (reading '' @ quoted ''find'' @ '')''))
     | JNull \<Rightarrow> Inl (TypeError (''Cannot read properties of null (reading '' @ quoted ''find'' @ '')''))
     | _ \<Rightarrow> Inl (TypeError ''find is not a function''))"

section \<open>The JMAP client (jmap-client.ts)\<close>

record JmapSession =
  apiUrl :: json
  accountId :: json
  capabilities :: json
  downloadUrl :: json
  uploadUrl :: json

record JmapRequest =
  using_ :: "string list"
  methodCalls :: "(string \<times> json \<times> string) list"

text \<open>
  What \<^verbatim>\<open>fetch\<close> resolves to: the \<^verbatim>\<open>ok\<close> flag, the status text, and the outcome of
  \<^verbatim>\<open>response.json()\<close>. The network is a parameter of the model: the outcome of the
  \<open>n\<close>-th network call of a client, for the session URL and for a request posted to an
  API URL. Every call is written to the log of the client.
\<close>

record http_response =
  ok :: bool
  statusText :: string
  body :: "js_error + json"

datatype net_event = SessionGet | ApiPost json JmapRequest

record world =
  env_account_id :: "string option"
  session_get :: "nat \<Rightarrow> js_error + http_response"
  api_post :: "nat \<Rightarrow> json \<Rightarrow> JmapRequest \<Rightarrow> js_error + http_response"

record client_state =
  session :: "JmapSession option"
  net_log :: "net_event list"

text \<open>
  An \<^verbatim>\<open>async\<close> function: it reads and changes a state, and returns or throws. A method
  of the client is one on the state of the client. \<open>catch\<close> is \<^verbatim>\<open>try { m } catch (e) { h }\<close>.
\<close>

type_synonym ('s, 'a) sio = "'s \<Rightarrow> (js_error + 'a) \<times> 's"

type_synonym 'a io = "(client_state, 'a) sio"

definition ret :: "'a \<Rightarrow> ('s, 'a) sio" where
  "ret x st = (Inr x, st)"

definition throw :: "js_error \<Rightarrow> ('s, 'a) sio" where
  "throw e st = (Inl e, st)"

definition lift :: "js_error + 'a \<Rightarrow> ('s, 'a) sio" where
  "lift r st = (r, st)"

definition bnd :: "('s, 'a) sio \<Rightarrow> ('a \<Rightarrow> ('s, 'b) sio) \<Rightarrow> ('s, 'b) sio" where
  "bnd m f st = (case m st of (Inl e, st') \<Rightarrow> (Inl e, st') | (Inr x, st') \<Rightarrow> f x st')"

definition catch :: "('s, 'a) sio \<Rightarrow> (js_error \<Rightarrow> ('s, 'a) sio) \<Rightarrow> ('s, 'a) sio" where
  "catch m h st = (case m st of (Inl e, st') \<Rightarrow> h e st' | (Inr x, st') \<Rightarrow> (Inr x, st'))"

text \<open>The same for an expression that may throw and touches no state.\<close>

definition ebnd :: "js_error + 'a \<Rightarrow> ('a \<Rightarrow> js_error + 'b) \<Rightarrow> js_error + 'b" where
  "ebnd r f = (case r of Inl e \<Rightarrow> Inl e | Inr x \<Rightarrow> f x)"

subsection \<open>getSession and makeRequest\<close>

text \<open>
  \<^verbatim>\<open>process.env.FASTMAIL_ACCOUNT_ID || sessionData.primaryAccounts?.[mail]
  || Object.keys(sessionData.accounts)[0]\<close>
\<close>

definition resolve_account_id :: "string option \<Rightarrow> json \<Rightarrow> js_error + json" where
  "resolve_account_id env sessionData =
     (if env \<noteq> None \<and> env \<noteq> Some [] then Inr (JStr (the env))
      else ebnd (get_prop sessionData ''primaryAccounts'') (\<lambda>pa.
        ebnd (if pa = JUndefined \<or> pa = JNull then Inr JUndefined
              else get_prop pa ''urn:ietf:params:jmap:mail'') (\<lambda>primary.
          if truthy primary then Inr primary
          else ebnd (get_prop sessionData ''accounts'') (\<lambda>accounts.
            if accounts = JUndefined \<or> accounts = JNull
            then Inl (TypeError ''Cannot convert undefined or null to object'')
            else Inr (case object_keys accounts of [] \<Rightarrow> JUndefined | k # _ \<Rightarrow> JStr k)))))"

definition build_session :: "string option \<Rightarrow> json \<Rightarrow> js_error + JmapSession" where
  "build_session env sessionData =
     ebnd (resolve_account_id env sessionData) (\<lambda>acc.
     ebnd (get_prop sessionData ''apiUrl'') (\<lambda>url.
     ebnd (get_prop sessionData ''capabilities'') (\<lambda>caps.
     ebnd (get_prop sessionData ''downloadUrl'') (\<lambda>down.
     ebnd (get_prop sessionData ''uploadUrl'') (\<lambda>up.
       Inr \<lparr>apiUrl = url, accountId = acc, capabilities = caps,
            downloadUrl = down, uploadUrl = up\<rparr>)))))"

definition getSession :: "world \<Rightarrow> JmapSession io" where
  "getSession w st =
     (case session st of
        Some s \<Rightarrow> (Inr s, st)
      | None \<Rightarrow>
          (let st1 = st\<lparr>net_log := net_log st @ [SessionGet]\<rparr> in
           case session_get w (length (net_log st)) of
             Inl e \<Rightarrow> (Inl e, st1)
           | Inr response \<Rightarrow>
               if \<not> ok response
               then (Inl (Error (''Failed to get session: '' @ statusText response)), st1)
               else (case ebnd (body response) (build_session (env_account_id w)) of
                       Inl e \<Rightarrow> (Inl e, st1)
                     | Inr s \<Rightarrow> (Inr s, st1\<lparr>session := Some s\<rparr>))))"

definition fetch_post :: "world \<Rightarrow> json \<Rightarrow> JmapRequest \<Rightarrow> json io" where
  "fetch_post w url request st =
     (let st1 = st\<lparr>net_log := net_log st @ [ApiPost url request]\<rparr> in
      case api_post w (length (net_log st)) url request of
        Inl e \<Rightarrow> (Inl e, st1)
      | Inr response \<Rightarrow>
          if \<not> ok response
          then (Inl (Error (''JMAP request failed: '' @ statusText response)), st1)
          else (body response, st1))"

definition makeRequest :: "world \<Rightarrow> JmapRequest \<Rightarrow> json io" where
  "makeRequest w request = bnd (getSession w) (\<lambda>s. fetch_post w (apiUrl s) request)"

definition mail_using :: "string list" where
  "mail_using = [''urn:ietf:params:jmap:core'', ''urn:ietf:params:jmap:mail'']"

subsection \<open>getMailboxes and the listing operations\<close>

definition getMailboxes :: "world \<Rightarrow> json io" where
  "getMailboxes w =
     bnd (getSession w) (\<lambda>s.
     bnd (makeRequest w \<lparr>using_ = mail_using,
            methodCalls = [(''Mailbox/get'', JObj [(''accountId'', accountId s)], ''mailboxes'')]\<rparr>)
       (\<lambda>response. lift (get_path response [Prop ''methodResponses'', Idx 0, Idx 1, Prop ''list''])))"

text \<open>The two calls of a query followed by a get that takes its ids from the query.\<close>

definition query_then_get :: "json \<Rightarrow> json \<Rightarrow> json \<Rightarrow> string list \<Rightarrow> JmapRequest" where
  "query_then_get acc flt lim properties =
     \<lparr>using_ = mail_using,
      methodCalls =
        [(''Email/query'',
          JObj [(''accountId'', acc), (''filter'', flt),
                (''sort'', JArr [JObj [(''property'', JStr ''receivedAt''),
                                       (''isAscending'', JBool False)]]),
                (''limit'', lim)],
          ''query''),
         (''Email/get'',
          JObj [(''accountId'', acc),
                (''#ids'', JObj [(''resultOf'', JStr ''query''), (''name'', JStr ''Email/query''),
                                 (''path'', JStr ''/ids'')]),
                (''properties'', JArr (map JStr properties))],
          ''emails'')]\<rparr>"

text \<open>\<^verbatim>\<open>getEmails(mailboxId?: string, limit: number = 20)\<close>\<close>

definition getEmails_request :: "JmapSession \<Rightarrow> string option \<Rightarrow> int option \<Rightarrow> JmapRequest" where
  "getEmails_request s mailboxId limit =
     query_then_get (accountId s)
       (if mailboxId \<noteq> None \<and> mailboxId \<noteq> Some []
        then JObj [(''inMailbox'', JStr (the mailboxId))] else JObj [])
       (JNum (case limit of None \<Rightarrow> 20 | Some n \<Rightarrow> n))
       [''id'', ''subject'', ''from'', ''to'', ''receivedAt'', ''preview'', ''hasAttachment'']"

definition getEmails :: "world \<Rightarrow> string option \<Rightarrow> int option \<Rightarrow> json io" where
  "getEmails w mailboxId limit =
     bnd (getSession w) (\<lambda>s.
     bnd (makeRequest w (getEmails_request s mailboxId limit)) (\<lambda>response.
       lift (get_path response [Prop ''methodResponses'', Idx 1, Idx 1, Prop ''list''])))"

text \<open>
  \<^verbatim>\<open>getRecentEmails(limit: number = 10, mailboxName: string = 'inbox')\<close>. The callback
  of \<^verbatim>\<open>find\<close> is \<^verbatim>\<open>mb.role === name || mb.name.toLowerCase().includes(name)\<close> for the
  lowered mailbox name.
\<close>

definition mailbox_named :: "string \<Rightarrow> json \<Rightarrow> js_error + bool" where
  "mailbox_named lowered mb =
     ebnd (get_prop mb ''role'') (\<lambda>role.
       if role = JStr lowered then Inr True
       else ebnd (get_prop mb ''name'') (\<lambda>nm.
            ebnd (lower_of nm) (\<lambda>l. Inr (str_includes l lowered))))"

definition getRecentEmails_request :: "JmapSession \<Rightarrow> json \<Rightarrow> int \<Rightarrow> JmapRequest" where
  "getRecentEmails_request s mailboxId limit =
     query_then_get (accountId s)
       (JObj [(''inMailbox'', mailboxId)])
       (JNum (min limit 50))
       [''id'', ''subject'', ''from'', ''to'', ''receivedAt'', ''preview'', ''hasAttachment'',
        ''keywords'']"

definition getRecentEmails :: "world \<Rightarrow> int option \<Rightarrow> string option \<Rightarrow> json io" where
  "getRecentEmails w limit_arg mailboxName_arg =
     (let limit = (case limit_arg of None \<Rightarrow> 10 | Some n \<Rightarrow> n);
          mailboxName = (case mailboxName_arg of None \<Rightarrow> ''inbox'' | Some n \<Rightarrow> n) in
      bnd (getSession w) (\<lambda>s.
      bnd (getMailboxes w) (\<lambda>mailboxes.
      bnd (lift (array_find mailboxes (mailbox_named (toLowerCase mailboxName)))) (\<lambda>targetMailbox.
        if \<not> truthy targetMailbox
        then throw (Error (''Could not find mailbox: '' @ mailboxName))
        else
          bnd (lift (get_prop targetMailbox ''id'')) (\<lambda>mailboxId.
          bnd (makeRequest w (getRecentEmails_request s mailboxId limit)) (\<lambda>response.
            lift (get_path response
                    [Prop ''methodResponses'', Idx 1, Idx 1, Prop ''list''])))))))"

text \<open>\<^verbatim>\<open>advancedSearch(filters)\<close>\<close>

record search_filters =
  f_query :: "string option"
  f_from :: "string option"
  f_to :: "string option"
  f_subject :: "string option"
  f_hasAttachment :: "bool option"
  f_isUnread :: "bool option"
  f_mailboxId :: "string option"
  f_after :: "string option"
  f_before :: "string option"
  f_limit :: "int option"

text \<open>\<^verbatim>\<open>if (x) filter.k = x\<close> for an optional string \<open>x\<close>.\<close>

definition set_if_string ::
  "string \<Rightarrow> string option \<Rightarrow> (string \<times> json) list \<Rightarrow> (string \<times> json) list" where
  "set_if_string k x flt =
     (if x \<noteq> None \<and> x \<noteq> Some [] then obj_set k (JStr (the x)) flt else flt)"

definition advancedSearch_filter :: "search_filters \<Rightarrow> (string \<times> json) list" where
  "advancedSearch_filter filters =
     (let f1 = set_if_string ''text'' (f_query filters) [];
          f2 = set_if_string ''from'' (f_from filters) f1;
          f3 = set_if_string ''to'' (f_to filters) f2;
          f4 = set_if_string ''subject'' (f_subject filters) f3;
          f5 = (case f_hasAttachment filters of
                  None \<Rightarrow> f4 | Some b \<Rightarrow> obj_set ''hasAttachment'' (JBool b) f4);
          f6 = (case f_isUnread filters of
                  None \<Rightarrow> f5
                | Some b \<Rightarrow> obj_set ''hasKeyword'' (if b then JUndefined else JStr ''$seen'') f5);
          f7 = set_if_string ''inMailbox'' (f_mailboxId filters) f6;
          f8 = set_if_string ''after'' (f_after filters) f7;
          f9 = set_if_string ''before'' (f_before filters) f8
      in if f_isUnread filters = Some True
         then obj_delete ''hasKeyword'' (obj_set ''notKeyword'' (JStr ''$seen'') f9)
         else f9)"

text \<open>\<^verbatim>\<open>Math.min(filters.limit || 50, 100)\<close>\<close>

definition advancedSearch_limit :: "int option \<Rightarrow> int" where
  "advancedSearch_limit limit =
     min (case limit of None \<Rightarrow> 50 | Some n \<Rightarrow> if n = 0 then 50 else n) 100"

definition advancedSearch_request :: "JmapSession \<Rightarrow> search_filters \<Rightarrow> JmapRequest" where
  "advancedSearch_request s filters =
     query_then_get (accountId s)
       (JObj (advancedSearch_filter filters))
       (JNum (advancedSearch_limit (f_limit filters)))
       [''id'', ''subject'', ''from'', ''to'', ''cc'', ''receivedAt'', ''preview'',
        ''hasAttachment'', ''keywords'', ''threadId'']"

definition advancedSearch :: "world \<Rightarrow> search_filters \<Rightarrow> json io" where
  "advancedSearch w filters =
     bnd (getSession w) (\<lambda>s.
     bnd (makeRequest w (advancedSearch_request s filters)) (\<lambda>response.
       lift (get_path response [Prop ''methodResponses'', Idx 1, Idx 1, Prop ''list''])))"

subsection \<open>Bulk operations\<close>

text \<open>
  \<^verbatim>\<open>emailIds.forEach(id => { updates[id] = patch })\<close> on an empty \<open>updates\<close>, and the one
  request that carries the map.
\<close>

definition bulk_updates :: "string list \<Rightarrow> json \<Rightarrow> (string \<times> json) list" where
  "bulk_updates emailIds patch = foldl (\<lambda>updates i. obj_set i patch updates) [] emailIds"

definition bulk_request :: "JmapSession \<Rightarrow> (string \<times> json) list \<Rightarrow> string \<Rightarrow> JmapRequest" where
  "bulk_request s updates callId =
     \<lparr>using_ = mail_using,
      methodCalls =
        [(''Email/set'', JObj [(''accountId'', accountId s), (''update'', JObj updates)], callId)]\<rparr>"

text \<open>
  \<^verbatim>\<open>if (result.notUpdated && Object.keys(result.notUpdated).length > 0) throw ...\<close> on
  the result of the first response.
\<close>

definition check_notUpdated :: "string \<Rightarrow> json \<Rightarrow> unit io" where
  "check_notUpdated msg response =
     bnd (lift (get_path response [Prop ''methodResponses'', Idx 0, Idx 1])) (\<lambda>result.
     bnd (lift (get_prop result ''notUpdated'')) (\<lambda>notUpdated.
       if truthy notUpdated \<and> length (object_keys notUpdated) > 0
       then throw (Error msg) else ret ()))"

definition bulkMarkRead :: "world \<Rightarrow> string list \<Rightarrow> bool \<Rightarrow> unit io" where
  "bulkMarkRead w emailIds read =
     bnd (getSession w) (\<lambda>s.
       (let keywords = (if read then JObj [(''$seen'', JBool True)] else JObj []);
            updates = bulk_updates emailIds (JObj [(''keywords'', keywords)]) in
        bnd (makeRequest w (bulk_request s updates ''bulkUpdate''))
            (check_notUpdated ''Failed to update some emails.'')))"

definition bulkMove :: "world \<Rightarrow> string list \<Rightarrow> string \<Rightarrow> unit io" where
  "bulkMove w emailIds targetMailboxId =
     bnd (getSession w) (\<lambda>s.
       (let targetMailboxIds = obj_set targetMailboxId (JBool True) [];
            updates = bulk_updates emailIds (JObj [(''mailboxIds'', JObj targetMailboxIds)]) in
        bnd (makeRequest w (bulk_request s updates ''bulkMove''))
            (check_notUpdated ''Failed to move some emails.'')))"

text \<open>
  \<^verbatim>\<open>mailboxes.find(mb => mb.role === r) || mailboxes.find(mb =>
  mb.name.toLowerCase().includes(r))\<close>
\<close>

definition has_role :: "string \<Rightarrow> json \<Rightarrow> js_error + bool" where
  "has_role r mb = ebnd (get_prop mb ''role'') (\<lambda>role. Inr (role = JStr r))"

definition name_includes :: "string \<Rightarrow> json \<Rightarrow> js_error + bool" where
  "name_includes r mb =
     ebnd (get_prop mb ''name'') (\<lambda>nm. ebnd (lower_of nm) (\<lambda>l. Inr (str_includes l r)))"

definition find_mailbox :: "json \<Rightarrow> string \<Rightarrow> string \<Rightarrow> js_error + json" where
  "find_mailbox mailboxes r part =
     ebnd (array_find mailboxes (has_role r)) (\<lambda>byRole.
       if truthy byRole then Inr byRole else array_find mailboxes (name_includes part))"

definition bulkDelete :: "world \<Rightarrow> string list \<Rightarrow> unit io" where
  "bulkDelete w emailIds =
     bnd (getSession w) (\<lambda>s.
     bnd (getMailboxes w) (\<lambda>mailboxes.
     bnd (lift (find_mailbox mailboxes ''trash'' ''trash'')) (\<lambda>trashMailbox.
       if \<not> truthy trashMailbox then throw (Error ''Could not find Trash mailbox'')
       else
         bnd (lift (get_prop trashMailbox ''id'')) (\<lambda>trashId.
           (let trashMailboxIds = obj_set (to_js_string trashId) (JBool True) [];
                updates = bulk_updates emailIds (JObj [(''mailboxIds'', JObj trashMailboxIds)]) in
            bnd (makeRequest w (bulk_request s updates ''bulkDelete''))
                (check_notUpdated ''Failed to delete some emails.''))))))"

subsection \<open>getThread\<close>

text \<open>
  \<^verbatim>\<open>a.includes(v)\<close> for a truthy \<open>a\<close>: membership in an array, where an object or an array
  parsed from another response is never the same value; a substring test on a string;
  a \<^verbatim>\<open>TypeError\<close> otherwise.
\<close>

definition is_primitive :: "json \<Rightarrow> bool" where
  "is_primitive v \<longleftrightarrow> (case v of JArr _ \<Rightarrow> False | JObj _ \<Rightarrow> False | _ \<Rightarrow> True)"

definition js_includes :: "json \<Rightarrow> json \<Rightarrow> js_error + bool" where
  "js_includes a v = (case a of
       JArr xs \<Rightarrow> Inr (is_primitive v \<and> v \<in> set xs)
     | JStr s \<Rightarrow> Inr (str_includes s (to_js_string v))
     | _ \<Rightarrow> Inl (TypeError ''includes is not a function''))"

definition getThread_check :: "JmapSession \<Rightarrow> string \<Rightarrow> JmapRequest" where
  "getThread_check s threadId =
     \<lparr>using_ = mail_using,
      methodCalls =
        [(''Email/get'',
          JObj [(''accountId'', accountId s), (''ids'', JArr [JStr threadId]),
                (''properties'', JArr [JStr ''threadId''])],
          ''checkEmail'')]\<rparr>"

definition getThread_request :: "JmapSession \<Rightarrow> json \<Rightarrow> JmapRequest" where
  "getThread_request s actualThreadId =
     \<lparr>using_ = mail_using,
      methodCalls =
        [(''Thread/get'',
          JObj [(''accountId'', accountId s), (''ids'', JArr [actualThreadId])],
          ''getThread''),
         (''Email/get'',
          JObj [(''accountId'', accountId s),
                (''#ids'', JObj [(''resultOf'', JStr ''getThread''), (''name'', JStr ''Thread/get''),
                                 (''path'', JStr ''/list/*/emailIds'')]),
                (''properties'',
                 JArr (map JStr [''id'', ''subject'', ''from'', ''to'', ''cc'', ''receivedAt'',
                                 ''preview'', ''hasAttachment'', ''keywords'', ''threadId'']))],
          ''emails'')]\<rparr>"

text \<open>The \<^verbatim>\<open>try\<close> block that resolves an email id to its thread id; any failure keeps the id.\<close>

definition resolve_thread_id :: "world \<Rightarrow> JmapSession \<Rightarrow> string \<Rightarrow> json io" where
  "resolve_thread_id w s threadId =
     catch
       (bnd (makeRequest w (getThread_check s threadId)) (\<lambda>emailResponse.
        bnd (lift (get_path emailResponse
                     [Prop ''methodResponses'', Idx 0, Idx 1, Prop ''list'', Idx 0])) (\<lambda>email.
          if truthy email
          then bnd (lift (get_prop email ''threadId'')) (\<lambda>t.
                 ret (if truthy t then t else JStr threadId))
          else ret (JStr threadId))))
       (\<lambda>error. ret (JStr threadId))"

definition getThread :: "world \<Rightarrow> string \<Rightarrow> json io" where
  "getThread w threadId =
     bnd (getSession w) (\<lambda>s.
     bnd (resolve_thread_id w s threadId) (\<lambda>actualThreadId.
     bnd (makeRequest w (getThread_request s actualThreadId)) (\<lambda>response.
     bnd (lift (get_path response [Prop ''methodResponses'', Idx 0, Idx 1])) (\<lambda>threadResult.
     bnd (lift (get_prop threadResult ''notFound'')) (\<lambda>notFound.
     bnd (lift (if truthy notFound then js_includes notFound actualThreadId else Inr False))
       (\<lambda>missing.
         if missing
         then throw (Error (''Thread with ID '' @ [CHR 0x27] @ to_js_string actualThreadId
                              @ [CHR 0x27] @ '' not found''))
         else lift (get_path response
                      [Prop ''methodResponses'', Idx 1, Idx 1, Prop ''list''])))))))"

subsection \<open>getIdentities and sendEmail\<close>

definition getIdentities :: "world \<Rightarrow> json io" where
  "getIdentities w =
     bnd (getSession w) (\<lambda>s.
     bnd (makeRequest w
            \<lparr>using_ = [''urn:ietf:params:jmap:core'', ''urn:ietf:params:jmap:submission''],
             methodCalls = [(''Identity/get'', JObj [(''accountId'', accountId s)], ''identities'')]\<rparr>)
       (\<lambda>response. lift (get_path response [Prop ''methodResponses'', Idx 0, Idx 1, Prop ''list''])))"

record email_args =
  e_to :: "string list"
  e_cc :: "string list option"
  e_bcc :: "string list option"
  e_subject :: string
  e_textBody :: "string option"
  e_htmlBody :: "string option"
  e_from :: "string option"
  e_mailboxId :: "string option"

text \<open>A present and non-empty optional string, as a condition reads it.\<close>

definition given :: "string option \<Rightarrow> bool" where
  "given x \<longleftrightarrow> x \<noteq> None \<and> x \<noteq> Some []"

text \<open>\<^verbatim>\<open>v.length\<close> for a truthy \<open>v\<close>, and \<^verbatim>\<open>a?.k\<close>.\<close>

definition js_length :: "json \<Rightarrow> json" where
  "js_length v = (case v of
       JArr xs \<Rightarrow> JNum (int (length xs))
     | JStr s \<Rightarrow> JNum (int (length s))
     | JObj kvs \<Rightarrow> (case map_of kvs ''length'' of Some x \<Rightarrow> x | None \<Rightarrow> JUndefined)
     | _ \<Rightarrow> JUndefined)"

definition opt_prop :: "json \<Rightarrow> string \<Rightarrow> json" where
  "opt_prop v k = (case v of
       JObj kvs \<Rightarrow> (case map_of kvs k of Some x \<Rightarrow> x | None \<Rightarrow> JUndefined)
     | _ \<Rightarrow> JUndefined)"

definition addresses :: "string list \<Rightarrow> json" where
  "addresses addrs = JArr (map (\<lambda>addr. JObj [(''email'', JStr addr)]) addrs)"

text \<open>The identity to send from.\<close>

definition email_is :: "string \<Rightarrow> json \<Rightarrow> js_error + bool" where
  "email_is lowered ident =
     ebnd (get_prop ident ''email'') (\<lambda>e. ebnd (lower_of e) (\<lambda>l. Inr (l = lowered)))"

definition not_deletable :: "json \<Rightarrow> js_error + bool" where
  "not_deletable ident = ebnd (get_prop ident ''mayDelete'') (\<lambda>d. Inr (d = JBool False))"

definition select_identity :: "json \<Rightarrow> string option \<Rightarrow> js_error + json" where
  "select_identity identities from_arg =
     (if given from_arg then
        ebnd (array_find identities (email_is (toLowerCase (the from_arg)))) (\<lambda>selected.
          if \<not> truthy selected
          then Inl (Error ''From address is not verified for sending. Choose one of your verified identities.'')
          else Inr selected)
      else
        ebnd (array_find identities not_deletable) (\<lambda>selected.
          if truthy selected then Inr selected else get_index identities 0))"

definition emailObject :: "email_args \<Rightarrow> json \<Rightarrow> string \<Rightarrow> json" where
  "emailObject mail fromEmail initialMailboxId =
     JObj [(''mailboxIds'', JObj (obj_set initialMailboxId (JBool True) [])),
           (''keywords'', JObj [(''$draft'', JBool True)]),
           (''from'', JArr [JObj [(''email'', fromEmail)]]),
           (''to'', addresses (e_to mail)),
           (''cc'', (case e_cc mail of None \<Rightarrow> JArr [] | Some c \<Rightarrow> addresses c)),
           (''bcc'', (case e_bcc mail of None \<Rightarrow> JArr [] | Some c \<Rightarrow> addresses c)),
           (''subject'', JStr (e_subject mail)),
           (''textBody'', (if given (e_textBody mail)
                           then JArr [JObj [(''partId'', JStr ''text''), (''type'', JStr ''text/plain'')]]
                           else JUndefined)),
           (''htmlBody'', (if given (e_htmlBody mail)
                           then JArr [JObj [(''partId'', JStr ''html''), (''type'', JStr ''text/html'')]]
                           else JUndefined)),
           (''bodyValues'',
            JObj ((if given (e_textBody mail)
                   then [(''text'', JObj [(''value'', JStr (the (e_textBody mail)))])] else [])
                  @ (if given (e_htmlBody mail)
                     then [(''html'', JObj [(''value'', JStr (the (e_htmlBody mail)))])] else [])))]"

definition sendEmail_request ::
  "JmapSession \<Rightarrow> email_args \<Rightarrow> json \<Rightarrow> json \<Rightarrow> string \<Rightarrow> string \<Rightarrow> JmapRequest" where
  "sendEmail_request s mail fromEmail identityId initialMailboxId sentMailboxId =
     \<lparr>using_ = [''urn:ietf:params:jmap:core'', ''urn:ietf:params:jmap:mail'',
                ''urn:ietf:params:jmap:submission''],
      methodCalls =
        [(''Email/set'',
          JObj [(''accountId'', accountId s),
                (''create'', JObj [(''draft'', emailObject mail fromEmail initialMailboxId)])],
          ''createEmail''),
         (''EmailSubmission/set'',
          JObj [(''accountId'', accountId s),
                (''create'',
                 JObj [(''submission'',
                        JObj [(''emailId'', JStr ''#draft''),
                              (''identityId'', identityId),
                              (''envelope'',
                               JObj [(''mailFrom'', JObj [(''email'', fromEmail)]),
                                     (''rcptTo'', addresses (e_to mail))])])]),
                (''onSuccessUpdateEmail'',
                 JObj [(''#submission'',
                        JObj [(''mailboxIds'', JObj (obj_set sentMailboxId (JBool True) [])),
                              (''keywords'', JObj [(''$seen'', JBool True)])])])],
          ''submitEmail'')]\<rparr>"

text \<open>What \<open>sendEmail\<close> makes of the two results of its batch.\<close>

definition sendEmail_result :: "json \<Rightarrow> json io" where
  "sendEmail_result response =
     bnd (lift (get_path response [Prop ''methodResponses'', Idx 0, Idx 1])) (\<lambda>emailResult.
     bnd (lift (get_prop emailResult ''notCreated'')) (\<lambda>notCreated.
     bnd (lift (if truthy notCreated then get_prop notCreated ''draft'' else Inr notCreated))
       (\<lambda>draftFailed.
         if truthy draftFailed
         then throw (Error ''Failed to create email. Please check inputs and try again.'')
         else
           bnd (lift (get_path response [Prop ''methodResponses'', Idx 1, Idx 1]))
             (\<lambda>submissionResult.
           bnd (lift (get_prop submissionResult ''notCreated'')) (\<lambda>notSubmitted.
           bnd (lift (if truthy notSubmitted then get_prop notSubmitted ''submission''
                      else Inr notSubmitted)) (\<lambda>submissionFailed.
             if truthy submissionFailed
             then throw (Error ''Failed to submit email. Please try again later.'')
             else
               bnd (lift (get_prop submissionResult ''created'')) (\<lambda>created.
                 (let i = opt_prop (opt_prop created ''submission'') ''id''
                  in ret (if truthy i then i else JStr ''unknown'')))))))))"

definition sendEmail :: "world \<Rightarrow> email_args \<Rightarrow> json io" where
  "sendEmail w mail =
     bnd (getSession w) (\<lambda>s.
     bnd (getIdentities w) (\<lambda>identities.
       if \<not> truthy identities \<or> js_length identities = JNum 0
       then throw (Error ''No sending identities found'')
       else
         bnd (lift (select_identity identities (e_from mail))) (\<lambda>selectedIdentity.
         bnd (lift (get_prop selectedIdentity ''email'')) (\<lambda>fromEmail.
         bnd (getMailboxes w) (\<lambda>mailboxes.
         bnd (lift (find_mailbox mailboxes ''drafts'' ''draft'')) (\<lambda>draftsMailbox.
         bnd (lift (find_mailbox mailboxes ''sent'' ''sent'')) (\<lambda>sentMailbox.
           if \<not> truthy draftsMailbox
           then throw (Error ''Could not find Drafts mailbox to save email'')
           else if \<not> truthy sentMailbox
           then throw (Error ''Could not find Sent mailbox to move email after sending'')
           else
             bnd (lift (if given (e_mailboxId mail) then Inr (JStr (the (e_mailboxId mail)))
                        else get_prop draftsMailbox ''id'')) (\<lambda>initialMailboxId.
               if \<not> given (e_textBody mail) \<and> \<not> given (e_htmlBody mail)
               then throw (Error ''Either textBody or htmlBody must be provided'')
               else
                 bnd (lift (get_prop sentMailbox ''id'')) (\<lambda>sentId.
                 bnd (lift (get_prop selectedIdentity ''id'')) (\<lambda>identityId.
                 bnd (makeRequest w
                        (sendEmail_request s mail fromEmail identityId
                           (to_js_string initialMailboxId) (to_js_string sentId)))
                   sendEmail_result))))))))))"

subsection \<open>Responses aligned with their requests\<close>

text \<open>
  A response is aligned with its request when its \<^verbatim>\<open>methodResponses\<close> has, for every call
  of the request, an entry \<^verbatim>\<open>[name, result, callId]\<close> at the position of the call, with the
  call id of the call and an object as result. Further entries may follow those of the
  calls: a server adds the result of an implicit call, as the \<^verbatim>\<open>Email/set\<close> that follows an
  \<^verbatim>\<open>EmailSubmission/set\<close> with \<^verbatim>\<open>onSuccessUpdateEmail\<close>. \<open>result_at\<close> is the result of the
  entry at a position, and \<open>field\<close> a property of a result.
\<close>

definition entry_matches :: "string \<times> json \<times> string \<Rightarrow> json \<Rightarrow> bool" where
  "entry_matches call r =
     (case r of
        JArr [JStr rn, JObj res, JStr rid] \<Rightarrow> rid = snd (snd call)
      | _ \<Rightarrow> False)"

definition aligned :: "JmapRequest \<Rightarrow> json \<Rightarrow> bool" where
  "aligned req response =
     (case response of
        JObj kvs \<Rightarrow>
          (case map_of kvs ''methodResponses'' of
             Some (JArr rs) \<Rightarrow>
               length (methodCalls req) \<le> length rs
               \<and> list_all2 entry_matches (methodCalls req) (take (length (methodCalls req)) rs)
           | _ \<Rightarrow> False)
      | _ \<Rightarrow> False)"

definition responses_of :: "json \<Rightarrow> json list" where
  "responses_of response =
     (case response of
        JObj kvs \<Rightarrow> (case map_of kvs ''methodResponses'' of Some (JArr rs) \<Rightarrow> rs | _ \<Rightarrow> [])
      | _ \<Rightarrow> [])"

definition result_at :: "json \<Rightarrow> nat \<Rightarrow> json" where
  "result_at response i =
     (case responses_of response ! i of JArr (_ # res # _) \<Rightarrow> res | _ \<Rightarrow> JUndefined)"

definition call_id_at :: "json \<Rightarrow> nat \<Rightarrow> json" where
  "call_id_at response i =
     (case responses_of response ! i of JArr (_ # _ # cid # _) \<Rightarrow> cid | _ \<Rightarrow> JUndefined)"

definition field :: "string \<Rightarrow> json \<Rightarrow> json" where
  "field k v = opt_prop v k"

text \<open>The server answers a request posted in a state with a response body.\<close>

definition answered :: "world \<Rightarrow> client_state \<Rightarrow> json \<Rightarrow> JmapRequest \<Rightarrow> json \<Rightarrow> bool" where
  "answered w st url req response =
     (case api_post w (length (net_log st)) url req of
        Inl e \<Rightarrow> False
      | Inr r \<Rightarrow> ok r \<and> body r = Inr response)"

definition call_names :: "JmapRequest \<Rightarrow> string list" where
  "call_names req = map fst (methodCalls req)"

subsection \<open>What a run sends\<close>

text \<open>
  The events a run added to the log, the \<^verbatim>\<open>limit\<close> arguments of the \<^verbatim>\<open>Email/query\<close>
  calls among them, and the arguments of their \<^verbatim>\<open>Email/set\<close> calls.
\<close>

definition new_events :: "client_state \<Rightarrow> client_state \<Rightarrow> net_event list" where
  "new_events st st' = drop (length (net_log st)) (net_log st')"

definition run_events :: "'a io \<Rightarrow> client_state \<Rightarrow> net_event list" where
  "run_events m st = new_events st (snd (m st))"

text \<open>A method only ever appends to the log.\<close>

definition appending :: "'a io \<Rightarrow> bool" where
  "appending m \<longleftrightarrow> (\<forall>st. prefix (net_log st) (net_log (snd (m st))))"

definition request_calls :: "string \<Rightarrow> JmapRequest \<Rightarrow> json list" where
  "request_calls m req =
     map (\<lambda>(n, args, cid). args) (filter (\<lambda>(n, args, cid). n = m) (methodCalls req))"

definition calls_named :: "string \<Rightarrow> net_event list \<Rightarrow> json list" where
  "calls_named m evs =
     concat (map (\<lambda>e. case e of
                     SessionGet \<Rightarrow> []
                   | ApiPost url req \<Rightarrow>
                       map (\<lambda>(n, args, cid). args)
                         (filter (\<lambda>(n, args, cid). n = m) (methodCalls req))) evs)"

definition limit_of :: "json \<Rightarrow> json" where
  "limit_of args = (case get_prop args ''limit'' of Inr l \<Rightarrow> l | Inl e \<Rightarrow> JUndefined)"

definition query_limits :: "net_event list \<Rightarrow> json list" where
  "query_limits evs = map limit_of (calls_named ''Email/query'' evs)"

text \<open>
  A server for the examples: the session names one account, and every request is
  answered call by call, in order, with the mailboxes of the account or an empty list;
  the entry of an \<^verbatim>\<open>EmailSubmission/set\<close> with \<^verbatim>\<open>onSuccessUpdateEmail\<close> is followed by the
  entry of the implicit \<^verbatim>\<open>Email/set\<close>, under the same call id.
\<close>

definition demo_session_body :: json where
  "demo_session_body =
     JObj [(''apiUrl'', JStr ''https://api.fastmail.com/jmap/api/''),
           (''primaryAccounts'', JObj [(''urn:ietf:params:jmap:mail'', JStr ''u1234'')]),
           (''accounts'', JObj [(''u1234'', JObj [])]),
           (''capabilities'', JObj [])]"

definition demo_mailboxes :: json where
  "demo_mailboxes =
     JArr [JObj [(''id'', JStr ''mb-inbox''), (''name'', JStr ''Inbox''), (''role'', JStr ''inbox'')],
           JObj [(''id'', JStr ''mb-drafts''), (''name'', JStr ''Drafts''), (''role'', JStr ''drafts'')],
           JObj [(''id'', JStr ''mb-sent''), (''name'', JStr ''Sent''), (''role'', JStr ''sent'')],
           JObj [(''id'', JStr ''mb-trash''), (''name'', JStr ''Trash''), (''role'', JStr ''trash'')]]"

definition demo_result :: "string \<Rightarrow> json" where
  "demo_result m =
     (if m = ''Mailbox/get'' then JObj [(''list'', demo_mailboxes)]
      else if m = ''Identity/get''
        then JObj [(''list'', JArr [JObj [(''id'', JStr ''id-1''), (''email'', JStr ''me@example.com''),
                                          (''mayDelete'', JBool False)]])]
      else if m = ''Email/query'' then JObj [(''ids'', JArr [JStr ''M1''])]
      else if m = ''Email/get''
        then JObj [(''list'', JArr [JObj [(''id'', JStr ''M1''), (''subject'', JStr ''Hello''),
                                          (''threadId'', JStr ''T1'')]])]
      else if m = ''Thread/get''
        then JObj [(''list'', JArr [JObj [(''id'', JStr ''T1''), (''emailIds'', JArr [JStr ''M1''])]]),
                   (''notFound'', JArr [])]
      else if m = ''EmailSubmission/set''
        then JObj [(''created'', JObj [(''submission'', JObj [(''id'', JStr ''sub-1'')])])]
      else JObj [])"

definition demo_entries :: "string \<times> json \<times> string \<Rightarrow> json list" where
  "demo_entries call =
     (case call of (n, args, cid) \<Rightarrow>
        JArr [JStr n, demo_result n, JStr cid]
        # (if n = ''EmailSubmission/set'' \<and> truthy (opt_prop args ''onSuccessUpdateEmail'')
           then [JArr [JStr ''Email/set'', JObj [(''updated'', JObj [(''M1'', JNull)])], JStr cid]]
           else []))"

definition demo_response :: "JmapRequest \<Rightarrow> json" where
  "demo_response req =
     JObj [(''methodResponses'', JArr (concat (map demo_entries (methodCalls req)))),
           (''sessionState'', JStr ''0'')]"

definition demo_world :: world where
  "demo_world =
     \<lparr>env_account_id = None,
      session_get = (\<lambda>n. Inr \<lparr>ok = True, statusText = ''OK'', body = Inr demo_session_body\<rparr>),
      api_post = (\<lambda>n url req. Inr \<lparr>ok = True, statusText = ''OK'', body = Inr (demo_response req)\<rparr>)\<rparr>"

definition demo_session :: JmapSession where
  "demo_session =
     \<lparr>apiUrl = JStr ''https://api.fastmail.com/jmap/api/'', accountId = JStr ''u1234'',
      capabilities = JObj [], downloadUrl = JUndefined, uploadUrl = JUndefined\<rparr>"

definition demo_mail :: email_args where
  "demo_mail =
     \<lparr>e_to = [''you@example.com''], e_cc = None, e_bcc = None, e_subject = ''Hi'',
      e_textBody = Some ''Hello'', e_htmlBody = None, e_from = None, e_mailboxId = None\<rparr>"

definition no_filters :: search_filters where
  "no_filters =
     \<lparr>f_query = None, f_from = None, f_to = None, f_subject = None, f_hasAttachment = None,
      f_isUnread = None, f_mailboxId = None, f_after = None, f_before = None, f_limit = None\<rparr>"

definition fresh_client :: client_state where
  "fresh_client = \<lparr>session = None, net_log = []\<rparr>"

section \<open>The CalDAV client (caldav-client.ts)\<close>

text \<open>
  The calendar server and the engine are parameters of the model: the outcome of
  \<^verbatim>\<open>login\<close>, of \<^verbatim>\<open>fetchCalendars\<close>, of the \<open>k\<close>-th \<^verbatim>\<open>fetchCalendarObjects\<close> of a call for
  a calendar and a time range; the time value \<^verbatim>\<open>new Date(s).getTime()\<close> of a string,
  where \<open>None\<close> is \<^verbatim>\<open>NaN\<close>, the time of an invalid date; and \<^verbatim>\<open>Array.prototype.sort\<close>,
  which is given the comparator, \<open>None\<close> again for \<^verbatim>\<open>NaN\<close>.
\<close>

record DAVCalendar =
  cal_url :: string
  cal_displayName :: "string option"

record DAVCalendarObject =
  obj_url :: string
  obj_data :: string

record caldav_world =
  cw_login :: "js_error option"
  cw_fetchCalendars :: "js_error + DAVCalendar list"
  cw_fetchCalendarObjects ::
    "nat \<Rightarrow> DAVCalendar \<Rightarrow> (string \<times> string) option \<Rightarrow> js_error + DAVCalendarObject list"
  cw_date :: "string \<Rightarrow> int option"
  cw_sort :: "(CalendarEvent \<Rightarrow> CalendarEvent \<Rightarrow> int option) \<Rightarrow> CalendarEvent list
                \<Rightarrow> CalendarEvent list"

text \<open>\<^verbatim>\<open>this.client\<close> is set before \<^verbatim>\<open>login\<close> is awaited.\<close>

record caldav_state =
  dav_client :: bool

definition getClient :: "caldav_world \<Rightarrow> (caldav_state, unit) sio" where
  "getClient w st =
     (if dav_client st then (Inr (), st)
      else (case cw_login w of
              Some e \<Rightarrow> (Inl e, st\<lparr>dav_client := True\<rparr>)
            | None \<Rightarrow> (Inr (), st\<lparr>dav_client := True\<rparr>)))"

text \<open>The time range of \<^verbatim>\<open>fetchOptions\<close>, set when both dates are given.\<close>

definition time_range :: "string option \<Rightarrow> string option \<Rightarrow> (string \<times> string) option" where
  "time_range startDate endDate =
     (if given startDate \<and> given endDate
      then Some (if CHR ''T'' \<in> set (the startDate) then the startDate
                 else the startDate @ ''T00:00:00'',
                 if CHR ''T'' \<in> set (the endDate) then the endDate
                 else the endDate @ ''T23:59:59'')
      else None)"

text \<open>The inner loop, over the objects of one calendar, and the outer one, over the calendars.\<close>

fun parse_objects :: "DAVCalendarObject list \<Rightarrow> CalendarEvent list \<Rightarrow> CalendarEvent list" where
  "parse_objects [] allEvents = allEvents"
| "parse_objects (obj # objects) allEvents =
     parse_objects objects
       (case parseICS (obj_data obj) of None \<Rightarrow> allEvents | Some parsed \<Rightarrow> allEvents @ [parsed])"

fun fetch_all ::
  "caldav_world \<Rightarrow> (string \<times> string) option \<Rightarrow> nat \<Rightarrow> DAVCalendar list \<Rightarrow> CalendarEvent list
    \<Rightarrow> js_error + CalendarEvent list" where
  "fetch_all w timeRange k [] allEvents = Inr allEvents"
| "fetch_all w timeRange k (calendar # target) allEvents =
     (case cw_fetchCalendarObjects w k calendar timeRange of
        Inl e \<Rightarrow> Inl e
      | Inr objects \<Rightarrow> fetch_all w timeRange (Suc k) target (parse_objects objects allEvents))"

text \<open>
  \<^verbatim>\<open>allEvents.sort((a, b) => new Date(a.start).getTime() - new Date(b.start).getTime())\<close>.
  The comparator gives \<^verbatim>\<open>NaN\<close> when one of the two starts is no date. The language fixes
  the result of \<^verbatim>\<open>sort\<close> when the comparator is consistent, as it is when every start is a
  date: the stable sort. Otherwise the order is the engine's.
\<close>

definition compare_start ::
  "(string \<Rightarrow> int option) \<Rightarrow> CalendarEvent \<Rightarrow> CalendarEvent \<Rightarrow> int option" where
  "compare_start dt a b =
     (case dt (start a) of
        None \<Rightarrow> None
      | Some x \<Rightarrow> (case dt (start b) of None \<Rightarrow> None | Some y \<Rightarrow> Some (x - y)))"

text \<open>
  The sort of V8, for the examples, on an array of fewer than 64 elements
  (\<^verbatim>\<open>array-sort.tq\<close>; a longer array is sorted in several runs that are merged, which is
  not modelled). A result \<^verbatim>\<open>NaN\<close> of the comparator is read as 0. \<^verbatim>\<open>CountAndMakeRun\<close> takes
  the longest run at the start of the array: descending when the second element compares
  below the first, and then as long as every element compares below the one before it;
  ascending otherwise, as long as no element does. A descending run is reversed.
  \<^verbatim>\<open>BinaryInsertionSort\<close> then puts every later element into the sorted part, at the
  place a binary search gives: to the left of the middle element when it compares below
  it, to the right otherwise.
\<close>

definition v8_order :: "('a \<Rightarrow> 'a \<Rightarrow> int option) \<Rightarrow> 'a \<Rightarrow> 'a \<Rightarrow> int" where
  "v8_order cmp a b = (case cmp a b of None \<Rightarrow> 0 | Some n \<Rightarrow> n)"

fun run_tail :: "('a \<Rightarrow> 'a \<Rightarrow> int) \<Rightarrow> bool \<Rightarrow> 'a \<Rightarrow> 'a list \<Rightarrow> nat" where
  "run_tail ord descending previous [] = 0"
| "run_tail ord descending previous (x # xs) =
     (if (ord x previous < 0) = descending then Suc (run_tail ord descending x xs) else 0)"

definition count_and_make_run :: "('a \<Rightarrow> 'a \<Rightarrow> int) \<Rightarrow> 'a list \<Rightarrow> 'a list \<times> 'a list" where
  "count_and_make_run ord xs =
     (case xs of
        x0 # x1 # rest \<Rightarrow>
          (let descending = ord x1 x0 < 0;
               n = 2 + run_tail ord descending x1 rest
           in (if descending then rev (take n xs) else take n xs, drop n xs))
      | _ \<Rightarrow> (xs, []))"

function binary_search :: "('a \<Rightarrow> 'a \<Rightarrow> int) \<Rightarrow> 'a \<Rightarrow> 'a list \<Rightarrow> nat \<Rightarrow> nat \<Rightarrow> nat" where
  "binary_search ord pivot xs left right =
     (if left < right
      then (if ord pivot (xs ! (left + (right - left) div 2)) < 0
            then binary_search ord pivot xs left (left + (right - left) div 2)
            else binary_search ord pivot xs (left + (right - left) div 2 + 1) right)
      else left)"
  by pat_completeness auto

termination
  by (relation "measure (\<lambda>(ord, pivot, xs, left, right). right - left)") auto

definition binary_insert :: "('a \<Rightarrow> 'a \<Rightarrow> int) \<Rightarrow> 'a list \<Rightarrow> 'a \<Rightarrow> 'a list" where
  "binary_insert ord sorted_part pivot =
     (let p = binary_search ord pivot sorted_part 0 (length sorted_part)
      in take p sorted_part @ pivot # drop p sorted_part)"

definition v8_sort :: "('a \<Rightarrow> 'a \<Rightarrow> int option) \<Rightarrow> 'a list \<Rightarrow> 'a list" where
  "v8_sort cmp xs =
     (case count_and_make_run (v8_order cmp) xs of
        (run, rest) \<Rightarrow> foldl (binary_insert (v8_order cmp)) run rest)"

text \<open>\<^verbatim>\<open>xs.slice(0, limit)\<close>: a negative limit counts from the end.\<close>

definition js_slice0 :: "int \<Rightarrow> 'a list \<Rightarrow> 'a list" where
  "js_slice0 limit xs =
     (if limit < 0 then take (nat (int (length xs) + limit)) xs else take (nat limit) xs)"

definition target_calendars :: "string option \<Rightarrow> DAVCalendar list \<Rightarrow> DAVCalendar list" where
  "target_calendars calendarId calendars =
     (if given calendarId
      then filter (\<lambda>c. cal_url c = the calendarId \<or> cal_displayName c = calendarId) calendars
      else calendars)"

definition getCalendarEvents ::
  "caldav_world \<Rightarrow> string option \<Rightarrow> int option \<Rightarrow> string option \<Rightarrow> string option
    \<Rightarrow> (caldav_state, CalendarEvent list) sio" where
  "getCalendarEvents w calendarId limit_arg startDate endDate =
     (let limit = (case limit_arg of None \<Rightarrow> 50 | Some n \<Rightarrow> n) in
      bnd (getClient w) (\<lambda>client.
      bnd (lift (cw_fetchCalendars w)) (\<lambda>calendars.
        (let target = target_calendars calendarId calendars in
         if length target = 0
         then throw (Error (''Calendar not found: ''
                 @ (case calendarId of None \<Rightarrow> ''undefined'' | Some c \<Rightarrow> c)))
         else
           bnd (lift (fetch_all w (time_range startDate endDate) 0 target [])) (\<lambda>allEvents.
             ret (js_slice0 limit (cw_sort w (compare_start (cw_date w)) allEvents)))))))"

text \<open>The time of an event whose start is a date.\<close>

definition start_time :: "(string \<Rightarrow> int option) \<Rightarrow> CalendarEvent \<Rightarrow> int" where
  "start_time dt e = the (dt (start e))"

definition events_of :: "js_error + CalendarEvent list \<Rightarrow> CalendarEvent list" where
  "events_of r = (case r of Inl e \<Rightarrow> [] | Inr events \<Rightarrow> events)"

text \<open>
  Calendars for the examples: \<open>work\<close> and \<open>home\<close>, objects of one event each, the times
  of three dates, and the sort of V8.
\<close>

definition demo_ics :: "string \<Rightarrow> string \<Rightarrow> DAVCalendarObject" where
  "demo_ics uid dtstart =
     \<lparr>obj_url = ''/'' @ uid @ ''.ics'',
      obj_data = ''BEGIN:VCALENDAR'' @ CRLF @ ''BEGIN:VEVENT'' @ CRLF @ ''UID:'' @ uid @ CRLF
        @ (if dtstart = [] then [] else ''DTSTART:'' @ dtstart @ CRLF)
        @ ''END:VEVENT'' @ CRLF @ ''END:VCALENDAR''\<rparr>"

definition demo_date :: "string \<Rightarrow> int option" where
  "demo_date s =
     (if s = ''2026-01-01T09:00:00Z'' then Some 1767258000000
      else if s = ''2026-02-01T09:00:00Z'' then Some 1769936400000
      else if s = ''2026-03-01T09:00:00Z'' then Some 1772355600000
      else None)"

definition demo_caldav :: "DAVCalendarObject list \<Rightarrow> DAVCalendarObject list \<Rightarrow> caldav_world" where
  "demo_caldav work home =
     \<lparr>cw_login = None,
      cw_fetchCalendars =
        Inr [\<lparr>cal_url = ''/work/'', cal_displayName = Some ''Work''\<rparr>,
             \<lparr>cal_url = ''/home/'', cal_displayName = Some ''Home''\<rparr>],
      cw_fetchCalendarObjects = (\<lambda>k c r. Inr (if cal_url c = ''/work/'' then work else home)),
      cw_date = demo_date,
      cw_sort = v8_sort\<rparr>"

section \<open>The tool dispatcher (index.ts)\<close>

text \<open>
  The handler of \<^verbatim>\<open>CallToolRequestSchema\<close> reaches the network only through the methods
  of its three clients. A call of a method is a \<open>backend_call\<close>: the client, the method
  and the arguments. What a method does is a parameter of the handler, a function on a
  backend state; the handler writes every call to \<open>calls\<close>, with what it returned or threw. The module variables
  \<^verbatim>\<open>jmapClient\<close>, \<^verbatim>\<open>contactsCalendarClient\<close> and \<^verbatim>\<open>caldavClient\<close> are flags: set once the
  client has been made.
\<close>

datatype backend_call =
    Jmap string "json list"
  | ContactsCalendar string "json list"
  | CalDAV string "json list"

record 'b server =
  jmapClient :: bool
  contactsCalendarClient :: bool
  caldavClient :: bool
  backend :: 'b
  calls :: "(backend_call \<times> (js_error + json)) list"

type_synonym 'b exec = "backend_call \<Rightarrow> 'b \<Rightarrow> (js_error + json) \<times> 'b"

text \<open>
  The environment: the API token and the CalDAV token as \<^verbatim>\<open>findEnvValue\<close> and
  \<^verbatim>\<open>resolveEnvValue\<close> give them, and the clock, read by \<^verbatim>\<open>new Date().toISOString()\<close>.
\<close>

record env =
  api_token :: "string option"
  caldav_token :: "string option"
  clock :: "nat \<Rightarrow> string"

definition call :: "'b exec \<Rightarrow> backend_call \<Rightarrow> ('b server, json) sio" where
  "call ex c srv =
     (case ex c (backend srv) of
        (r, b) \<Rightarrow> (r, srv\<lparr>backend := b, calls := calls srv @ [(c, r)]\<rparr>))"

definition initializeClient :: "env \<Rightarrow> ('b server, unit) sio" where
  "initializeClient e srv =
     (if jmapClient srv then (Inr (), srv)
      else if \<not> given (api_token e)
      then (Inl (McpError InvalidRequest ''FASTMAIL_API_TOKEN environment variable is required''), srv)
      else (Inr (), srv\<lparr>jmapClient := True\<rparr>))"

definition initializeContactsCalendarClient :: "env \<Rightarrow> ('b server, unit) sio" where
  "initializeContactsCalendarClient e srv =
     (if contactsCalendarClient srv then (Inr (), srv)
      else if \<not> given (api_token e)
      then (Inl (McpError InvalidRequest ''FASTMAIL_API_TOKEN environment variable is required''), srv)
      else (Inr (), srv\<lparr>contactsCalendarClient := True\<rparr>))"

text \<open>\<open>True\<close> when there is a CalDAV client, \<open>False\<close> for \<^verbatim>\<open>null\<close>.\<close>

definition initializeCalDAVClient :: "env \<Rightarrow> ('b server, bool) sio" where
  "initializeCalDAVClient e srv =
     (if caldavClient srv then (Inr True, srv)
      else if \<not> given (caldav_token e) then (Inr False, srv)
      else (Inr True, srv\<lparr>caldavClient := True\<rparr>))"

text \<open>
  The text of the one content item of a result: literal text, \<^verbatim>\<open>${v}\<close>, and
  \<^verbatim>\<open>JSON.stringify(v, null, 2)\<close>.
\<close>

datatype piece = Lit string | Str json | Stringify json

text \<open>
  \<^verbatim>\<open>const { a, b = d } = args as any\<close>: a \<^verbatim>\<open>TypeError\<close> when there are no arguments; a
  default stands for a property that is undefined.
\<close>

definition cannot_destructure :: "string \<Rightarrow> json \<Rightarrow> js_error" where
  "cannot_destructure k args =
     TypeError (''Cannot destructure property '' @ quoted k @ '' of '' @ quoted ''args''
                @ '' as it is '' @ to_js_string args @ ''.'')"

definition destructure :: "string \<Rightarrow> json \<Rightarrow> ('s, unit) sio" where
  "destructure k args =
     (if args = JUndefined \<or> args = JNull then throw (cannot_destructure k args) else ret ())"

definition arg :: "json \<Rightarrow> string \<Rightarrow> json" where
  "arg args k = field k args"

definition arg_default :: "json \<Rightarrow> string \<Rightarrow> json \<Rightarrow> json" where
  "arg_default args k d = (if field k args = JUndefined then d else field k args)"

definition invalid_params :: "string \<Rightarrow> ('s, 'a) sio" where
  "invalid_params msg = throw (McpError InvalidParams msg)"

text \<open>
  \<^verbatim>\<open>error instanceof Error ? error.message : String(error)\<close>. The message of an
  \<^verbatim>\<open>McpError\<close> is the one its constructor in the SDK builds from the code and the text.
\<close>

definition code_number :: "ErrorCode \<Rightarrow> string" where
  "code_number c = (case c of
       InvalidRequest \<Rightarrow> ''-32600'' | MethodNotFound \<Rightarrow> ''-32601''
     | InvalidParams \<Rightarrow> ''-32602'' | InternalError \<Rightarrow> ''-32603'')"

definition message_of :: "js_error \<Rightarrow> string" where
  "message_of e = (case e of
       Error m \<Rightarrow> m
     | TypeError m \<Rightarrow> m
     | McpError c m \<Rightarrow> ''MCP error '' @ code_number c @ '': '' @ m
     | Thrown s \<Rightarrow> s)"

subsection \<open>The tools\<close>

definition list_mailboxes :: "'b exec \<Rightarrow> ('b server, piece list) sio" where
  "list_mailboxes ex =
     bnd (call ex (Jmap ''getMailboxes'' [])) (\<lambda>mailboxes. ret [Stringify mailboxes])"

definition list_emails :: "'b exec \<Rightarrow> json \<Rightarrow> ('b server, piece list) sio" where
  "list_emails ex args =
     bnd (destructure ''mailboxId'' args) (\<lambda>_.
     bnd (call ex (Jmap ''getEmails'' [arg args ''mailboxId'', arg_default args ''limit'' (JNum 20)]))
       (\<lambda>emails. ret [Stringify emails]))"

definition get_email :: "'b exec \<Rightarrow> json \<Rightarrow> ('b server, piece list) sio" where
  "get_email ex args =
     bnd (destructure ''emailId'' args) (\<lambda>_.
       if \<not> truthy (arg args ''emailId'') then invalid_params ''emailId is required''
       else bnd (call ex (Jmap ''getEmailById'' [arg args ''emailId'']))
              (\<lambda>mail. ret [Stringify mail]))"

definition is_array :: "json \<Rightarrow> bool" where
  "is_array v \<longleftrightarrow> (case v of JArr _ \<Rightarrow> True | _ \<Rightarrow> False)"

text \<open>\<^verbatim>\<open>!v || !Array.isArray(v) || v.length === 0\<close>\<close>

definition no_items :: "json \<Rightarrow> bool" where
  "no_items v \<longleftrightarrow> \<not> truthy v \<or> \<not> is_array v \<or> js_length v = JNum 0"

definition send_email :: "'b exec \<Rightarrow> json \<Rightarrow> ('b server, piece list) sio" where
  "send_email ex args =
     bnd (destructure ''to'' args) (\<lambda>_.
       if no_items (arg args ''to'')
       then invalid_params ''to field is required and must be a non-empty array''
       else if \<not> truthy (arg args ''subject'') then invalid_params ''subject is required''
       else if \<not> truthy (arg args ''textBody'') \<and> \<not> truthy (arg args ''htmlBody'')
       then invalid_params ''Either textBody or htmlBody is required''
       else
         bnd (call ex (Jmap ''sendEmail''
                [JObj [(''to'', arg args ''to''), (''cc'', arg args ''cc''),
                       (''bcc'', arg args ''bcc''), (''from'', arg args ''from''),
                       (''mailboxId'', arg args ''mailboxId''),
                       (''subject'', arg args ''subject''),
                       (''textBody'', arg args ''textBody''),
                       (''htmlBody'', arg args ''htmlBody'')]]))
           (\<lambda>submissionId.
              ret [Lit ''Email sent successfully. Submission ID: '', Str submissionId]))"

text \<open>
  \<open>search_emails\<close> builds its batch itself, from the account of the session, and reads
  the list of the second response.
\<close>

definition search_request :: "json \<Rightarrow> json \<Rightarrow> json \<Rightarrow> json" where
  "search_request acc query limit =
     JObj [(''using'', JArr (map JStr mail_using)),
           (''methodCalls'',
            JArr [JArr [JStr ''Email/query'',
                        JObj [(''accountId'', acc), (''filter'', JObj [(''text'', query)]),
                              (''sort'', JArr [JObj [(''property'', JStr ''receivedAt''),
                                                     (''isAscending'', JBool False)]]),
                              (''limit'', limit)],
                        JStr ''query''],
                  JArr [JStr ''Email/get'',
                        JObj [(''accountId'', acc),
                              (''#ids'', JObj [(''resultOf'', JStr ''query''),
                                               (''name'', JStr ''Email/query''),
                                               (''path'', JStr ''/ids'')]),
                              (''properties'',
                               JArr (map JStr [''id'', ''subject'', ''from'', ''to'', ''receivedAt'',
                                               ''preview'', ''hasAttachment'']))],
                        JStr ''emails'']])]"

definition search_emails :: "'b exec \<Rightarrow> json \<Rightarrow> ('b server, piece list) sio" where
  "search_emails ex args =
     bnd (destructure ''query'' args) (\<lambda>_.
       if \<not> truthy (arg args ''query'') then invalid_params ''query is required''
       else
         bnd (call ex (Jmap ''getSession'' [])) (\<lambda>session.
         bnd (lift (get_prop session ''accountId'')) (\<lambda>acc.
         bnd (call ex (Jmap ''makeRequest''
                [search_request acc (arg args ''query'') (arg_default args ''limit'' (JNum 20))]))
           (\<lambda>response.
         bnd (lift (get_path response [Prop ''methodResponses'', Idx 1, Idx 1, Prop ''list'']))
           (\<lambda>emails. ret [Stringify emails])))))"

definition list_contacts :: "env \<Rightarrow> 'b exec \<Rightarrow> json \<Rightarrow> ('b server, piece list) sio" where
  "list_contacts e ex args =
     bnd (destructure ''limit'' args) (\<lambda>_.
     bnd (initializeContactsCalendarClient e) (\<lambda>_.
     bnd (call ex (ContactsCalendar ''getContacts'' [arg_default args ''limit'' (JNum 50)]))
       (\<lambda>contacts. ret [Stringify contacts])))"

definition get_contact :: "env \<Rightarrow> 'b exec \<Rightarrow> json \<Rightarrow> ('b server, piece list) sio" where
  "get_contact e ex args =
     bnd (destructure ''contactId'' args) (\<lambda>_.
       if \<not> truthy (arg args ''contactId'') then invalid_params ''contactId is required''
       else
         bnd (initializeContactsCalendarClient e) (\<lambda>_.
         bnd (call ex (ContactsCalendar ''getContactById'' [arg args ''contactId'']))
           (\<lambda>contact. ret [Stringify contact])))"

definition search_contacts :: "env \<Rightarrow> 'b exec \<Rightarrow> json \<Rightarrow> ('b server, piece list) sio" where
  "search_contacts e ex args =
     bnd (destructure ''query'' args) (\<lambda>_.
       if \<not> truthy (arg args ''query'') then invalid_params ''query is required''
       else
         bnd (initializeContactsCalendarClient e) (\<lambda>_.
         bnd (call ex (ContactsCalendar ''searchContacts''
                [arg args ''query'', arg_default args ''limit'' (JNum 20)]))
           (\<lambda>contacts. ret [Stringify contacts])))"

text \<open>The calendar tools take the CalDAV client when there is one.\<close>

definition calendar_call ::
  "env \<Rightarrow> 'b exec \<Rightarrow> string \<Rightarrow> json list \<Rightarrow> json list \<Rightarrow> ('b server, piece list) sio" where
  "calendar_call e ex method caldavArgs otherArgs =
     bnd (initializeCalDAVClient e) (\<lambda>caldav.
       if caldav
       then bnd (call ex (CalDAV method caldavArgs)) (\<lambda>r. ret [Stringify r])
       else
         bnd (initializeContactsCalendarClient e) (\<lambda>_.
         bnd (call ex (ContactsCalendar method otherArgs)) (\<lambda>r. ret [Stringify r])))"

definition list_calendars :: "env \<Rightarrow> 'b exec \<Rightarrow> ('b server, piece list) sio" where
  "list_calendars e ex = calendar_call e ex ''getCalendars'' [] []"

definition list_calendar_events :: "env \<Rightarrow> 'b exec \<Rightarrow> json \<Rightarrow> ('b server, piece list) sio" where
  "list_calendar_events e ex args =
     bnd (destructure ''calendarId'' args) (\<lambda>_.
       calendar_call e ex ''getCalendarEvents''
         [arg args ''calendarId'', arg_default args ''limit'' (JNum 50),
          arg args ''startDate'', arg args ''endDate'']
         [arg args ''calendarId'', arg_default args ''limit'' (JNum 50)])"

definition get_calendar_event :: "env \<Rightarrow> 'b exec \<Rightarrow> json \<Rightarrow> ('b server, piece list) sio" where
  "get_calendar_event e ex args =
     bnd (destructure ''eventId'' args) (\<lambda>_.
       if \<not> truthy (arg args ''eventId'') then invalid_params ''eventId is required''
       else calendar_call e ex ''getCalendarEventById''
              [arg args ''eventId''] [arg args ''eventId''])"

definition create_calendar_event :: "env \<Rightarrow> 'b exec \<Rightarrow> json \<Rightarrow> ('b server, piece list) sio" where
  "create_calendar_event e ex args =
     bnd (destructure ''calendarId'' args) (\<lambda>_.
       if \<not> truthy (arg args ''calendarId'') \<or> \<not> truthy (arg args ''title'')
          \<or> \<not> truthy (arg args ''start'') \<or> \<not> truthy (arg args ''end'')
       then invalid_params ''calendarId, title, start, and end are required''
       else
         bnd (initializeContactsCalendarClient e) (\<lambda>_.
         bnd (call ex (ContactsCalendar ''createCalendarEvent''
                [JObj [(''calendarId'', arg args ''calendarId''), (''title'', arg args ''title''),
                       (''description'', arg args ''description''), (''start'', arg args ''start''),
                       (''end'', arg args ''end''), (''location'', arg args ''location''),
                       (''participants'', arg args ''participants'')]]))
           (\<lambda>eventId.
              ret [Lit ''Calendar event created successfully. Event ID: '', Str eventId])))"

definition list_identities :: "env \<Rightarrow> 'b exec \<Rightarrow> ('b server, piece list) sio" where
  "list_identities e ex =
     bnd (initializeClient e) (\<lambda>_.
     bnd (call ex (Jmap ''getIdentities'' [])) (\<lambda>identities. ret [Stringify identities]))"

definition get_recent_emails :: "env \<Rightarrow> 'b exec \<Rightarrow> json \<Rightarrow> ('b server, piece list) sio" where
  "get_recent_emails e ex args =
     bnd (destructure ''limit'' args) (\<lambda>_.
     bnd (initializeClient e) (\<lambda>_.
     bnd (call ex (Jmap ''getRecentEmails''
            [arg_default args ''limit'' (JNum 10), arg_default args ''mailboxName'' (JStr ''inbox'')]))
       (\<lambda>emails. ret [Stringify emails])))"

definition mark_email_read :: "env \<Rightarrow> 'b exec \<Rightarrow> json \<Rightarrow> ('b server, piece list) sio" where
  "mark_email_read e ex args =
     bnd (destructure ''emailId'' args) (\<lambda>_.
       if \<not> truthy (arg args ''emailId'') then invalid_params ''emailId is required''
       else
         bnd (initializeClient e) (\<lambda>_.
         bnd (call ex (Jmap ''markEmailRead''
                [arg args ''emailId'', arg_default args ''read'' (JBool True)]))
           (\<lambda>_. ret [Lit ''Email '',
                      Lit (if truthy (arg_default args ''read'' (JBool True))
                           then ''marked as read'' else ''marked as unread''),
                      Lit '' successfully''])))"

definition delete_email :: "env \<Rightarrow> 'b exec \<Rightarrow> json \<Rightarrow> ('b server, piece list) sio" where
  "delete_email e ex args =
     bnd (destructure ''emailId'' args) (\<lambda>_.
       if \<not> truthy (arg args ''emailId'') then invalid_params ''emailId is required''
       else
         bnd (initializeClient e) (\<lambda>_.
         bnd (call ex (Jmap ''deleteEmail'' [arg args ''emailId'']))
           (\<lambda>_. ret [Lit ''Email deleted successfully (moved to trash)''])))"

definition move_email :: "env \<Rightarrow> 'b exec \<Rightarrow> json \<Rightarrow> ('b server, piece list) sio" where
  "move_email e ex args =
     bnd (destructure ''emailId'' args) (\<lambda>_.
       if \<not> truthy (arg args ''emailId'') \<or> \<not> truthy (arg args ''targetMailboxId'')
       then invalid_params ''emailId and targetMailboxId are required''
       else
         bnd (initializeClient e) (\<lambda>_.
         bnd (call ex (Jmap ''moveEmail'' [arg args ''emailId'', arg args ''targetMailboxId'']))
           (\<lambda>_. ret [Lit ''Email moved successfully''])))"

definition get_email_attachments :: "env \<Rightarrow> 'b exec \<Rightarrow> json \<Rightarrow> ('b server, piece list) sio" where
  "get_email_attachments e ex args =
     bnd (destructure ''emailId'' args) (\<lambda>_.
       if \<not> truthy (arg args ''emailId'') then invalid_params ''emailId is required''
       else
         bnd (initializeClient e) (\<lambda>_.
         bnd (call ex (Jmap ''getEmailAttachments'' [arg args ''emailId'']))
           (\<lambda>attachments. ret [Stringify attachments])))"

text \<open>The \<^verbatim>\<open>catch\<close> of \<open>download_attachment\<close> throws a fixed text, whatever was caught.\<close>

definition download_failed :: js_error where
  "download_failed =
     McpError InternalError
       ''Attachment download failed. Verify emailId and attachmentId and try again.''"

definition download_attachment :: "env \<Rightarrow> 'b exec \<Rightarrow> json \<Rightarrow> ('b server, piece list) sio" where
  "download_attachment e ex args =
     bnd (destructure ''emailId'' args) (\<lambda>_.
       if \<not> truthy (arg args ''emailId'') \<or> \<not> truthy (arg args ''attachmentId'')
       then invalid_params ''emailId and attachmentId are required''
       else
         bnd (initializeClient e) (\<lambda>_.
           catch
             (bnd (call ex (Jmap ''downloadAttachment''
                     [arg args ''emailId'', arg args ''attachmentId'']))
                (\<lambda>downloadUrl. ret [Lit ''Download URL: '', Str downloadUrl]))
             (\<lambda>error. throw download_failed)))"

definition advanced_search :: "env \<Rightarrow> 'b exec \<Rightarrow> json \<Rightarrow> ('b server, piece list) sio" where
  "advanced_search e ex args =
     bnd (destructure ''query'' args) (\<lambda>_.
     bnd (initializeClient e) (\<lambda>_.
     bnd (call ex (Jmap ''advancedSearch''
            [JObj (map (\<lambda>k. (k, arg args k))
                     [''query'', ''from'', ''to'', ''subject'', ''hasAttachment'', ''isUnread'',
                      ''mailboxId'', ''after'', ''before'', ''limit''])]))
       (\<lambda>emails. ret [Stringify emails])))"

definition get_thread :: "env \<Rightarrow> 'b exec \<Rightarrow> json \<Rightarrow> ('b server, piece list) sio" where
  "get_thread e ex args =
     bnd (destructure ''threadId'' args) (\<lambda>_.
       if \<not> truthy (arg args ''threadId'') then invalid_params ''threadId is required''
       else
         bnd (initializeClient e) (\<lambda>_.
           catch
             (bnd (call ex (Jmap ''getThread'' [arg args ''threadId'']))
                (\<lambda>thread. ret [Stringify thread]))
             (\<lambda>error. throw (McpError InternalError
                                (''Thread access failed: '' @ message_of error)))))"

definition get_mailbox_stats :: "env \<Rightarrow> 'b exec \<Rightarrow> json \<Rightarrow> ('b server, piece list) sio" where
  "get_mailbox_stats e ex args =
     bnd (destructure ''mailboxId'' args) (\<lambda>_.
     bnd (initializeClient e) (\<lambda>_.
     bnd (call ex (Jmap ''getMailboxStats'' [arg args ''mailboxId'']))
       (\<lambda>stats. ret [Stringify stats])))"

definition get_account_summary :: "env \<Rightarrow> 'b exec \<Rightarrow> ('b server, piece list) sio" where
  "get_account_summary e ex =
     bnd (initializeClient e) (\<lambda>_.
     bnd (call ex (Jmap ''getAccountSummary'' [])) (\<lambda>summary. ret [Stringify summary]))"

subsection \<open>The bulk tools\<close>

definition bulk_mark_read :: "env \<Rightarrow> 'b exec \<Rightarrow> json \<Rightarrow> ('b server, piece list) sio" where
  "bulk_mark_read e ex args =
     bnd (destructure ''emailIds'' args) (\<lambda>_.
       if no_items (arg args ''emailIds'')
       then invalid_params ''emailIds array is required and must not be empty''
       else
         bnd (initializeClient e) (\<lambda>_.
         bnd (call ex (Jmap ''bulkMarkRead''
                [arg args ''emailIds'', arg_default args ''read'' (JBool True)]))
           (\<lambda>_. ret [Str (js_length (arg args ''emailIds'')), Lit '' emails '',
                      Lit (if truthy (arg_default args ''read'' (JBool True))
                           then ''marked as read'' else ''marked as unread''),
                      Lit '' successfully''])))"

definition bulk_move :: "env \<Rightarrow> 'b exec \<Rightarrow> json \<Rightarrow> ('b server, piece list) sio" where
  "bulk_move e ex args =
     bnd (destructure ''emailIds'' args) (\<lambda>_.
       if no_items (arg args ''emailIds'')
       then invalid_params ''emailIds array is required and must not be empty''
       else if \<not> truthy (arg args ''targetMailboxId'')
       then invalid_params ''targetMailboxId is required''
       else
         bnd (initializeClient e) (\<lambda>_.
         bnd (call ex (Jmap ''bulkMove'' [arg args ''emailIds'', arg args ''targetMailboxId'']))
           (\<lambda>_. ret [Str (js_length (arg args ''emailIds'')),
                      Lit '' emails moved successfully''])))"

definition bulk_delete :: "env \<Rightarrow> 'b exec \<Rightarrow> json \<Rightarrow> ('b server, piece list) sio" where
  "bulk_delete e ex args =
     bnd (destructure ''emailIds'' args) (\<lambda>_.
       if no_items (arg args ''emailIds'')
       then invalid_params ''emailIds array is required and must not be empty''
       else
         bnd (initializeClient e) (\<lambda>_.
         bnd (call ex (Jmap ''bulkDelete'' [arg args ''emailIds'']))
           (\<lambda>_. ret [Str (js_length (arg args ''emailIds'')),
                      Lit '' emails deleted successfully (moved to trash)''])))"

subsection \<open>check_function_availability and test_bulk_operations\<close>

text \<open>The arrow U+2192 of the guide, in UTF-8.\<close>

definition arrow :: string where
  "arrow = [CHR 0xE2, CHR 0x86, CHR 0x92]"

definition feature :: "json \<Rightarrow> string list \<Rightarrow> string \<Rightarrow> string \<Rightarrow> string \<Rightarrow> json" where
  "feature capability functions yes no scope =
     JObj [(''available'', JBool (truthy capability)),
           (''functions'', JArr (map JStr functions)),
           (''note'', JStr (if truthy capability then yes else no)),
           (''enablementGuide'',
            (if truthy capability then JNull
             else JObj [(''steps'',
                         JArr (map JStr
                           [''1. Log into Fastmail web interface'',
                            ''2. Go to Settings '' @ arrow @ '' Privacy & Security '' @ arrow
                              @ '' Connected Apps & API tokens'',
                            ''3. Check if '' @ scope @ '' scope is enabled for your API token'',
                            ''4. If not available, you may need to upgrade your Fastmail plan or contact support''])),
                        (''documentation'',
                         JStr ''https://www.fastmail.com/help/technical/jmap-api.html'')]))]"

definition availability :: "json \<Rightarrow> json \<Rightarrow> json \<Rightarrow> json" where
  "availability caps contacts calendars =
     JObj [(''email'',
            JObj [(''available'', JBool True),
                  (''functions'',
                   JArr (map JStr
                     [''list_mailboxes'', ''list_emails'', ''get_email'', ''send_email'',
                      ''search_emails'', ''get_recent_emails'', ''mark_email_read'',
                      ''delete_email'', ''move_email'', ''get_email_attachments'',
                      ''download_attachment'', ''advanced_search'', ''get_thread'',
                      ''get_mailbox_stats'', ''get_account_summary'', ''bulk_mark_read'',
                      ''bulk_move'', ''bulk_delete'']))]),
           (''identity'',
            JObj [(''available'', JBool True), (''functions'', JArr [JStr ''list_identities''])]),
           (''contacts'',
            feature contacts [''list_contacts'', ''get_contact'', ''search_contacts'']
              ''Contacts are available''
              ''Contacts access not available - may require enabling in Fastmail account settings''
              ''contacts''),
           (''calendar'',
            feature calendars
              [''list_calendars'', ''list_calendar_events'', ''get_calendar_event'',
               ''create_calendar_event'']
              ''Calendar is available''
              ''Calendar access not available - may require enabling in Fastmail account settings''
              ''calendar''),
           (''capabilities'', JArr (map JStr (object_keys caps)))]"

definition check_function_availability :: "env \<Rightarrow> 'b exec \<Rightarrow> ('b server, piece list) sio" where
  "check_function_availability e ex =
     bnd (initializeClient e) (\<lambda>_.
     bnd (call ex (Jmap ''getSession'' [])) (\<lambda>sess.
     bnd (lift (get_prop sess ''capabilities'')) (\<lambda>caps.
     bnd (lift (get_prop caps ''urn:ietf:params:jmap:contacts'')) (\<lambda>contacts.
     bnd (lift (get_prop caps ''urn:ietf:params:jmap:calendars'')) (\<lambda>calendars.
       ret [Stringify (availability caps contacts calendars)])))))"

text \<open>
  \<open>test_bulk_operations\<close>. The schema of the tool gives \<open>limit\<close> the type number:
  \<open>number_arg\<close> reads a number, and a boolean or \<^verbatim>\<open>null\<close> as \<^verbatim>\<open>Math.max\<close> converts them;
  a string, an array or an object, which \<^verbatim>\<open>Math.max\<close> would parse, is outside the model and
  reads as 0. The emails must be an array (a value of length 0 ends the tool early);
  \<^verbatim>\<open>a?.[i]\<close> is undefined on undefined and null.
\<close>

definition number_arg :: "json \<Rightarrow> int" where
  "number_arg v = (case v of JNum n \<Rightarrow> n | JBool b \<Rightarrow> (if b then 1 else 0) | _ \<Rightarrow> 0)"

fun map_err :: "('a \<Rightarrow> js_error + 'b) \<Rightarrow> 'a list \<Rightarrow> js_error + 'b list" where
  "map_err f [] = Inr []"
| "map_err f (x # xs) =
     (case f x of
        Inl e \<Rightarrow> Inl e
      | Inr y \<Rightarrow> (case map_err f xs of Inl e \<Rightarrow> Inl e | Inr ys \<Rightarrow> Inr (y # ys)))"

definition opt_index :: "json \<Rightarrow> nat \<Rightarrow> json" where
  "opt_index v i = (case get_index v i of Inl e \<Rightarrow> JUndefined | Inr x \<Rightarrow> x)"

definition email_items :: "json \<Rightarrow> js_error + json list" where
  "email_items emails =
     (if emails = JUndefined \<or> emails = JNull
      then ebnd (get_prop emails ''length'') (\<lambda>_. Inr [])
      else if js_length emails = JNum 0 then Inr []
      else (case emails of
              JArr xs \<Rightarrow> Inr xs
            | _ \<Rightarrow> Inl (TypeError ''emails.slice(...).map is not a function'')))"

definition test_email :: "json \<Rightarrow> js_error + json" where
  "test_email mail =
     ebnd (get_prop mail ''id'') (\<lambda>i.
     ebnd (get_prop mail ''subject'') (\<lambda>subject.
     ebnd (get_prop mail ''from'') (\<lambda>sender.
     ebnd (get_prop mail ''receivedAt'') (\<lambda>receivedAt.
       Inr (JObj [(''id'', i), (''subject'', subject),
                  (''from'',
                   (let a = opt_prop (opt_index sender 0) ''email''
                    in if truthy a then a else JStr ''unknown'')),
                  (''receivedAt'', receivedAt)])))))"

definition operation :: "string \<Rightarrow> string \<Rightarrow> json list \<Rightarrow> bool \<Rightarrow> (string \<times> json) list" where
  "operation nm descr emailIds read =
     [(''name'', JStr nm), (''description'', JStr descr),
      (''parameters'', JObj [(''emailIds'', JArr emailIds), (''read'', JBool read)])]"

definition operations :: "json list \<Rightarrow> ((string \<times> json) list \<times> json \<times> json) list" where
  "operations emailIds =
     [(operation ''bulk_mark_read''
         (''Mark '' @ digits_of (length emailIds) @ '' emails as read'') emailIds True,
       JArr emailIds, JBool True),
      (operation ''bulk_mark_read (undo)''
         (''Mark '' @ digits_of (length emailIds) @ '' emails as unread (undo previous)'')
         emailIds False,
       JArr emailIds, JBool False)]"

text \<open>
  The loop over the operations: a failure of \<open>bulkMarkRead\<close> is caught and written into
  the entry of the operation, and the loop goes on.
\<close>

fun run_operations ::
  "env \<Rightarrow> 'b exec \<Rightarrow> ((string \<times> json) list \<times> json \<times> json) list \<Rightarrow> nat \<Rightarrow> json list
    \<Rightarrow> ('b server, json list) sio" where
  "run_operations e ex [] k done = ret done"
| "run_operations e ex ((entry, emailIds, read) # ops) k done =
     bnd (catch
            (bnd (call ex (Jmap ''bulkMarkRead'' [emailIds, read])) (\<lambda>_.
               ret (JObj (entry @ [(''status'', JStr ''SUCCESS''), (''executed'', JBool True),
                                    (''timestamp'', JStr (clock e k))]))))
            (\<lambda>error.
               ret (JObj (entry @ [(''status'', JStr ''FAILED''), (''executed'', JBool False),
                                    (''error'', JStr (message_of error)),
                                    (''timestamp'', JStr (clock e k))]))))
       (\<lambda>r. run_operations e ex ops (Suc k) (done @ [r]))"

definition dry_run :: "(string \<times> json) list \<times> json \<times> json \<Rightarrow> json" where
  "dry_run op =
     JObj (fst op @ [(''status'', JStr ''DRY RUN - Would execute but not actually performed''),
                     (''executed'', JBool False)])"

definition test_bulk_operations :: "env \<Rightarrow> 'b exec \<Rightarrow> json \<Rightarrow> ('b server, piece list) sio" where
  "test_bulk_operations e ex args =
     bnd (destructure ''dryRun'' args) (\<lambda>_.
     bnd (initializeClient e) (\<lambda>_.
       (let dryRun = arg_default args ''dryRun'' (JBool True);
            testLimit = min (max (number_arg (arg_default args ''limit'' (JNum 3))) 1) 10 in
        bnd (call ex (Jmap ''getRecentEmails'' [JNum testLimit, JStr ''inbox''])) (\<lambda>emails.
        bnd (lift (email_items emails)) (\<lambda>items.
          if items = []
          then ret [Lit ''No emails found for bulk operation testing. Try sending yourself a test email first.'']
          else
            bnd (lift (map_err (\<lambda>mail. get_prop mail ''id'') (take (nat testLimit) items)))
              (\<lambda>emailIds.
            bnd (lift (map_err test_email items)) (\<lambda>testEmails.
              if truthy dryRun
              then ret [Lit (''BULK OPERATIONS TEST (DRY RUN)'' @ [LF, LF]),
                        Stringify (JObj [(''testEmails'', JArr testEmails),
                                         (''operations'', JArr (map dry_run (operations emailIds)))]),
                        Lit ([LF, LF] @ ''To actually execute the test, set dryRun: false'')]
              else
                bnd (run_operations e ex (operations emailIds) 0 []) (\<lambda>done.
                  ret [Lit (''BULK OPERATIONS TEST (EXECUTED)'' @ [LF, LF]),
                       Stringify (JObj [(''testEmails'', JArr testEmails),
                                        (''operations'', JArr done)])]))))))))"

subsection \<open>The handler\<close>

definition tool_body :: "env \<Rightarrow> 'b exec \<Rightarrow> string \<Rightarrow> json \<Rightarrow> ('b server, piece list) sio" where
  "tool_body e ex nm args =
     (if nm = ''list_mailboxes'' then list_mailboxes ex
      else if nm = ''list_emails'' then list_emails ex args
      else if nm = ''get_email'' then get_email ex args
      else if nm = ''send_email'' then send_email ex args
      else if nm = ''search_emails'' then search_emails ex args
      else if nm = ''list_contacts'' then list_contacts e ex args
      else if nm = ''get_contact'' then get_contact e ex args
      else if nm = ''search_contacts'' then search_contacts e ex args
      else if nm = ''list_calendars'' then list_calendars e ex
      else if nm = ''list_calendar_events'' then list_calendar_events e ex args
      else if nm = ''get_calendar_event'' then get_calendar_event e ex args
      else if nm = ''create_calendar_event'' then create_calendar_event e ex args
      else if nm = ''list_identities'' then list_identities e ex
      else if nm = ''get_recent_emails'' then get_recent_emails e ex args
      else if nm = ''mark_email_read'' then mark_email_read e ex args
      else if nm = ''delete_email'' then delete_email e ex args
      else if nm = ''move_email'' then move_email e ex args
      else if nm = ''get_email_attachments'' then get_email_attachments e ex args
      else if nm = ''download_attachment'' then download_attachment e ex args
      else if nm = ''advanced_search'' then advanced_search e ex args
      else if nm = ''get_thread'' then get_thread e ex args
      else if nm = ''get_mailbox_stats'' then get_mailbox_stats e ex args
      else if nm = ''get_account_summary'' then get_account_summary e ex
      else if nm = ''bulk_mark_read'' then bulk_mark_read e ex args
      else if nm = ''bulk_move'' then bulk_move e ex args
      else if nm = ''bulk_delete'' then bulk_delete e ex args
      else if nm = ''check_function_availability'' then check_function_availability e ex
      else if nm = ''test_bulk_operations'' then test_bulk_operations e ex args
      else throw (McpError MethodNotFound (''Unknown tool: '' @ nm)))"

text \<open>
  The \<^verbatim>\<open>catch\<close> of the handler: an \<^verbatim>\<open>McpError\<close> goes on as it is, anything else is
  wrapped.
\<close>

definition wrap_error :: "js_error \<Rightarrow> ('s, 'a) sio" where
  "wrap_error error =
     (case error of
        McpError c m \<Rightarrow> throw (McpError c m)
      | _ \<Rightarrow> throw (McpError InternalError (''Tool execution failed: '' @ message_of error)))"

definition call_tool :: "env \<Rightarrow> 'b exec \<Rightarrow> string \<Rightarrow> json \<Rightarrow> ('b server, piece list) sio" where
  "call_tool e ex nm args =
     catch (bnd (initializeClient e) (\<lambda>_. tool_body e ex nm args)) wrap_error"

subsection \<open>The calls of a run, and examples\<close>

text \<open>
  The calls an invocation added to the log, and the method of a call. A computation of the
  handler surfaces the errors of the backend through \<open>t\<close> when it only appends to the log
  and, whenever one of its calls threw \<open>x\<close>, it ends with the error \<open>t x\<close>.
\<close>

definition new_calls :: "'b server \<Rightarrow> 'b server \<Rightarrow> (backend_call \<times> (js_error + json)) list" where
  "new_calls srv srv' = drop (length (calls srv)) (calls srv')"

definition method_name :: "backend_call \<Rightarrow> string" where
  "method_name c = (case c of Jmap m as \<Rightarrow> m | ContactsCalendar m as \<Rightarrow> m | CalDAV m as \<Rightarrow> m)"

definition surfaces :: "(js_error \<Rightarrow> js_error) \<Rightarrow> ('b server, 'a) sio \<Rightarrow> bool" where
  "surfaces t m \<longleftrightarrow>
     (\<forall>srv. prefix (calls srv) (calls (snd (m srv)))
          \<and> (\<forall>c x. (c, Inl x) \<in> set (new_calls srv (snd (m srv))) \<longrightarrow> fst (m srv) = Inl (t x)))"

text \<open>
  Examples: an environment with an API token and one without, a server that has made no
  client yet, a backend on which \<open>getRecentEmails\<close> returns one email and every other
  method fails, and a JMAP server as \<open>demo_world\<close> whose account has an inbox only.
\<close>

definition demo_env :: env where
  "demo_env = \<lparr>api_token = Some ''fmu1-token'', caldav_token = None,
               clock = (\<lambda>n. ''2026-01-30T09:00:00.000Z'')\<rparr>"

definition no_token_env :: env where
  "no_token_env = \<lparr>api_token = None, caldav_token = None,
               clock = (\<lambda>n. ''2026-01-30T09:00:00.000Z'')\<rparr>"

definition fresh_server :: "unit server" where
  "fresh_server = \<lparr>jmapClient = False, contactsCalendarClient = False, caldavClient = False,
                    backend = (), calls = []\<rparr>"

definition demo_exec :: "unit exec" where
  "demo_exec c b =
     (case c of
        Jmap m as \<Rightarrow>
          if m = ''getRecentEmails''
          then (Inr (JArr [JObj [(''id'', JStr ''M1''), (''subject'', JStr ''Hello'')]]), b)
          else (Inl (Error ''fetch failed''), b)
      | _ \<Rightarrow> (Inl (Error ''fetch failed''), b))"

definition inbox_only_world :: world where
  "inbox_only_world =
     \<lparr>env_account_id = None,
      session_get = (\<lambda>n. Inr \<lparr>ok = True, statusText = ''OK'', body = Inr demo_session_body\<rparr>),
      api_post = (\<lambda>n url req. Inr \<lparr>ok = True, statusText = ''OK'',
        body = Inr (JObj [(''methodResponses'',
                 JArr (map (\<lambda>(n, args, cid).
                        JArr [JStr n,
                              JObj [(''list'', JArr [JObj [(''id'', JStr ''mb-inbox''),
                                                           (''name'', JStr ''Inbox''),
                                                           (''role'', JStr ''inbox'')]])],
                              JStr cid])
                      (methodCalls req)))])\<rparr>)\<rparr>"

text \<open>The physical lines after the one in which the scan stands.\<close>

definition rest_lines :: "string \<Rightarrow> string list" where
  "rest_lines s =
     (case dropWhile (\<lambda>x. \<not> is_line_terminator x) s of [] \<Rightarrow> [] | _ # r \<Rightarrow> split_lines r)"

definition payloads :: "string list \<Rightarrow> attendee list" where
  "payloads ls = List.map_filter attendee_of_line (map (drop 9) (filter is_attendee_line ls))"

text \<open>
  The value of a property line in the words of the specification: the text after the
  final colon of the line.
\<close>

definition after_final_colon :: "string \<Rightarrow> string" where
  "after_final_colon line = rev (takeWhile (\<lambda>c. c \<noteq> CHR '':'') (rev line))"



section \<open>Properties of the ICS parser\<close>

subsection \<open>Date normalisation\<close>

lemma hyphen_not_digit: "\<not> is_digit (CHR ''-'')"
  by (simp add: is_digit_def)

lemma digit_not_hyphen: "list_all is_digit s \<Longrightarrow> CHR ''-'' \<notin> set s"
  using hyphen_not_digit by (auto simp: list_all_iff)

lemma formatICSDate_date8:
  assumes "length s = 8" "list_all is_digit s"
  shows "formatICSDate s = take 4 s @ ''-'' @ take 2 (drop 4 s) @ ''-'' @ drop 6 s"
proof -
  from assms have "s \<noteq> []" by auto
  moreover from assms have "CHR ''-'' \<notin> set s" by (simp add: digit_not_hyphen)
  moreover from assms have "take 2 (drop 6 s) = drop 6 s" by simp
  ultimately show ?thesis using assms by (simp add: formatICSDate_def slice_def)
qed

lemma match_datetime_parts:
  assumes "length y = 4" "length mo = 2" "length d = 2" "length h = 2" "length mi = 2" "length se = 2"
    and "list_all is_digit (y @ mo @ d @ h @ mi @ se)" and "z = [] \<or> z = ''Z''"
  shows "match_datetime (y @ mo @ d @ ''T'' @ h @ mi @ se @ z) = Some (y, mo, d, h, mi, se, z)"
proof -
  let ?s = "y @ mo @ d @ ''T'' @ h @ mi @ se @ z"
  have len: "length ?s = 15 + length z" using assms by simp
  have n15: "z = ''Z'' \<Longrightarrow> ?s ! 15 = CHR ''Z''" using assms(1-6) by (simp add: nth_append)
  have n8: "?s ! 8 = CHR ''T''" using assms(1-6) by (simp add: nth_append)
  have s1: "slice 0 8 ?s = y @ mo @ d" using assms(1-6) by (simp add: slice_def)
  have s2: "slice 9 15 ?s = h @ mi @ se" using assms(1-6) by (simp add: slice_def)
  have p: "slice 0 4 ?s = y" "slice 4 6 ?s = mo" "slice 6 8 ?s = d"
     "slice 9 11 ?s = h" "slice 11 13 ?s = mi" "slice 13 15 ?s = se" "drop 15 ?s = z"
    using assms(1-6) by (simp_all add: slice_def)
  have dg: "list_all is_digit (y @ mo @ d)" "list_all is_digit (h @ mi @ se)"
    using assms(7) by simp_all
  have c: "length ?s = 15 \<or> (length ?s = 16 \<and> ?s ! 15 = CHR ''Z'')"
    using assms(8) len n15 by auto
  show ?thesis
    unfolding match_datetime_def using c n8 dg by (simp only: s1 s2 p if_True simp_thms)
qed

lemma formatICSDate_datetime:
  assumes "length y = 4" "length mo = 2" "length d = 2" "length h = 2" "length mi = 2" "length se = 2"
    and "list_all is_digit (y @ mo @ d @ h @ mi @ se)" and "z = [] \<or> z = ''Z''"
  shows "formatICSDate (y @ mo @ d @ ''T'' @ h @ mi @ se @ z)
         = y @ ''-'' @ mo @ ''-'' @ d @ ''T'' @ h @ '':'' @ mi @ '':'' @ se @ z"
proof -
  let ?s = "y @ mo @ d @ ''T'' @ h @ mi @ se @ z"
  have "CHR ''-'' \<notin> set (y @ mo @ d @ h @ mi @ se)" using assms(7) by (rule digit_not_hyphen)
  then have hy: "CHR ''-'' \<notin> set ?s"
    using assms(8) by auto
  have len: "length ?s \<noteq> 8" "?s \<noteq> []" using assms(1-6) by auto
  show ?thesis
    unfolding formatICSDate_def
    by (simp only: hy len match_datetime_parts[OF assms] if_False option.case prod.case)
qed

lemma formatICSDate_hyphen: "CHR ''-'' \<in> set s \<Longrightarrow> formatICSDate s = s"
  by (auto simp: formatICSDate_def)

text \<open>
  C2. Date normalisation. A value of eight digits \<open>YYYYMMDD\<close> becomes \<open>YYYY-MM-DD\<close>. A
  value \<open>YYYYMMDDThhmmss\<close>, with or without a final \<open>Z\<close>, becomes \<open>YYYY-MM-DDThh:mm:ss\<close>
  with the \<open>Z\<close> kept when it was there. A value that contains a hyphen is returned as it
  is.
\<close>

theorem formatICSDate_normalises:
  "(length s = 8 \<and> list_all is_digit s \<longrightarrow>
      formatICSDate s = take 4 s @ ''-'' @ take 2 (drop 4 s) @ ''-'' @ drop 6 s)
   \<and> (length y = 4 \<and> length mo = 2 \<and> length d = 2 \<and> length h = 2 \<and> length mi = 2
        \<and> length se = 2 \<and> list_all is_digit (y @ mo @ d @ h @ mi @ se) \<and> (z = [] \<or> z = ''Z'') \<longrightarrow>
      formatICSDate (y @ mo @ d @ ''T'' @ h @ mi @ se @ z)
        = y @ ''-'' @ mo @ ''-'' @ d @ ''T'' @ h @ '':'' @ mi @ '':'' @ se @ z)
   \<and> (CHR ''-'' \<in> set t \<longrightarrow> formatICSDate t = t)"
  using formatICSDate_date8 formatICSDate_datetime formatICSDate_hyphen by blast

theorem formatICSDate_normalises_witness:
  "formatICSDate ''20260130'' = ''2026-01-30''
   \<and> formatICSDate ''20260130T090000Z'' = ''2026-01-30T09:00:00Z''
   \<and> formatICSDate ''20260130T090000'' = ''2026-01-30T09:00:00''
   \<and> formatICSDate ''2026-01-30'' = ''2026-01-30''"
proof -
  have d: "list_all is_digit ''20260130''" "list_all is_digit ''20260130090000''"
    by (simp_all add: is_digit_def)
  have a: "formatICSDate ''20260130'' = ''2026-01-30''"
    using formatICSDate_normalises [of "''20260130''"] d by simp
  have b: "formatICSDate ''20260130T090000Z'' = ''2026-01-30T09:00:00Z''"
    using formatICSDate_normalises
      [of _ "''2026''" "''01''" "''30''" "''09''" "''00''" "''00''" "''Z''"] d by simp
  have c: "formatICSDate ''20260130T090000'' = ''2026-01-30T09:00:00''"
    using formatICSDate_normalises
      [of _ "''2026''" "''01''" "''30''" "''09''" "''00''" "''00''" "[]"] d by simp
  have e: "formatICSDate ''2026-01-30'' = ''2026-01-30''"
    using formatICSDate_normalises [of _ _ _ _ _ _ _ _ "''2026-01-30''"] by simp
  from a b c e show ?thesis by simp
qed

subsection \<open>Property extraction\<close>

text \<open>
  C3. A date-typed property keeps the text after the final colon of its line, also when
  a parameter value contains a colon. The code cuts at the first colon instead
  (\<^verbatim>\<open>raw.indexOf(':')\<close>), so for a quoted time zone name with a colon in it the value
  starts inside the parameter. The theorem evaluates \<open>extractProp\<close> on such a line and
  gives, beside it, the text after the final colon.
\<close>

theorem extractProp_date_cuts_at_first_colon:
  \<open>extractProp ''DTSTART;TZID="(UTC-05:00) Eastern Time (US & Canada)":20260130T090000''
       ''DTSTART''
     = Some ''00) Eastern Time (US & Canada)":20260130T090000''
   \<and> after_final_colon
       ''DTSTART;TZID="(UTC-05:00) Eastern Time (US & Canada)":20260130T090000''
     = ''20260130T090000''\<close>
  by (simp add: extractProp_def prop_at_def is_date_prop_def is_line_terminator_def LF_def CR_def
      after_final_colon_def)

lemma remove_folds_id:
  "\<forall>c\<in>set s. \<not> is_line_terminator c \<Longrightarrow> remove_folds s = s"
  by (induction s rule: remove_folds.induct) (auto simp: is_line_terminator_def)

lemma prop_at_no_terminator:
  "prop_at p s = Some raw \<Longrightarrow> \<forall>c\<in>set raw. \<not> is_line_terminator c"
  by (auto simp: prop_at_def split: if_splits list.splits dest: set_takeWhileD)

lemma line_search_prop_at_no_terminator:
  "line_search (prop_at p) b s = Some raw \<Longrightarrow> \<forall>c\<in>set raw. \<not> is_line_terminator c"
proof (induction s arbitrary: b)
  case Nil
  then show ?case by (auto split: if_splits dest: prop_at_no_terminator)
next
  case (Cons c cs)
  then show ?case
    by (auto split: if_splits option.splits dest: prop_at_no_terminator)
qed

text \<open>
  The group captured by \<open>extractProp\<close> is one physical line, so the step of \<open>unfoldICS\<close>
  that removes folds never finds one: a text property is its first line with the escapes
  replaced.
\<close>

lemma extractProp_text_first_line:
  assumes "\<not> is_date_prop p" and "line_search (prop_at p) True v = Some raw"
  shows "extractProp v p
         = Some (replace_escape (CHR '','') (CHR '','') (replace_escape (CHR ''n'') LF raw))"
  using assms remove_folds_id[OF line_search_prop_at_no_terminator[OF assms(2)]]
  by (simp add: extractProp_def unfoldICS_def)

text \<open>
  C4. A text property has its line folding reversed, so that a folded value comes back
  as its full text, and its escaped commas and newlines replaced. The code applies
  \<open>unfoldICS\<close> to the group captured from one physical line, which holds no line break:
  a folded \<^verbatim>\<open>SUMMARY\<close> is cut at the end of its first line. The theorem evaluates
  \<open>extractProp\<close> on a summary folded after \<open>Project kickoff\<close>, and \<open>unfoldICS\<close> on the whole
  folded value.
\<close>

theorem extractProp_folded_summary_truncated:
  "extractProp (''BEGIN:VEVENT'' @ CRLF @ ''SUMMARY:Project kickoff'' @ CRLF @ ''  meeting''
                 @ CRLF @ ''END:VEVENT'') ''SUMMARY''
     = Some ''Project kickoff''
   \<and> unfoldICS (''Project kickoff'' @ CRLF @ ''  meeting'') = ''Project kickoff meeting''"
  by (simp add: extractProp_def prop_at_def is_date_prop_def is_line_terminator_def LF_def CR_def
      CRLF_def TAB_def unfoldICS_def)

subsection \<open>Attendees\<close>

lemma split_lines_eq:
  "split_lines s = takeWhile (\<lambda>x. \<not> is_line_terminator x) s # rest_lines s"
  by (induction s) (simp_all add: rest_lines_def)

lemma rest_lines_Cons:
  "rest_lines (c # cs) = (if is_line_terminator c then split_lines cs else rest_lines cs)"
  by (simp add: rest_lines_def)

lemma rest_lines_dropWhile:
  "rest_lines (dropWhile (\<lambda>x. \<not> is_line_terminator x) s) = rest_lines s"
  by (simp add: rest_lines_def)

lemma prop_at_SomeD:
  assumes "prop_at p s = Some line"
  shows "\<exists>sep rest. s = p @ sep # rest \<and> (sep = CHR '';'' \<or> sep = CHR '':'')
            \<and> line = takeWhile (\<lambda>x. \<not> is_line_terminator x) rest"
proof -
  from assms obtain t where s: "s = p @ t"
    by (auto simp: prop_at_def prefix_def split: if_splits)
  with assms show ?thesis
    by (cases t) (auto simp: prop_at_def split: if_splits)
qed

lemma prop_at_NoneD:
  assumes "prop_at p s = None"
  shows "\<not> prefix (p @ '';'') s \<and> \<not> prefix (p @ '':'') s"
  using assms by (auto simp: prop_at_def prefix_def split: if_splits list.splits)

lemma attendee_name_no_terminator: "\<forall>c \<in> set ''ATTENDEE''. \<not> is_line_terminator c"
  by (simp add: is_line_terminator_def LF_def CR_def)

lemma sep_no_terminator: "sep = CHR '';'' \<or> sep = CHR '':'' \<Longrightarrow> \<not> is_line_terminator sep"
  by (auto simp: is_line_terminator_def LF_def CR_def)

lemma push_attendee_eq:
  "push_attendee line acc = acc @ List.map_filter attendee_of_line [line]"
  by (simp add: push_attendee_def attendee_of_line_def List.map_filter_simps split: option.splits)

lemma payloads_Cons:
  "payloads (l # ls) = (if is_attendee_line l then List.map_filter attendee_of_line [drop 9 l] else []) @ payloads ls"
  by (simp add: payloads_def List.map_filter_simps split: option.splits)

lemma match_first_line:
  assumes "prop_at ''ATTENDEE'' s = Some line"
  shows "is_attendee_line (takeWhile (\<lambda>x. \<not> is_line_terminator x) s)"
    and "drop 9 (takeWhile (\<lambda>x. \<not> is_line_terminator x) s) = line"
    and "rest_lines (drop (9 + length line) s) = rest_lines s"
proof -
  from prop_at_SomeD[OF assms] obtain sep rest where
    s: "s = ''ATTENDEE'' @ sep # rest" and sep: "sep = CHR '';'' \<or> sep = CHR '':''"
    and line: "line = takeWhile (\<lambda>x. \<not> is_line_terminator x) rest" by blast
  have tw: "takeWhile (\<lambda>x. \<not> is_line_terminator x) s = ''ATTENDEE'' @ sep # line"
    unfolding s line using sep_no_terminator[OF sep] attendee_name_no_terminator by (simp add: takeWhile_append2)
  show "is_attendee_line (takeWhile (\<lambda>x. \<not> is_line_terminator x) s)"
    unfolding tw is_attendee_line_def using sep by auto
  show "drop 9 (takeWhile (\<lambda>x. \<not> is_line_terminator x) s) = line"
    unfolding tw by simp
  have "drop (9 + length line) s = drop (length line) (drop 9 s)"
    by (simp add: add.commute)
  also have "drop 9 s = rest" by (simp add: s)
  finally have "drop (9 + length line) s = dropWhile (\<lambda>x. \<not> is_line_terminator x) rest"
    unfolding line by (simp add: dropWhile_eq_drop)
  moreover have "rest_lines s = rest_lines rest"
    unfolding s using sep_no_terminator[OF sep] attendee_name_no_terminator by (simp add: rest_lines_def)
  ultimately show "rest_lines (drop (9 + length line) s) = rest_lines s"
    by (simp add: rest_lines_dropWhile)
qed

lemma nomatch_first_line:
  assumes "prop_at ''ATTENDEE'' s = None"
  shows "\<not> is_attendee_line (takeWhile (\<lambda>x. \<not> is_line_terminator x) s)"
proof
  assume "is_attendee_line (takeWhile (\<lambda>x. \<not> is_line_terminator x) s)"
  then have "prefix ''ATTENDEE;'' (takeWhile (\<lambda>x. \<not> is_line_terminator x) s)
           \<or> prefix ''ATTENDEE:'' (takeWhile (\<lambda>x. \<not> is_line_terminator x) s)"
    by (simp add: is_attendee_line_def)
  moreover have "prefix (takeWhile (\<lambda>x. \<not> is_line_terminator x) s) s"
    by (metis takeWhile_dropWhile_id prefixI)
  ultimately have "prefix ''ATTENDEE;'' s \<or> prefix ''ATTENDEE:'' s"
    using prefix_order.trans by blast
  with prop_at_NoneD[OF assms] show False by simp
qed

lemma attendees_loop_lines:
  "attendees_loop b s acc = acc @ payloads (if b then split_lines s else rest_lines s)"
proof (induction b s acc rule: attendees_loop.induct)
  case (1 b attendees)
  show ?case by (simp add: payloads_def rest_lines_def is_attendee_line_def)
next
  case (2 b c cs attendees)
  let ?s = "c # cs"
  show ?case
  proof (cases "if b then prop_at ''ATTENDEE'' ?s else None")
    case None
    have step: "attendees_loop b ?s attendees = attendees_loop (is_line_terminator c) cs attendees"
      using None by simp
    have ih: "attendees_loop (is_line_terminator c) cs attendees
              = attendees @ payloads (rest_lines ?s)"
      using "2.IH"(1)[OF None] by (simp add: rest_lines_Cons)
    show ?thesis
    proof (cases b)
      case True
      with None have "prop_at ''ATTENDEE'' ?s = None" by simp
      from nomatch_first_line[OF this] have "payloads (split_lines ?s) = payloads (rest_lines ?s)"
        by (subst split_lines_eq) (simp add: payloads_Cons)
      with True step ih show ?thesis by simp
    next
      case False
      with step ih show ?thesis by simp
    qed
  next
    case (Some line)
    then have b: b and m: "prop_at ''ATTENDEE'' ?s = Some line" by (auto split: if_splits)
    have step: "attendees_loop b ?s attendees
       = attendees_loop False (drop (9 + length line) ?s) (push_attendee line attendees)"
      using Some by simp
    have ih: "attendees_loop False (drop (9 + length line) ?s) (push_attendee line attendees)
       = push_attendee line attendees @ payloads (rest_lines ?s)"
      using "2.IH"(2)[OF Some] match_first_line(3)[OF m] by simp
    have "payloads (split_lines ?s) = List.map_filter attendee_of_line [line] @ payloads (rest_lines ?s)"
      using match_first_line(1,2)[OF m] by (subst split_lines_eq) (simp add: payloads_Cons)
    with b step ih show ?thesis by (simp add: push_attendee_eq)
  qed
qed



lemma ci_group_at_SomeD:
  assumes "ci_group_at lit cls s = Some g"
  shows "\<exists>m post. s = m @ g @ post \<and> map ascii_lower m = map ascii_lower lit \<and> g \<noteq> []
            \<and> (\<forall>c\<in>set g. cls c) \<and> (post = [] \<or> \<not> cls (hd post))"
proof -
  let ?n = "length lit"
  from assms have len: "?n \<le> length s"
    and m: "map ascii_lower (take ?n s) = map ascii_lower lit"
    and g: "g = takeWhile cls (drop ?n s)" and ne: "g \<noteq> []"
    by (auto simp: ci_group_at_def split: if_splits list.splits)
  have "s = take ?n s @ g @ dropWhile cls (drop ?n s)"
    unfolding g by simp
  moreover have "\<forall>c\<in>set g. cls c" unfolding g by (auto dest: set_takeWhileD)
  moreover have "dropWhile cls (drop ?n s) = [] \<or> \<not> cls (hd (dropWhile cls (drop ?n s)))"
    using hd_dropWhile by blast
  ultimately show ?thesis using m ne by blast
qed

lemma ci_group_search_SomeD:
  "ci_group_search lit cls s = Some g \<Longrightarrow>
     \<exists>pre m post. s = pre @ m @ g @ post \<and> map ascii_lower m = map ascii_lower lit \<and> g \<noteq> []
            \<and> (\<forall>c\<in>set g. cls c) \<and> (post = [] \<or> \<not> cls (hd post))"
proof (induction s)
  case Nil
  then have "ci_group_at lit cls [] = Some g" by simp
  from ci_group_at_SomeD[OF this] show ?case by (metis append_Nil)
next
  case (Cons c cs)
  show ?case
  proof (cases "ci_group_at lit cls (c # cs)")
    case (Some g')
    with Cons.prems have "ci_group_at lit cls (c # cs) = Some g" by simp
    from ci_group_at_SomeD[OF this] show ?thesis by (metis append_Nil)
  next
    case None
    with Cons.prems have "ci_group_search lit cls cs = Some g" by simp
    from Cons.IH[OF this] obtain pre m post where
      "cs = pre @ m @ g @ post" "map ascii_lower m = map ascii_lower lit" "g \<noteq> []"
      "\<forall>c\<in>set g. cls c" "post = [] \<or> \<not> cls (hd post)" by blast
    then have "c # cs = (c # pre) @ m @ g @ post" by simp
    then show ?thesis
      using \<open>map ascii_lower m = map ascii_lower lit\<close> \<open>g \<noteq> []\<close> \<open>\<forall>c\<in>set g. cls c\<close>
        \<open>post = [] \<or> \<not> cls (hd post)\<close> by blast
  qed
qed

lemma ci_group_at_NoneD:
  assumes "ci_group_at lit cls s = None" and "s = m @ c # post"
    and "map ascii_lower m = map ascii_lower lit"
  shows "\<not> cls c"
proof
  assume c: "cls c"
  from assms(3) have len: "length m = length lit" by (rule map_eq_imp_length_eq)
  then have "take (length lit) s = m" "drop (length lit) s = c # post" "length lit \<le> length s"
    using assms(2) by simp_all
  with c assms(3) have "ci_group_at lit cls s \<noteq> None"
    by (simp add: ci_group_at_def)
  with assms(1) show False by simp
qed

lemma ci_group_search_NoneD:
  "ci_group_search lit cls s = None \<Longrightarrow> s = pre @ m @ c # post \<Longrightarrow>
   map ascii_lower m = map ascii_lower lit \<Longrightarrow> \<not> cls c"
proof (induction s arbitrary: pre)
  case Nil
  then show ?case by simp
next
  case (Cons x xs)
  from Cons.prems(1) have at: "ci_group_at lit cls (x # xs) = None"
    and rest: "ci_group_search lit cls xs = None" by (auto split: option.splits)
  show ?case
  proof (cases pre)
    case Nil
    with Cons.prems(2) have "x # xs = m @ c # post" by simp
    from ci_group_at_NoneD[OF at this Cons.prems(3)] show ?thesis .
  next
    case (Cons y pre')
    with Cons.prems(2) have "xs = pre' @ m @ c # post" by simp
    from Cons.IH[OF rest this Cons.prems(3)] show ?thesis .
  qed
qed



lemma lower_mailto: "map ascii_lower ''mailto:'' = ''mailto:''"
  by code_simp

lemma lower_cn: "map ascii_lower ''CN='' = ''cn=''"
  by code_simp



lemma ci_group_search_SomeE:
  assumes "ci_group_search lit cls s = Some g"
  obtains pre m post where "s = pre @ m @ g @ post" "map ascii_lower m = map ascii_lower lit"
    "g \<noteq> []" "\<forall>c\<in>set g. cls c" "post = [] \<or> \<not> cls (hd post)"
  using ci_group_search_SomeD[OF assms] by blast


lemma emailMatch_Some:
  assumes h: "emailMatch line = Some e"
  shows "attendee_of_line line = Some \<lparr>email = e, name = nameMatch line\<rparr>
        \<and> e \<noteq> [] \<and> (\<forall>c\<in>set e. \<not> is_space c \<and> c \<noteq> CHR '';'')
        \<and> (\<exists>pre m post. line = pre @ m @ e @ post \<and> map ascii_lower m = ''mailto:''
              \<and> (post = [] \<or> is_space (hd post) \<or> hd post = CHR '';''))"
proof -
  from h[unfolded emailMatch_def] obtain pre m post where
    d: "line = pre @ m @ e @ post" "map ascii_lower m = map ascii_lower ''mailto:''" "e \<noteq> []"
    "\<forall>c\<in>set e. \<not> is_space c \<and> c \<noteq> CHR '';''"
    "post = [] \<or> \<not> (\<not> is_space (hd post) \<and> hd post \<noteq> CHR '';'')"
    by (rule ci_group_search_SomeE)
  from d(5) have "post = [] \<or> is_space (hd post) \<or> hd post = CHR '';''"
    by (simp only: de_Morgan_conj not_not)
  with d(1,2) have "\<exists>pre m post. line = pre @ m @ e @ post \<and> map ascii_lower m = ''mailto:''
            \<and> (post = [] \<or> is_space (hd post) \<or> hd post = CHR '';'')"
    unfolding lower_mailto by (intro exI conjI)
  with d(3,4) h show ?thesis by (simp only: attendee_of_line_def option.case simp_thms)
qed

lemma nameMatch_Some:
  assumes h: "nameMatch line = Some n"
  shows "n \<noteq> [] \<and> (\<forall>c\<in>set n. c \<noteq> CHR '';'' \<and> c \<noteq> CHR '':'')
        \<and> (\<exists>pre m post. line = pre @ m @ n @ post \<and> map ascii_lower m = ''cn=''
              \<and> (post = [] \<or> hd post = CHR '';'' \<or> hd post = CHR '':''))"
proof -
  from h[unfolded nameMatch_def] obtain pre m post where
    d: "line = pre @ m @ n @ post" "map ascii_lower m = map ascii_lower ''CN=''" "n \<noteq> []"
    "\<forall>c\<in>set n. c \<noteq> CHR '';'' \<and> c \<noteq> CHR '':''"
    "post = [] \<or> \<not> (hd post \<noteq> CHR '';'' \<and> hd post \<noteq> CHR '':'')"
    by (rule ci_group_search_SomeE)
  from d(5) have "post = [] \<or> hd post = CHR '';'' \<or> hd post = CHR '':''"
    by (simp only: de_Morgan_conj not_not)
  with d(1,2) have "\<exists>pre m post. line = pre @ m @ n @ post \<and> map ascii_lower m = ''cn=''
            \<and> (post = [] \<or> hd post = CHR '';'' \<or> hd post = CHR '':'')"
    unfolding lower_cn by (intro exI conjI)
  with d(3,4) show ?thesis by (simp only: simp_thms)
qed

lemma emailMatch_None:
  assumes h: "emailMatch other = None"
  shows "attendee_of_line other = None
        \<and> (\<forall>pre m c post. other = pre @ m @ c # post \<and> map ascii_lower m = ''mailto:''
              \<longrightarrow> is_space c \<or> c = CHR '';'')"
proof -
  have "is_space c \<or> c = CHR '';''"
    if "other = pre @ m @ c # post \<and> map ascii_lower m = ''mailto:''" for pre m c post
  proof -
    from that have a: "other = pre @ m @ c # post"
      and b: "map ascii_lower m = map ascii_lower ''mailto:''"
      unfolding lower_mailto by (rule conjunct1, rule conjunct2)
    from ci_group_search_NoneD[OF h[unfolded emailMatch_def] a b]
    show ?thesis by (simp only: de_Morgan_conj not_not)
  qed
  then have "\<forall>pre m c post. other = pre @ m @ c # post \<and> map ascii_lower m = ''mailto:''
              \<longrightarrow> is_space c \<or> c = CHR '';''" by (intro allI impI)
  moreover from h have "attendee_of_line other = None"
    by (simp only: attendee_of_line_def option.case)
  ultimately show ?thesis by (rule conjI[rotated])
qed

lemma nameMatch_None:
  assumes h: "nameMatch other = None"
  shows "\<forall>pre m c post. other = pre @ m @ c # post \<and> map ascii_lower m = ''cn=''
              \<longrightarrow> c = CHR '';'' \<or> c = CHR '':''"
proof -
  have "c = CHR '';'' \<or> c = CHR '':''"
    if "other = pre @ m @ c # post \<and> map ascii_lower m = ''cn=''" for pre m c post
  proof -
    from that have a: "other = pre @ m @ c # post"
      and b: "map ascii_lower m = map ascii_lower ''CN=''"
      unfolding lower_cn by (rule conjunct1, rule conjunct2)
    from ci_group_search_NoneD[OF h[unfolded nameMatch_def] a b]
    show ?thesis by (simp only: de_Morgan_conj not_not)
  qed
  then show ?thesis by (intro allI impI)
qed

text \<open>
  C5. Attendee extraction scans every \<^verbatim>\<open>ATTENDEE\<close> line. The loop of the code gives the
  same list as the rule by lines: each line that begins with \<^verbatim>\<open>ATTENDEE\<close> and a
  separator gives one entry when it holds \<^verbatim>\<open>mailto:\<close> (in any case) followed by an
  address, and none otherwise. The address is the run of characters after \<^verbatim>\<open>mailto:\<close>
  up to the next white space or semicolon; the name, when \<^verbatim>\<open>CN=\<close> occurs, is the text
  after it up to the next semicolon or colon.
\<close>

theorem extractAttendees_scans_lines:
  "extractAttendees vevent = spec_attendees vevent
   \<and> (emailMatch line = Some e \<longrightarrow>
        attendee_of_line line = Some \<lparr>email = e, name = nameMatch line\<rparr>
        \<and> e \<noteq> [] \<and> (\<forall>c\<in>set e. \<not> is_space c \<and> c \<noteq> CHR '';'')
        \<and> (\<exists>pre m post. line = pre @ m @ e @ post \<and> map ascii_lower m = ''mailto:''
              \<and> (post = [] \<or> is_space (hd post) \<or> hd post = CHR '';'')))
   \<and> (nameMatch line = Some n \<longrightarrow>
        n \<noteq> [] \<and> (\<forall>c\<in>set n. c \<noteq> CHR '';'' \<and> c \<noteq> CHR '':'')
        \<and> (\<exists>pre m post. line = pre @ m @ n @ post \<and> map ascii_lower m = ''cn=''
              \<and> (post = [] \<or> hd post = CHR '';'' \<or> hd post = CHR '':'')))
   \<and> (emailMatch other = None \<longrightarrow>
        attendee_of_line other = None
        \<and> (\<forall>pre m c post. other = pre @ m @ c # post \<and> map ascii_lower m = ''mailto:''
              \<longrightarrow> is_space c \<or> c = CHR '';''))
   \<and> (nameMatch other = None \<longrightarrow>
        (\<forall>pre m c post. other = pre @ m @ c # post \<and> map ascii_lower m = ''cn=''
              \<longrightarrow> c = CHR '';'' \<or> c = CHR '':''))"
proof -
  have p1: "extractAttendees vevent = spec_attendees vevent"
    by (simp only: extractAttendees_def spec_attendees_def attendees_loop_lines payloads_def
        if_True append_Nil)
  show ?thesis
    by (intro conjI impI p1 emailMatch_Some nameMatch_Some emailMatch_None nameMatch_None)
qed

theorem extractAttendees_scans_lines_witness:
  "extractAttendees ''ATTENDEE;CN=Jane Doe:mailto:jane@example.com''
     = [\<lparr>email = ''jane@example.com'', name = Some ''Jane Doe''\<rparr>]
   \<and> extractAttendees (''BEGIN:VEVENT'' @ CRLF
        @ ''ATTENDEE;CN=Jane Doe:mailto:jane@example.com'' @ CRLF
        @ ''ATTENDEE;CN=Nobody:tel:123'' @ CRLF
        @ ''ATTENDEE:MAILTO:bob@example.com'' @ CRLF @ ''END:VEVENT'')
     = [\<lparr>email = ''jane@example.com'', name = Some ''Jane Doe''\<rparr>,
        \<lparr>email = ''bob@example.com'', name = None\<rparr>]
   \<and> attendee_of_line ''CN=Jane Doe:mailto:jane@example.com''
     = Some \<lparr>email = ''jane@example.com'', name = Some ''Jane Doe''\<rparr>
   \<and> attendee_of_line ''ROLE=CHAIR:tel:123'' = None"
proof -
  have s1: "spec_attendees ''ATTENDEE;CN=Jane Doe:mailto:jane@example.com''
     = [\<lparr>email = ''jane@example.com'', name = Some ''Jane Doe''\<rparr>]"
    by code_simp
  have s2: "spec_attendees (''BEGIN:VEVENT'' @ CRLF
        @ ''ATTENDEE;CN=Jane Doe:mailto:jane@example.com'' @ CRLF
        @ ''ATTENDEE;CN=Nobody:tel:123'' @ CRLF
        @ ''ATTENDEE:MAILTO:bob@example.com'' @ CRLF @ ''END:VEVENT'')
     = [\<lparr>email = ''jane@example.com'', name = Some ''Jane Doe''\<rparr>,
        \<lparr>email = ''bob@example.com'', name = None\<rparr>]"
    by code_simp
  have h1: "emailMatch ''CN=Jane Doe:mailto:jane@example.com'' = Some ''jane@example.com''"
    by code_simp
  have h2: "nameMatch ''CN=Jane Doe:mailto:jane@example.com'' = Some ''Jane Doe''"
    by code_simp
  have h3: "emailMatch ''ROLE=CHAIR:tel:123'' = None" by code_simp
  have h4: "nameMatch ''ROLE=CHAIR:tel:123'' = None" by code_simp
  note t1 = extractAttendees_scans_lines
    [of "''ATTENDEE;CN=Jane Doe:mailto:jane@example.com''"
        "''CN=Jane Doe:mailto:jane@example.com''" "''jane@example.com''" "''Jane Doe''"
        "''ROLE=CHAIR:tel:123''"]
  note t2 = extractAttendees_scans_lines
    [of "''BEGIN:VEVENT'' @ CRLF
        @ ''ATTENDEE;CN=Jane Doe:mailto:jane@example.com'' @ CRLF
        @ ''ATTENDEE;CN=Nobody:tel:123'' @ CRLF
        @ ''ATTENDEE:MAILTO:bob@example.com'' @ CRLF @ ''END:VEVENT''"]
  from t1 s1 h1 h2 h3 h4 have
    a: "extractAttendees ''ATTENDEE;CN=Jane Doe:mailto:jane@example.com''
         = [\<lparr>email = ''jane@example.com'', name = Some ''Jane Doe''\<rparr>]"
    and c: "attendee_of_line ''CN=Jane Doe:mailto:jane@example.com''
         = Some \<lparr>email = ''jane@example.com'', name = Some ''Jane Doe''\<rparr>"
    and d: "attendee_of_line ''ROLE=CHAIR:tel:123'' = None"
    by simp_all
  from t2 s2 have b: "extractAttendees (''BEGIN:VEVENT'' @ CRLF
        @ ''ATTENDEE;CN=Jane Doe:mailto:jane@example.com'' @ CRLF
        @ ''ATTENDEE;CN=Nobody:tel:123'' @ CRLF
        @ ''ATTENDEE:MAILTO:bob@example.com'' @ CRLF @ ''END:VEVENT'')
     = [\<lparr>email = ''jane@example.com'', name = Some ''Jane Doe''\<rparr>,
        \<lparr>email = ''bob@example.com'', name = None\<rparr>]"
    by simp
  from a b c d show ?thesis by simp
qed

section \<open>Properties of the JMAP client\<close>

subsection \<open>The log of a run\<close>

lemma appending_log:
  "appending m \<Longrightarrow> net_log (snd (m st)) = net_log st @ run_events m st"
proof -
  assume "appending m"
  then obtain zs where "net_log (snd (m st)) = net_log st @ zs"
    by (auto simp: appending_def prefix_def)
  then show ?thesis by (simp add: run_events_def new_events_def)
qed

lemma appending_ret [simp]: "appending (ret x)"
  and appending_throw [simp]: "appending (throw e)"
  and appending_lift [simp]: "appending (lift r)"
  by (simp_all add: appending_def ret_def throw_def lift_def)

lemma events_ret [simp]: "run_events (ret x) st = []"
  and events_throw [simp]: "run_events (throw e) st = []"
  and events_lift [simp]: "run_events (lift r) st = []"
  by (simp_all add: run_events_def new_events_def ret_def throw_def lift_def)

lemma appending_bnd [simp]:
  assumes "appending m" "\<And>x. appending (f x)"
  shows "appending (bnd m f)"
  unfolding appending_def
proof
  fix st
  obtain r st1 where m: "m st = (r, st1)" by (cases "m st")
  have p1: "prefix (net_log st) (net_log st1)"
    using assms(1) m by (auto simp: appending_def dest: spec[of _ st])
  show "prefix (net_log st) (net_log (snd (bnd m f st)))"
  proof (cases r)
    case (Inl e)
    with m p1 show ?thesis by (simp add: bnd_def)
  next
    case (Inr x)
    have "prefix (net_log st1) (net_log (snd (f x st1)))"
      using assms(2)[of x] by (simp add: appending_def)
    with p1 m Inr show ?thesis by (auto simp: bnd_def intro: prefix_order.trans)
  qed
qed

lemma events_bnd:
  assumes "appending m" "\<And>x. appending (f x)"
  shows "run_events (bnd m f) st
         = run_events m st @ (case m st of (Inl e, st1) \<Rightarrow> [] | (Inr x, st1) \<Rightarrow> run_events (f x) st1)"
proof -
  obtain r st1 where m: "m st = (r, st1)" by (cases "m st")
  have l1: "net_log st1 = net_log st @ run_events m st"
    using appending_log[OF assms(1), of st] m by simp
  show ?thesis
  proof (cases r)
    case (Inl e)
    with m show ?thesis by (simp add: bnd_def run_events_def)
  next
    case (Inr x)
    have l2: "net_log (snd (f x st1)) = net_log st1 @ run_events (f x) st1"
      using appending_log[OF assms(2)[of x], of st1] by simp
    have "run_events (bnd m f) st = drop (length (net_log st)) (net_log (snd (f x st1)))"
      using m Inr by (simp add: bnd_def run_events_def new_events_def)
    also have "\<dots> = run_events m st @ run_events (f x) st1"
      unfolding l2 l1 by simp
    finally show ?thesis using m Inr by simp
  qed
qed

lemma getSession_cases:
  "getSession w st = (r, st1) \<Longrightarrow>
     (net_log st1 = net_log st \<or> net_log st1 = net_log st @ [SessionGet])
     \<and> (\<forall>s. r = Inr s \<longrightarrow> session st1 = Some s)"
  by (auto simp: getSession_def Let_def split: option.splits sum.splits if_splits)

lemma appending_getSession [simp]: "appending (getSession w)"
  unfolding appending_def
proof
  fix st
  obtain r st1 where g: "getSession w st = (r, st1)" by (cases "getSession w st")
  from getSession_cases[OF g] show "prefix (net_log st) (net_log (snd (getSession w st)))"
    using g by auto
qed

lemma events_getSession:
  "run_events (getSession w) st = [] \<or> run_events (getSession w) st = [SessionGet]"
proof -
  obtain r st1 where g: "getSession w st = (r, st1)" by (cases "getSession w st")
  from getSession_cases[OF g] show ?thesis
    using g by (auto simp: run_events_def new_events_def)
qed

lemma getSession_memo: "session st = Some s \<Longrightarrow> getSession w st = (Inr s, st)"
  by (simp add: getSession_def)

lemma run_events_getSession_memo:
  "session st = Some s \<Longrightarrow> run_events (getSession w) st = []"
  by (simp add: run_events_def new_events_def getSession_memo)

lemma fetch_post_log:
  "net_log (snd (fetch_post w url req st)) = net_log st @ [ApiPost url req]"
  "session (snd (fetch_post w url req st)) = session st"
  by (auto simp: fetch_post_def Let_def split: sum.splits)

lemma appending_fetch_post [simp]: "appending (fetch_post w url req)"
  by (simp add: appending_def fetch_post_log)

lemma events_fetch_post [simp]: "run_events (fetch_post w url req) st = [ApiPost url req]"
  by (simp add: run_events_def new_events_def fetch_post_log)

lemma appending_makeRequest [simp]: "appending (makeRequest w req)"
  by (simp add: makeRequest_def)

lemma events_makeRequest_known:
  "session st = Some s \<Longrightarrow> run_events (makeRequest w req) st = [ApiPost (apiUrl s) req]"
  by (simp add: makeRequest_def events_bnd getSession_memo run_events_getSession_memo)


lemma calls_named_append [simp]:
  "calls_named m (a @ b) = calls_named m a @ calls_named m b"
  by (simp add: calls_named_def)

lemma calls_named_Nil [simp]: "calls_named m [] = []"
  by (simp add: calls_named_def)

lemma calls_named_SessionGet [simp]: "calls_named m [SessionGet] = []"
  by (simp add: calls_named_def)

lemma calls_named_getSession [simp]: "calls_named m (run_events (getSession w) st) = []"
  using events_getSession[of w st] by auto

lemma calls_named_ApiPost [simp]: "calls_named m [ApiPost u req] = request_calls m req"
  by (simp add: calls_named_def request_calls_def)

lemma calls_named_makeRequest:
  "calls_named m (run_events (makeRequest w req) st)
     = (case getSession w st of (Inl e, st1) \<Rightarrow> [] | (Inr s, st1) \<Rightarrow> request_calls m req)"
  by (simp add: makeRequest_def events_bnd split: prod.splits sum.splits)

lemma appending_getMailboxes [simp]: "appending (getMailboxes w)"
  by (simp add: getMailboxes_def)

lemma calls_named_getMailboxes:
  "m \<noteq> ''Mailbox/get'' \<Longrightarrow> calls_named m (run_events (getMailboxes w) st) = []"
  by (simp add: getMailboxes_def events_bnd calls_named_makeRequest request_calls_def
      split: prod.splits sum.splits)

lemma request_calls_query_then_get:
  "request_calls ''Email/query'' (query_then_get acc flt lim props)
     = [JObj [(''accountId'', acc), (''filter'', flt),
                (''sort'', JArr [JObj [(''property'', JStr ''receivedAt''),
                                       (''isAscending'', JBool False)]]),
                (''limit'', lim)]]"
  by (simp add: request_calls_def query_then_get_def)

lemma query_limits_query_then_get:
  "map limit_of (request_calls ''Email/query'' (query_then_get acc flt lim props)) = [lim]"
  by (simp add: request_calls_query_then_get limit_of_def get_prop_def)

lemma getEmails_limits:
  "query_limits (run_events (getEmails w mailboxId limit) st) = []
   \<or> query_limits (run_events (getEmails w mailboxId limit) st)
       = [JNum (case limit of None \<Rightarrow> 20 | Some n \<Rightarrow> n)]"
  by (simp add: query_limits_def getEmails_def events_bnd calls_named_makeRequest
      getEmails_request_def query_limits_query_then_get
      split: prod.splits sum.splits)

lemma advancedSearch_limits:
  "query_limits (run_events (advancedSearch w filters) st) = []
   \<or> query_limits (run_events (advancedSearch w filters) st)
       = [JNum (advancedSearch_limit (f_limit filters))]"
  by (simp add: query_limits_def advancedSearch_def events_bnd calls_named_makeRequest
      advancedSearch_request_def query_limits_query_then_get
      split: prod.splits sum.splits)

lemma getRecentEmails_limits:
  "query_limits (run_events (getRecentEmails w limit mailboxName) st) = []
   \<or> query_limits (run_events (getRecentEmails w limit mailboxName) st)
       = [JNum (min (case limit of None \<Rightarrow> 10 | Some n \<Rightarrow> n) 50)]"
  by (simp add: query_limits_def getRecentEmails_def Let_def events_bnd calls_named_makeRequest
      calls_named_getMailboxes
      getRecentEmails_request_def query_limits_query_then_get
      split: prod.splits sum.splits)


text \<open>
  The limits that the listing operations of the client send: a run of \<open>getRecentEmails\<close>
  sends at most one \<^verbatim>\<open>Email/query\<close>, with the limit \<open>min limit 50\<close> (the limit is 10 when
  none is given); a run of \<open>advancedSearch\<close> sends at most one, with \<open>min limit 100\<close>, where
  a limit that is absent or zero counts as 50; a run of \<open>getEmails\<close> sends at most one,
  with the caller's limit as it is (20 when none is given).
\<close>

lemma listing_limits_transmitted:
  "(query_limits (run_events (getRecentEmails w limit mailboxName) st) = []
      \<or> query_limits (run_events (getRecentEmails w limit mailboxName) st)
          = [JNum (min (case limit of None \<Rightarrow> 10 | Some n \<Rightarrow> n) 50)])
   \<and> (query_limits (run_events (advancedSearch w filters) st) = []
      \<or> query_limits (run_events (advancedSearch w filters) st)
          = [JNum (min (case f_limit filters of None \<Rightarrow> 50
                        | Some n \<Rightarrow> if n = 0 then 50 else n) 100)])
   \<and> (query_limits (run_events (getEmails w mailboxId limit') st) = []
      \<or> query_limits (run_events (getEmails w mailboxId limit') st)
          = [JNum (case limit' of None \<Rightarrow> 20 | Some n \<Rightarrow> n)])"
  using getRecentEmails_limits[of w limit mailboxName st] advancedSearch_limits[of w filters st]
    getEmails_limits[of w mailboxId limit' st]
  by (simp only: advancedSearch_limit_def)

lemma demo_getEmails_limit:
  "query_limits (run_events (getEmails demo_world None (Some n)) fresh_client) = [JNum n]"
  by (simp add: query_limits_def getEmails_def events_bnd calls_named_makeRequest
      getEmails_request_def query_limits_query_then_get getSession_def demo_world_def
      fresh_client_def ebnd_def build_session_def resolve_account_id_def demo_session_body_def
      get_prop_def truthy_def
      split: prod.splits sum.splits)

lemma getEmails_limit_has_no_ceiling:
  "\<not> (\<exists>ceiling. \<forall>limit. \<forall>l \<in> set (query_limits
          (run_events (getEmails demo_world None (Some limit)) fresh_client)).
        \<exists>n. l = JNum n \<and> n \<le> ceiling)"
proof
  assume "\<exists>ceiling. \<forall>limit. \<forall>l \<in> set (query_limits
          (run_events (getEmails demo_world None (Some limit)) fresh_client)).
        \<exists>n. l = JNum n \<and> n \<le> ceiling"
  then obtain c :: int where
    c: "\<forall>limit. \<forall>l \<in> set (query_limits
          (run_events (getEmails demo_world None (Some limit)) fresh_client)).
        \<exists>n. l = JNum n \<and> n \<le> c" by blast
  from c[rule_format, of "JNum (c + 1)" "c + 1"] show False
    by (simp add: demo_getEmails_limit)
qed

text \<open>
  C8. Every listing operation sends the caller's limit clamped to a ceiling. The code does
  so in \<open>getRecentEmails\<close> and in \<open>advancedSearch\<close>, and not in \<open>getEmails\<close>: asked for 1000
  emails, \<open>getRecentEmails\<close> sends the limit 50 and \<open>advancedSearch\<close> the limit 100, while
  \<open>getEmails\<close> sends 1000. The batch that the tool \<open>search_emails\<close> builds itself carries
  the limit of the caller as it is, too.
\<close>

theorem getEmails_limit_not_clamped:
  "query_limits (run_events (getEmails demo_world None (Some 1000)) fresh_client) = [JNum 1000]
   \<and> query_limits (run_events (getRecentEmails demo_world (Some 1000) None) fresh_client)
       = [JNum 50]
   \<and> query_limits (run_events (advancedSearch demo_world
         \<lparr>f_query = None, f_from = None, f_to = None, f_subject = None, f_hasAttachment = None,
          f_isUnread = None, f_mailboxId = None, f_after = None, f_before = None,
          f_limit = Some 1000\<rparr>) fresh_client) = [JNum 100]
   \<and> get_path (search_request acc query (JNum 1000))
         [Prop ''methodCalls'', Idx 0, Idx 1, Prop ''limit''] = Inr (JNum 1000)"
proof -
  let ?f = "\<lparr>f_query = None, f_from = None, f_to = None, f_subject = None, f_hasAttachment = None,
          f_isUnread = None, f_mailboxId = None, f_after = None, f_before = None,
          f_limit = Some 1000\<rparr>"
  have a: "query_limits (run_events (getRecentEmails demo_world (Some 1000) None) fresh_client) \<noteq> []"
    by code_simp
  have b: "query_limits (run_events (advancedSearch demo_world ?f) fresh_client) \<noteq> []"
    by code_simp
  have c: "query_limits (run_events (getEmails demo_world None (Some 1000)) fresh_client) \<noteq> []"
    by code_simp
  have d: "get_path (search_request acc query (JNum 1000))
         [Prop ''methodCalls'', Idx 0, Idx 1, Prop ''limit''] = Inr (JNum 1000)"
    by (simp add: search_request_def get_prop_def get_index_def)
  from listing_limits_transmitted
    [of demo_world "Some 1000" None fresh_client ?f None "Some 1000"] a b c d
  show ?thesis by simp
qed

subsection \<open>Results read at the positions of their calls\<close>

lemma aligned_responses:
  assumes "aligned req response"
  shows "get_prop response ''methodResponses'' = Inr (JArr (responses_of response))"
    and "list_all2 entry_matches (methodCalls req)
           (take (length (methodCalls req)) (responses_of response))"
    and "length (methodCalls req) \<le> length (responses_of response)"
proof -
  from assms obtain kvs where r: "response = JObj kvs"
    by (cases response) (simp_all add: aligned_def)
  with assms obtain v where v: "map_of kvs ''methodResponses'' = Some v"
    by (cases "map_of kvs ''methodResponses''") (simp_all add: aligned_def)
  with assms r obtain rs where rs: "v = JArr rs"
    by (cases v) (simp_all add: aligned_def)
  show "get_prop response ''methodResponses'' = Inr (JArr (responses_of response))"
    by (simp add: r v rs get_prop_def responses_of_def)
  show "list_all2 entry_matches (methodCalls req)
           (take (length (methodCalls req)) (responses_of response))"
    using assms by (simp add: r v rs aligned_def responses_of_def)
  show "length (methodCalls req) \<le> length (responses_of response)"
    using assms by (simp add: r v rs aligned_def responses_of_def)
qed

lemma entry_matchesD:
  assumes "entry_matches c r"
  shows "\<exists>rn res. r = JArr [JStr rn, JObj res, JStr (snd (snd c))]"
proof -
  from assms obtain xs where r: "r = JArr xs" by (cases r) (simp_all add: entry_matches_def)
  from assms r obtain a b d where xs: "xs = [a, b, d]"
    by (cases xs; cases "tl xs"; cases "tl (tl xs)"; cases "tl (tl (tl xs))")
       (auto simp: entry_matches_def split: json.splits)
  from assms r xs obtain rn where a: "a = JStr rn" by (cases a) (simp_all add: entry_matches_def)
  from assms r xs a obtain res where b: "b = JObj res" by (cases b) (simp_all add: entry_matches_def)
  from assms r xs a b obtain rid where d: "d = JStr rid" by (cases d) (simp_all add: entry_matches_def)
  from assms r xs a b d show ?thesis by (simp add: entry_matches_def)
qed

lemma aligned_entry:
  assumes "aligned req response" and "i < length (methodCalls req)"
  shows "\<exists>rn res. responses_of response ! i
            = JArr [JStr rn, JObj res, JStr (snd (snd (methodCalls req ! i)))]"
    and "i < length (responses_of response)"
proof -
  note a = aligned_responses(2)[OF assms(1)] and l = aligned_responses(3)[OF assms(1)]
  show "i < length (responses_of response)"
    using l assms(2) by simp
  from list_all2_nthD[OF a assms(2)] assms(2)
  have "entry_matches (methodCalls req ! i) (responses_of response ! i)"
    by simp
  then show "\<exists>rn res. responses_of response ! i
            = JArr [JStr rn, JObj res, JStr (snd (snd (methodCalls req ! i)))]"
    by (rule entry_matchesD)
qed

lemma get_path_append:
  "get_path v p = Inr x \<Longrightarrow> get_path v (p @ q) = get_path x q"
  by (induction v p rule: get_path.induct) (auto split: sum.splits)

lemma aligned_result:
  assumes "aligned req response" and "i < length (methodCalls req)"
  shows "get_path response [Prop ''methodResponses'', Idx i, Idx 1] = Inr (result_at response i)"
    and "get_path response [Prop ''methodResponses'', Idx i, Idx 1, Prop k]
           = Inr (field k (result_at response i))"
    and "get_prop (result_at response i) k = Inr (field k (result_at response i))"
    and "call_id_at response i = JStr (snd (snd (methodCalls req ! i)))"
proof -
  from aligned_entry(1)[OF assms] obtain rn res where
    e: "responses_of response ! i = JArr [JStr rn, JObj res, JStr (snd (snd (methodCalls req ! i)))]"
    by blast
  note g = aligned_responses(1)[OF assms(1)] and l = aligned_entry(2)[OF assms]
  have ra: "result_at response i = JObj res" by (simp add: result_at_def e)
  show p: "get_path response [Prop ''methodResponses'', Idx i, Idx 1] = Inr (result_at response i)"
    using l by (simp add: g get_index_def e ra)
  show f: "get_prop (result_at response i) k = Inr (field k (result_at response i))"
    by (simp add: ra get_prop_def field_def opt_prop_def)
  show "get_path response [Prop ''methodResponses'', Idx i, Idx 1, Prop k]
           = Inr (field k (result_at response i))"
    using get_path_append[OF p, of "[Prop k]"] f by simp
  show "call_id_at response i = JStr (snd (snd (methodCalls req ! i)))"
    by (simp add: call_id_at_def e)
qed

lemma getSession_session:
  "getSession w st = (Inr s, st1) \<Longrightarrow> session st1 = Some s"
  by (auto simp: getSession_def Let_def split: option.splits sum.splits if_splits)

lemma fetch_post_answered:
  "answered w st url req response \<Longrightarrow>
     fetch_post w url req st = (Inr response, st\<lparr>net_log := net_log st @ [ApiPost url req]\<rparr>)"
  by (auto simp: answered_def fetch_post_def Let_def split: sum.splits)

lemma makeRequest_answered:
  assumes "session st = Some s" "answered w st (apiUrl s) req response"
  shows "makeRequest w req st = (Inr response, st\<lparr>net_log := net_log st @ [ApiPost (apiUrl s) req]\<rparr>)"
  using assms by (simp add: makeRequest_def bnd_def getSession_memo fetch_post_answered)

lemma query_then_get_length: "length (methodCalls (query_then_get a f l p)) = 2"
  by (simp add: query_then_get_def)

lemma getEmails_aligned:
  assumes g: "getSession w st = (Inr s, st1)"
    and a: "answered w st1 (apiUrl s) (getEmails_request s mb lim) response"
    and al: "aligned (getEmails_request s mb lim) response"
  shows "fst (getEmails w mb lim st) = Inr (field ''list'' (result_at response 1))"
proof -
  have len: "1 < length (methodCalls (getEmails_request s mb lim))"
    by (simp add: getEmails_request_def query_then_get_length)
  note m = makeRequest_answered[OF getSession_session[OF g] a]
  show ?thesis
    by (simp add: getEmails_def bnd_def g m lift_def aligned_result(2)[OF al len]
        del: One_nat_def get_path.simps)
qed


lemma advancedSearch_aligned:
  assumes g: "getSession w st = (Inr s, st1)"
    and a: "answered w st1 (apiUrl s) (advancedSearch_request s filters) response"
    and al: "aligned (advancedSearch_request s filters) response"
  shows "fst (advancedSearch w filters st) = Inr (field ''list'' (result_at response 1))"
proof -
  have len: "1 < length (methodCalls (advancedSearch_request s filters))"
    by (simp add: advancedSearch_request_def query_then_get_length)
  note m = makeRequest_answered[OF getSession_session[OF g] a]
  show ?thesis
    by (simp add: advancedSearch_def bnd_def g m lift_def aligned_result(2)[OF al len]
        del: One_nat_def get_path.simps)
qed

lemma fetch_post_session: "session (snd (fetch_post w url req st)) = session st"
  by (auto simp: fetch_post_def Let_def split: sum.splits)

lemma makeRequest_session:
  "session st = Some s \<Longrightarrow> session (snd (makeRequest w req st)) = Some s"
  by (simp add: makeRequest_def bnd_def getSession_memo fetch_post_session)

lemma bnd_lift_session:
  "session (snd (bnd m (\<lambda>x. lift (f x)) st)) = session (snd (m st))"
  by (cases "m st") (auto simp: bnd_def lift_def split: sum.splits)

lemma getMailboxes_session:
  "session st = Some s \<Longrightarrow> session (snd (getMailboxes w st)) = Some s"
  unfolding getMailboxes_def
  by (simp add: bnd_def[of "getSession w"] getSession_memo bnd_lift_session makeRequest_session)

lemma get_prop_truthy: "truthy v \<Longrightarrow> get_prop v k = Inr (field k v)"
  by (cases v) (simp_all add: truthy_def get_prop_def field_def opt_prop_def)

lemma getRecentEmails_aligned:
  assumes g: "getSession w st = (Inr s, st1)"
    and mb: "getMailboxes w st1 = (Inr mailboxes, st2)"
    and f: "array_find mailboxes
              (mailbox_named (toLowerCase (case mailboxName of None \<Rightarrow> ''inbox'' | Some n \<Rightarrow> n)))
            = Inr target"
    and t: "truthy target"
    and a: "answered w st2 (apiUrl s)
              (getRecentEmails_request s (field ''id'' target)
                 (case limit of None \<Rightarrow> 10 | Some n \<Rightarrow> n)) response"
    and al: "aligned (getRecentEmails_request s (field ''id'' target)
                 (case limit of None \<Rightarrow> 10 | Some n \<Rightarrow> n)) response"
  shows "fst (getRecentEmails w limit mailboxName st) = Inr (field ''list'' (result_at response 1))"
proof -
  let ?req = "getRecentEmails_request s (field ''id'' target)
                 (case limit of None \<Rightarrow> 10 | Some n \<Rightarrow> n)"
  have len: "1 < length (methodCalls ?req)"
    by (simp add: getRecentEmails_request_def query_then_get_length)
  have s2: "session st2 = Some s"
    using getMailboxes_session[OF getSession_session[OF g], of w] mb by simp
  note m = makeRequest_answered[OF s2 a]
  show ?thesis
    by (simp add: getRecentEmails_def Let_def bnd_def g mb f t lift_def get_prop_truthy[OF t] m
        aligned_result(2)[OF al len] del: One_nat_def get_path.simps)
qed


lemma catch_ret_session:
  assumes "\<And>st. session (snd (m st)) = session st"
  shows "session (snd (catch m (\<lambda>e. ret x) st)) = session st"
  using assms[of st] by (cases "m st") (auto simp: catch_def ret_def split: sum.splits)

lemma resolve_thread_id_session:
  assumes "session st = Some s"
  shows "session (snd (resolve_thread_id w s' threadId st)) = Some s"
proof -
  obtain r st1 where m: "makeRequest w (getThread_check s' threadId) st = (r, st1)"
    by (cases "makeRequest w (getThread_check s' threadId) st")
  have s1: "session st1 = Some s"
    using makeRequest_session[OF assms, of w "getThread_check s' threadId"] m by simp
  show ?thesis
    unfolding resolve_thread_id_def
    by (cases r)
       (auto simp: catch_def bnd_def m s1 ret_def lift_def split: sum.splits prod.splits)
qed

lemma getThread_request_length: "length (methodCalls (getThread_request s a)) = 2"
  by (simp add: getThread_request_def)

lemma getThread_aligned:
  assumes g: "getSession w st = (Inr s, st1)"
    and r: "resolve_thread_id w s threadId st1 = (Inr actual, st2)"
    and a: "answered w st2 (apiUrl s) (getThread_request s actual) response"
    and al: "aligned (getThread_request s actual) response"
  shows "fst (getThread w threadId st)
         = (case (if truthy (field ''notFound'' (result_at response 0))
                  then js_includes (field ''notFound'' (result_at response 0)) actual
                  else Inr False) of
              Inl e \<Rightarrow> Inl e
            | Inr missing \<Rightarrow>
                if missing
                then Inl (Error (''Thread with ID '' @ [CHR 0x27] @ to_js_string actual
                                  @ [CHR 0x27] @ '' not found''))
                else Inr (field ''list'' (result_at response 1)))"
proof -
  let ?req = "getThread_request s actual"
  have len: "0 < length (methodCalls ?req)" "1 < length (methodCalls ?req)"
    by (simp_all add: getThread_request_length)
  have s2: "session st2 = Some s"
    using resolve_thread_id_session[OF getSession_session[OF g], of w s threadId] r by simp
  note m = makeRequest_answered[OF s2 a]
  show ?thesis
    by (simp add: getThread_def bnd_def g r m lift_def throw_def
        aligned_result(1)[OF al len(1)] aligned_result(3)[OF al len(1)]
        aligned_result(2)[OF al len(2)]
        del: One_nat_def get_path.simps split: sum.splits)
qed

lemma field_falsy: "\<not> truthy v \<Longrightarrow> field k v = JUndefined"
  by (cases v) (simp_all add: truthy_def field_def opt_prop_def)

lemma truthy_field:
  assumes "truthy (field k v)"
  shows "truthy v"
proof (rule ccontr)
  assume "\<not> truthy v"
  then have "field k v = JUndefined" by (rule field_falsy)
  with assms show False by (simp add: truthy_def)
qed

lemma sendEmail_result_aligned:
  assumes al: "aligned req response" and len: "length (methodCalls req) = 2"
  shows "fst (sendEmail_result response st)
         = (if truthy (field ''draft'' (field ''notCreated'' (result_at response 0)))
            then Inl (Error ''Failed to create email. Please check inputs and try again.'')
            else if truthy (field ''submission'' (field ''notCreated'' (result_at response 1)))
            then Inl (Error ''Failed to submit email. Please try again later.'')
            else Inr (if truthy (field ''id'' (field ''submission''
                                   (field ''created'' (result_at response 1))))
                      then field ''id'' (field ''submission''
                                   (field ''created'' (result_at response 1)))
                      else JStr ''unknown''))"
proof -
  have l: "0 < length (methodCalls req)" "1 < length (methodCalls req)" using len by simp_all
  let ?n0 = "field ''notCreated'' (result_at response 0)"
  let ?n1 = "field ''notCreated'' (result_at response 1)"
  have c0: "(if truthy ?n0 then get_prop ?n0 ''draft'' else Inr ?n0)
            = Inr (if truthy ?n0 then field ''draft'' ?n0 else ?n0)"
    by (simp add: get_prop_truthy)
  have c1: "(if truthy ?n1 then get_prop ?n1 ''submission'' else Inr ?n1)
            = Inr (if truthy ?n1 then field ''submission'' ?n1 else ?n1)"
    by (simp add: get_prop_truthy)
  have t0: "truthy (if truthy ?n0 then field ''draft'' ?n0 else ?n0)
            \<longleftrightarrow> truthy (field ''draft'' ?n0)"
    using truthy_field[of "''draft''" ?n0] by auto
  have t1: "truthy (if truthy ?n1 then field ''submission'' ?n1 else ?n1)
            \<longleftrightarrow> truthy (field ''submission'' ?n1)"
    using truthy_field[of "''submission''" ?n1] by auto
  show ?thesis
    unfolding sendEmail_result_def
    by (simp add: bnd_def lift_def throw_def ret_def Let_def
        aligned_result(1)[OF al l(1)] aligned_result(3)[OF al l(1)]
        aligned_result(1)[OF al l(2)] aligned_result(3)[OF al l(2)]
        c0 c1 t0 t1 field_def[symmetric] get_prop_truthy field_falsy
        del: One_nat_def get_path.simps)
qed


lemma getIdentities_session:
  "session st = Some s \<Longrightarrow> session (snd (getIdentities w st)) = Some s"
  unfolding getIdentities_def
  by (simp add: bnd_def[of "getSession w"] getSession_memo bnd_lift_session makeRequest_session)

lemma get_prop_defined: "get_prop v k = Inr x \<Longrightarrow> get_prop v k' = Inr (field k' v)"
  by (cases v) (simp_all add: get_prop_def field_def opt_prop_def)

lemma sendEmail_aligned:
  assumes g: "getSession w st = (Inr s, st1)"
    and ids: "getIdentities w st1 = (Inr identities, st2)"
    and some: "truthy identities" "js_length identities \<noteq> JNum 0"
    and sel: "select_identity identities (e_from mail) = Inr selected"
    and fe: "get_prop selected ''email'' = Inr fromEmail"
    and mb: "getMailboxes w st2 = (Inr mailboxes, st3)"
    and d: "find_mailbox mailboxes ''drafts'' ''draft'' = Inr drafts" "truthy drafts"
    and sn: "find_mailbox mailboxes ''sent'' ''sent'' = Inr sent" "truthy sent"
    and body: "given (e_textBody mail) \<or> given (e_htmlBody mail)"
    and a: "answered w st3 (apiUrl s)
              (sendEmail_request s mail fromEmail (field ''id'' selected)
                 (to_js_string (if given (e_mailboxId mail) then JStr (the (e_mailboxId mail))
                                else field ''id'' drafts))
                 (to_js_string (field ''id'' sent))) response"
    and al: "aligned
              (sendEmail_request s mail fromEmail (field ''id'' selected)
                 (to_js_string (if given (e_mailboxId mail) then JStr (the (e_mailboxId mail))
                                else field ''id'' drafts))
                 (to_js_string (field ''id'' sent))) response"
  shows "fst (sendEmail w mail st)
         = (if truthy (field ''draft'' (field ''notCreated'' (result_at response 0)))
            then Inl (Error ''Failed to create email. Please check inputs and try again.'')
            else if truthy (field ''submission'' (field ''notCreated'' (result_at response 1)))
            then Inl (Error ''Failed to submit email. Please try again later.'')
            else Inr (if truthy (field ''id'' (field ''submission''
                                   (field ''created'' (result_at response 1))))
                      then field ''id'' (field ''submission''
                                   (field ''created'' (result_at response 1)))
                      else JStr ''unknown''))"
proof -
  let ?init = "if given (e_mailboxId mail) then JStr (the (e_mailboxId mail))
               else field ''id'' drafts"
  let ?req = "sendEmail_request s mail fromEmail (field ''id'' selected)
                 (to_js_string ?init) (to_js_string (field ''id'' sent))"
  have s1: "session st1 = Some s" by (rule getSession_session[OF g])
  have s2: "session st2 = Some s" using getIdentities_session[OF s1, of w] ids by simp
  have s3: "session st3 = Some s" using getMailboxes_session[OF s2, of w] mb by simp
  note m = makeRequest_answered[OF s3 a]
  have len: "length (methodCalls ?req) = 2" by (simp add: sendEmail_request_def)
  have idp: "get_prop selected ''id'' = Inr (field ''id'' selected)"
    by (rule get_prop_defined[OF fe])
  have b: "\<not> (\<not> given (e_textBody mail) \<and> \<not> given (e_htmlBody mail))" using body by simp
  have run: "sendEmail w mail st
             = sendEmail_result response (st3\<lparr>net_log := net_log st3 @ [ApiPost (apiUrl s) ?req]\<rparr>)"
  proof (cases "given (e_mailboxId mail)")
    case True
    with m have m': "makeRequest w
           (sendEmail_request s mail fromEmail (field ''id'' selected)
              (to_js_string (JStr (the (e_mailboxId mail)))) (to_js_string (field ''id'' sent))) st3
         = (Inr response, st3\<lparr>net_log := net_log st3 @ [ApiPost (apiUrl s) ?req]\<rparr>)"
      by simp
    show ?thesis
      unfolding sendEmail_def
      by (simp only: bnd_def g ids sel fe mb d sn lift_def some b True idp m'
          get_prop_truthy[OF sn(2)] prod.case sum.case if_True if_False not_True_eq_False
          simp_thms)
  next
    case False
    with m have m': "makeRequest w
           (sendEmail_request s mail fromEmail (field ''id'' selected)
              (to_js_string (field ''id'' drafts)) (to_js_string (field ''id'' sent))) st3
         = (Inr response, st3\<lparr>net_log := net_log st3 @ [ApiPost (apiUrl s) ?req]\<rparr>)"
      by simp
    show ?thesis
      unfolding sendEmail_def
      by (simp only: bnd_def g ids sel fe mb d sn lift_def some b False idp m'
          get_prop_truthy[OF sn(2)] get_prop_truthy[OF d(2)] prod.case sum.case if_True
          if_False not_True_eq_False simp_thms)
  qed
  show ?thesis unfolding run by (rule sendEmail_result_aligned[OF al len])
qed

text \<open>
  C1. A chained batch is answered entry by entry in the order of its calls, and the
  client reads each result at the position of its call. The client sends five batches of
  two calls, in \<open>getEmails\<close>, \<open>advancedSearch\<close>, \<open>getRecentEmails\<close>, \<open>getThread\<close> and
  \<open>sendEmail\<close>. For each of them: the names of the two calls of the request; and, when the
  server answers the request with a response aligned with it, what the operation returns.
  The four listing operations return the \<^verbatim>\<open>list\<close> field of the result at position 1 (the
  \<^verbatim>\<open>Email/get\<close> call), \<open>getThread\<close> after it has looked for the thread in \<^verbatim>\<open>notFound\<close> of
  the result at position 0 (\<^verbatim>\<open>Thread/get\<close>). \<open>sendEmail\<close> reads \<^verbatim>\<open>notCreated\<close> of the result
  at position 0 (\<^verbatim>\<open>Email/set\<close>), then \<^verbatim>\<open>notCreated\<close> of the result at position 1
  (\<^verbatim>\<open>EmailSubmission/set\<close>), and returns the id of the submission created there.
\<close>

theorem responses_read_at_call_positions:
  "call_names (getEmails_request s mb lim) = [''Email/query'', ''Email/get'']
   \<and> (getSession w st = (Inr s, st1)
        \<and> answered w st1 (apiUrl s) (getEmails_request s mb lim) r1
        \<and> aligned (getEmails_request s mb lim) r1
      \<longrightarrow> fst (getEmails w mb lim st) = Inr (field ''list'' (result_at r1 1))
          \<and> call_id_at r1 1 = JStr ''emails'')
   \<and> call_names (advancedSearch_request s filters) = [''Email/query'', ''Email/get'']
   \<and> (getSession w st = (Inr s, st1)
        \<and> answered w st1 (apiUrl s) (advancedSearch_request s filters) r2
        \<and> aligned (advancedSearch_request s filters) r2
      \<longrightarrow> fst (advancedSearch w filters st) = Inr (field ''list'' (result_at r2 1)))
   \<and> call_names (getRecentEmails_request s tid n) = [''Email/query'', ''Email/get'']
   \<and> (getSession w st = (Inr s, st1)
        \<and> getMailboxes w st1 = (Inr mailboxes, st2)
        \<and> array_find mailboxes
              (mailbox_named (toLowerCase (case mailboxName of None \<Rightarrow> ''inbox'' | Some x \<Rightarrow> x)))
            = Inr target
        \<and> truthy target
        \<and> answered w st2 (apiUrl s)
              (getRecentEmails_request s (field ''id'' target)
                 (case limit of None \<Rightarrow> 10 | Some x \<Rightarrow> x)) r3
        \<and> aligned (getRecentEmails_request s (field ''id'' target)
                 (case limit of None \<Rightarrow> 10 | Some x \<Rightarrow> x)) r3
      \<longrightarrow> fst (getRecentEmails w limit mailboxName st) = Inr (field ''list'' (result_at r3 1)))
   \<and> call_names (getThread_request s actual) = [''Thread/get'', ''Email/get'']
   \<and> (getSession w st = (Inr s, st1)
        \<and> resolve_thread_id w s threadId st1 = (Inr actual, st3)
        \<and> answered w st3 (apiUrl s) (getThread_request s actual) r4
        \<and> aligned (getThread_request s actual) r4
      \<longrightarrow> fst (getThread w threadId st)
          = (case (if truthy (field ''notFound'' (result_at r4 0))
                   then js_includes (field ''notFound'' (result_at r4 0)) actual
                   else Inr False) of
               Inl e \<Rightarrow> Inl e
             | Inr missing \<Rightarrow>
                 if missing
                 then Inl (Error (''Thread with ID '' @ [CHR 0x27] @ to_js_string actual
                                   @ [CHR 0x27] @ '' not found''))
                 else Inr (field ''list'' (result_at r4 1))))
   \<and> call_names (sendEmail_request s mail fromEmail identityId initialId sentId)
       = [''Email/set'', ''EmailSubmission/set'']
   \<and> (getSession w st = (Inr s, st1)
        \<and> getIdentities w st1 = (Inr identities, st4)
        \<and> truthy identities \<and> js_length identities \<noteq> JNum 0
        \<and> select_identity identities (e_from mail) = Inr selected
        \<and> get_prop selected ''email'' = Inr fromEmail
        \<and> getMailboxes w st4 = (Inr boxes, st5)
        \<and> find_mailbox boxes ''drafts'' ''draft'' = Inr drafts \<and> truthy drafts
        \<and> find_mailbox boxes ''sent'' ''sent'' = Inr sent \<and> truthy sent
        \<and> (given (e_textBody mail) \<or> given (e_htmlBody mail))
        \<and> answered w st5 (apiUrl s)
              (sendEmail_request s mail fromEmail (field ''id'' selected)
                 (to_js_string (if given (e_mailboxId mail) then JStr (the (e_mailboxId mail))
                                else field ''id'' drafts))
                 (to_js_string (field ''id'' sent))) r5
        \<and> aligned
              (sendEmail_request s mail fromEmail (field ''id'' selected)
                 (to_js_string (if given (e_mailboxId mail) then JStr (the (e_mailboxId mail))
                                else field ''id'' drafts))
                 (to_js_string (field ''id'' sent))) r5
      \<longrightarrow> fst (sendEmail w mail st)
          = (if truthy (field ''draft'' (field ''notCreated'' (result_at r5 0)))
             then Inl (Error ''Failed to create email. Please check inputs and try again.'')
             else if truthy (field ''submission'' (field ''notCreated'' (result_at r5 1)))
             then Inl (Error ''Failed to submit email. Please try again later.'')
             else Inr (if truthy (field ''id'' (field ''submission''
                                    (field ''created'' (result_at r5 1))))
                       then field ''id'' (field ''submission''
                                    (field ''created'' (result_at r5 1)))
                       else JStr ''unknown'')))"
proof -
  have n1: "call_names (getEmails_request s mb lim) = [''Email/query'', ''Email/get'']"
    by (simp add: call_names_def getEmails_request_def query_then_get_def)
  have n2: "call_names (advancedSearch_request s filters) = [''Email/query'', ''Email/get'']"
    by (simp add: call_names_def advancedSearch_request_def query_then_get_def)
  have n3: "call_names (getRecentEmails_request s tid n) = [''Email/query'', ''Email/get'']"
    by (simp add: call_names_def getRecentEmails_request_def query_then_get_def)
  have n4: "call_names (getThread_request s actual) = [''Thread/get'', ''Email/get'']"
    by (simp add: call_names_def getThread_request_def)
  have n5: "call_names (sendEmail_request s mail fromEmail identityId initialId sentId)
       = [''Email/set'', ''EmailSubmission/set'']"
    by (simp add: call_names_def sendEmail_request_def)
  have c1: "call_id_at r1 1 = JStr ''emails''"
    if "aligned (getEmails_request s mb lim) r1"
    using aligned_result(4)[OF that, of 1]
    by (simp add: getEmails_request_def query_then_get_def)
  show ?thesis
    by (intro conjI impI n1 n2 n3 n4 n5; (elim conjE)?)
       (erule (2) getEmails_aligned, erule c1, erule (2) advancedSearch_aligned,
        erule (5) getRecentEmails_aligned, erule (3) getThread_aligned,
        erule (13) sendEmail_aligned)
qed



theorem responses_read_at_call_positions_witness:
  "fst (getEmails demo_world None (Some 5) fresh_client)
     = Inr (JArr [JObj [(''id'', JStr ''M1''), (''subject'', JStr ''Hello''),
                        (''threadId'', JStr ''T1'')]])
   \<and> fst (advancedSearch demo_world no_filters fresh_client)
     = Inr (JArr [JObj [(''id'', JStr ''M1''), (''subject'', JStr ''Hello''),
                        (''threadId'', JStr ''T1'')]])
   \<and> fst (getRecentEmails demo_world None None fresh_client)
     = Inr (JArr [JObj [(''id'', JStr ''M1''), (''subject'', JStr ''Hello''),
                        (''threadId'', JStr ''T1'')]])
   \<and> fst (getThread demo_world ''M1'' fresh_client)
     = Inr (JArr [JObj [(''id'', JStr ''M1''), (''subject'', JStr ''Hello''),
                        (''threadId'', JStr ''T1'')]])
   \<and> fst (sendEmail demo_world demo_mail fresh_client) = Inr (JStr ''sub-1'')
   \<and> length (responses_of (demo_response
         (sendEmail_request demo_session demo_mail (JStr ''me@example.com'') (JStr ''id-1'')
            ''mb-drafts'' ''mb-sent''))) = 3"
proof -
  let ?st1 = "snd (getSession demo_world fresh_client)"
  let ?st2 = "snd (getMailboxes demo_world ?st1)"
  let ?st3 = "snd (resolve_thread_id demo_world demo_session ''M1'' ?st1)"
  let ?st4 = "snd (getIdentities demo_world ?st1)"
  let ?st5 = "snd (getMailboxes demo_world ?st4)"
  let ?q1 = "getEmails_request demo_session None (Some 5)"
  let ?q2 = "advancedSearch_request demo_session no_filters"
  let ?target = "JObj [(''id'', JStr ''mb-inbox''), (''name'', JStr ''Inbox''), (''role'', JStr ''inbox'')]"
  let ?q3 = "getRecentEmails_request demo_session (field ''id'' ?target) (case None of None \<Rightarrow> 10 | Some x \<Rightarrow> x)"
  let ?q4 = "getThread_request demo_session (JStr ''T1'')"
  let ?ident = "JObj [(''id'', JStr ''id-1''), (''email'', JStr ''me@example.com''),
                      (''mayDelete'', JBool False)]"
  let ?drafts = "JObj [(''id'', JStr ''mb-drafts''), (''name'', JStr ''Drafts''), (''role'', JStr ''drafts'')]"
  let ?sent = "JObj [(''id'', JStr ''mb-sent''), (''name'', JStr ''Sent''), (''role'', JStr ''sent'')]"
  let ?q5 = "sendEmail_request demo_session demo_mail (JStr ''me@example.com'')
               (field ''id'' ?ident)
               (to_js_string (if given (e_mailboxId demo_mail) then JStr (the (e_mailboxId demo_mail))
                              else field ''id'' ?drafts))
               (to_js_string (field ''id'' ?sent))"
  let ?q5' = "sendEmail_request demo_session demo_mail (JStr ''me@example.com'') (JStr ''id-1'')
            ''mb-drafts'' ''mb-sent''"
  have g: "getSession demo_world fresh_client = (Inr demo_session, ?st1)" by code_simp
  have a1: "answered demo_world ?st1 (apiUrl demo_session) ?q1 (demo_response ?q1)" by code_simp
  have al1: "aligned ?q1 (demo_response ?q1)" by code_simp
  have a2: "answered demo_world ?st1 (apiUrl demo_session) ?q2 (demo_response ?q2)" by code_simp
  have al2: "aligned ?q2 (demo_response ?q2)" by code_simp
  have mb: "getMailboxes demo_world ?st1 = (Inr demo_mailboxes, ?st2)" by code_simp
  have f: "array_find demo_mailboxes
              (mailbox_named (toLowerCase (case None of None \<Rightarrow> ''inbox'' | Some x \<Rightarrow> x)))
            = Inr ?target" by code_simp
  have t: "truthy ?target" by code_simp
  have a3: "answered demo_world ?st2 (apiUrl demo_session) ?q3 (demo_response ?q3)" by code_simp
  have al3: "aligned ?q3 (demo_response ?q3)" by code_simp
  have r: "resolve_thread_id demo_world demo_session ''M1'' ?st1 = (Inr (JStr ''T1''), ?st3)"
    by code_simp
  have a4: "answered demo_world ?st3 (apiUrl demo_session) ?q4 (demo_response ?q4)" by code_simp
  have al4: "aligned ?q4 (demo_response ?q4)" by code_simp
  have q5: "?q5 = ?q5'" by code_simp
  have i5: "getIdentities demo_world ?st1 = (Inr (JArr [?ident]), ?st4)" by code_simp
  have n5: "truthy (JArr [?ident])" "js_length (JArr [?ident]) \<noteq> JNum 0" by code_simp+
  have s5: "select_identity (JArr [?ident]) (e_from demo_mail) = Inr ?ident" by code_simp
  have e5: "get_prop ?ident ''email'' = Inr (JStr ''me@example.com'')" by code_simp
  have m5: "getMailboxes demo_world ?st4 = (Inr demo_mailboxes, ?st5)" by code_simp
  have d5: "find_mailbox demo_mailboxes ''drafts'' ''draft'' = Inr ?drafts" "truthy ?drafts"
    by code_simp+
  have t5: "find_mailbox demo_mailboxes ''sent'' ''sent'' = Inr ?sent" "truthy ?sent"
    by code_simp+
  have b5: "given (e_textBody demo_mail) \<or> given (e_htmlBody demo_mail)" by code_simp
  have a5: "answered demo_world ?st5 (apiUrl demo_session) ?q5 (demo_response ?q5)"
    unfolding q5 by code_simp
  have al5: "aligned ?q5 (demo_response ?q5)" unfolding q5 by code_simp
  have l5: "length (responses_of (demo_response ?q5')) = 3" by code_simp
  have v1: "field ''list'' (result_at (demo_response ?q1) 1)
      = JArr [JObj [(''id'', JStr ''M1''), (''subject'', JStr ''Hello''), (''threadId'', JStr ''T1'')]]"
    by code_simp
  have v2: "field ''list'' (result_at (demo_response ?q2) 1)
      = JArr [JObj [(''id'', JStr ''M1''), (''subject'', JStr ''Hello''), (''threadId'', JStr ''T1'')]]"
    by code_simp
  have v3: "field ''list'' (result_at (demo_response ?q3) 1)
      = JArr [JObj [(''id'', JStr ''M1''), (''subject'', JStr ''Hello''), (''threadId'', JStr ''T1'')]]"
    by code_simp
  have v4: "field ''list'' (result_at (demo_response ?q4) 1)
      = JArr [JObj [(''id'', JStr ''M1''), (''subject'', JStr ''Hello''), (''threadId'', JStr ''T1'')]]"
    "field ''notFound'' (result_at (demo_response ?q4) 0) = JArr []"
    by code_simp+
  have v5: "field ''notCreated'' (result_at (demo_response ?q5) 0) = JUndefined"
    "field ''notCreated'' (result_at (demo_response ?q5) 1) = JUndefined"
    "field ''id'' (field ''submission'' (field ''created'' (result_at (demo_response ?q5) 1)))
       = JStr ''sub-1''"
    unfolding q5 by code_simp+
  have fu: "field ''draft'' JUndefined = JUndefined" "field ''submission'' JUndefined = JUndefined"
    by code_simp+
  have tr: "\<not> truthy JUndefined" "truthy (JStr ''sub-1'')" "truthy (JArr [])"
    "js_includes (JArr []) (JStr ''T1'') = Inr False"
    by code_simp+
  note th = responses_read_at_call_positions
    [where s = demo_session and mb = None and lim = "Some 5" and w = demo_world
       and st = fresh_client and ?st1.0 = ?st1 and ?r1.0 = "demo_response ?q1"
       and filters = no_filters and ?r2.0 = "demo_response ?q2"
       and mailboxes = demo_mailboxes and ?st2.0 = ?st2 and mailboxName = None
       and target = ?target and limit = None and ?r3.0 = "demo_response ?q3"
       and actual = "JStr ''T1''" and threadId = "''M1''" and ?st3.0 = ?st3
       and ?r4.0 = "demo_response ?q4" and mail = demo_mail
       and fromEmail = "JStr ''me@example.com''" and identities = "JArr [?ident]"
       and ?st4.0 = ?st4 and selected = ?ident and boxes = demo_mailboxes and ?st5.0 = ?st5
       and drafts = ?drafts and sent = ?sent and ?r5.0 = "demo_response ?q5"]
  from th g a1 al1 have w1: "fst (getEmails demo_world None (Some 5) fresh_client)
     = Inr (field ''list'' (result_at (demo_response ?q1) 1))" by blast
  from th g a2 al2 have w2: "fst (advancedSearch demo_world no_filters fresh_client)
     = Inr (field ''list'' (result_at (demo_response ?q2) 1))" by blast
  from th g mb f t a3 al3 have w3: "fst (getRecentEmails demo_world None None fresh_client)
     = Inr (field ''list'' (result_at (demo_response ?q3) 1))" by blast
  from th g r a4 al4 have w4: "fst (getThread demo_world ''M1'' fresh_client)
          = (case (if truthy (field ''notFound'' (result_at (demo_response ?q4) 0))
                   then js_includes (field ''notFound'' (result_at (demo_response ?q4) 0)) (JStr ''T1'')
                   else Inr False) of
               Inl e \<Rightarrow> Inl e
             | Inr missing \<Rightarrow>
                 if missing
                 then Inl (Error (''Thread with ID '' @ [CHR 0x27] @ to_js_string (JStr ''T1'')
                                   @ [CHR 0x27] @ '' not found''))
                 else Inr (field ''list'' (result_at (demo_response ?q4) 1)))" by blast
  from th g i5 n5 s5 e5 m5 d5 t5 b5 a5 al5
  have w5: "fst (sendEmail demo_world demo_mail fresh_client)
          = (if truthy (field ''draft'' (field ''notCreated'' (result_at (demo_response ?q5) 0)))
             then Inl (Error ''Failed to create email. Please check inputs and try again.'')
             else if truthy (field ''submission'' (field ''notCreated'' (result_at (demo_response ?q5) 1)))
             then Inl (Error ''Failed to submit email. Please try again later.'')
             else Inr (if truthy (field ''id'' (field ''submission''
                                    (field ''created'' (result_at (demo_response ?q5) 1))))
                       then field ''id'' (field ''submission''
                                    (field ''created'' (result_at (demo_response ?q5) 1)))
                       else JStr ''unknown''))" by blast
  show ?thesis
    unfolding w1 w2 w3 w4 w5 v1 v2 v3 v4 v5 fu l5
    by (simp only: tr if_True if_False sum.case simp_thms)
qed

section \<open>Properties of the CalDAV client\<close>

lemma parse_objects_acc:
  "parse_objects objects acc = acc @ List.map_filter (\<lambda>obj. parseICS (obj_data obj)) objects"
  by (induction objects arbitrary: acc) (simp_all add: List.map_filter_simps split: option.splits)

lemma fetch_all_merge:
  "fetch_all w tr k cs acc = Inr r \<Longrightarrow>
     \<exists>objss. length objss = length cs
        \<and> (\<forall>i<length cs. cw_fetchCalendarObjects w (k + i) (cs ! i) tr = Inr (objss ! i))
        \<and> r = acc @ concat (map (List.map_filter (\<lambda>obj. parseICS (obj_data obj))) objss)"
proof (induction cs arbitrary: k acc)
  case Nil
  then show ?case by simp
next
  case (Cons c cs)
  from Cons.prems obtain objects where
    o: "cw_fetchCalendarObjects w k c tr = Inr objects"
    and rest: "fetch_all w tr (Suc k) cs (parse_objects objects acc) = Inr r"
    by (auto split: sum.splits)
  from Cons.IH[OF rest] obtain objss where
    l: "length objss = length cs"
    and f: "\<forall>i<length cs. cw_fetchCalendarObjects w (Suc k + i) (cs ! i) tr = Inr (objss ! i)"
    and r: "r = parse_objects objects acc
               @ concat (map (List.map_filter (\<lambda>obj. parseICS (obj_data obj))) objss)"
    by blast
  have "\<forall>i<length (c # cs). cw_fetchCalendarObjects w (k + i) ((c # cs) ! i) tr
          = Inr ((objects # objss) ! i)"
  proof (intro allI impI)
    fix i assume "i < length (c # cs)"
    then show "cw_fetchCalendarObjects w (k + i) ((c # cs) ! i) tr = Inr ((objects # objss) ! i)"
      using o f by (cases i) auto
  qed
  moreover have "r = acc @ concat (map (List.map_filter (\<lambda>obj. parseICS (obj_data obj)))
                                     (objects # objss))"
    using r by (simp add: parse_objects_acc)
  moreover have "length (objects # objss) = length (c # cs)" using l by simp
  ultimately show ?case by blast
qed

lemma take_sorted_split:
  fixes t :: "'a \<Rightarrow> int"
  shows "sorted (map t (take n (sort_key t xs)))
     \<and> (\<exists>rest. mset xs = mset (take n (sort_key t xs)) + mset rest
           \<and> (\<forall>a\<in>set (take n (sort_key t xs)). \<forall>b\<in>set rest. t a \<le> t b))"
proof -
  let ?s = "sort_key t xs"
  have srt: "sorted (map t ?s)" by simp
  have "sorted (map t (take n ?s @ drop n ?s))" using srt by simp
  then have ab: "\<forall>a\<in>set (take n ?s). \<forall>b\<in>set (drop n ?s). t a \<le> t b"
    unfolding map_append sorted_append by auto
  have m: "mset xs = mset (take n ?s) + mset (drop n ?s)"
    by (metis append_take_drop_id mset_append mset_sort)
  have "sorted (map t (take n ?s))"
    using srt by (simp add: take_map[symmetric] sorted_wrt_take)
  with ab m show ?thesis by blast
qed

lemma getCalendarEvents_run:
  assumes "getCalendarEvents w calendarId limit startDate endDate st = (Inr events, st')"
  shows "\<exists>calendars allEvents.
       cw_fetchCalendars w = Inr calendars
     \<and> target_calendars calendarId calendars \<noteq> []
     \<and> fetch_all w (time_range startDate endDate) 0 (target_calendars calendarId calendars) []
         = Inr allEvents
     \<and> events = js_slice0 (case limit of None \<Rightarrow> 50 | Some n \<Rightarrow> n)
                  (cw_sort w (compare_start (cw_date w)) allEvents)"
proof -
  obtain r0 st0 where g: "getClient w st = (r0, st0)" by (cases "getClient w st")
  from assms g obtain u where r0: "r0 = Inr u"
    by (cases r0) (simp_all add: getCalendarEvents_def Let_def bnd_def)
  from assms g r0 obtain calendars where c: "cw_fetchCalendars w = Inr calendars"
    by (cases "cw_fetchCalendars w") (simp_all add: getCalendarEvents_def Let_def bnd_def lift_def)
  let ?target = "target_calendars calendarId calendars"
  from assms g r0 c have ne: "?target \<noteq> []"
    by (auto simp: getCalendarEvents_def Let_def bnd_def lift_def throw_def)
  from assms g r0 c ne obtain allEvents where
    f: "fetch_all w (time_range startDate endDate) 0 ?target [] = Inr allEvents"
    by (cases "fetch_all w (time_range startDate endDate) 0 ?target []")
       (simp_all add: getCalendarEvents_def Let_def bnd_def lift_def)
  from assms g r0 c ne f have
    "events = js_slice0 (case limit of None \<Rightarrow> 50 | Some n \<Rightarrow> n)
                  (cw_sort w (compare_start (cw_date w)) allEvents)"
    by (simp add: getCalendarEvents_def Let_def bnd_def lift_def ret_def)
  with c ne f show ?thesis by blast
qed

text \<open>
  What the code does when every start is a date, on an engine whose \<^verbatim>\<open>sort\<close> is the stable
  sort that the language asks for under a consistent comparator: a call that returns
  gives \<^verbatim>\<open>slice(0, limit)\<close> of the sorted merge of the events parsed from every targeted
  calendar. The result is in ascending order of start time and no event left out starts
  before a returned one; for a limit that is not negative it is the first \<open>limit\<close> events
  of the sorted merge, and for a negative limit the sorted merge without its last
  \<open>- limit\<close> events.
\<close>

lemma getCalendarEvents_sorted_then_limited:
  assumes run: "getCalendarEvents w calendarId limit startDate endDate st = (Inr events, st')"
    and engine: "\<And>xs. \<forall>e\<in>set xs. cw_date w (start e) \<noteq> None \<Longrightarrow>
                   cw_sort w (compare_start (cw_date w)) xs
                     = sort_key (start_time (cw_date w)) xs"
  shows "\<exists>calendars objss allEvents.
       cw_fetchCalendars w = Inr calendars
     \<and> length objss = length (target_calendars calendarId calendars)
     \<and> (\<forall>i<length (target_calendars calendarId calendars).
           cw_fetchCalendarObjects w i (target_calendars calendarId calendars ! i)
             (time_range startDate endDate) = Inr (objss ! i))
     \<and> allEvents = concat (map (List.map_filter (\<lambda>obj. parseICS (obj_data obj))) objss)
     \<and> events = js_slice0 (case limit of None \<Rightarrow> 50 | Some n \<Rightarrow> n)
                  (cw_sort w (compare_start (cw_date w)) allEvents)
     \<and> ((\<forall>e\<in>set allEvents. cw_date w (start e) \<noteq> None) \<longrightarrow>
           sorted (map (start_time (cw_date w)) events)
         \<and> (\<exists>rest. mset allEvents = mset events + mset rest
               \<and> (\<forall>a\<in>set events. \<forall>b\<in>set rest.
                     start_time (cw_date w) a \<le> start_time (cw_date w) b))
         \<and> (0 \<le> (case limit of None \<Rightarrow> 50 | Some n \<Rightarrow> n) \<longrightarrow>
               events = take (nat (case limit of None \<Rightarrow> 50 | Some n \<Rightarrow> n))
                          (sort_key (start_time (cw_date w)) allEvents)
               \<and> int (length events) \<le> (case limit of None \<Rightarrow> 50 | Some n \<Rightarrow> n))
         \<and> ((case limit of None \<Rightarrow> 50 | Some n \<Rightarrow> n) < 0 \<longrightarrow>
               events = take (length allEvents - nat (- (case limit of None \<Rightarrow> 50 | Some n \<Rightarrow> n)))
                          (sort_key (start_time (cw_date w)) allEvents)))"
proof -
  let ?lim = "case limit of None \<Rightarrow> 50 | Some n \<Rightarrow> n"
  let ?t = "start_time (cw_date w)"
  from getCalendarEvents_run[OF run] obtain calendars allEvents where
    c: "cw_fetchCalendars w = Inr calendars"
    and f: "fetch_all w (time_range startDate endDate) 0 (target_calendars calendarId calendars) []
              = Inr allEvents"
    and ev: "events = js_slice0 ?lim (cw_sort w (compare_start (cw_date w)) allEvents)"
    by blast
  let ?target = "target_calendars calendarId calendars"
  from fetch_all_merge[OF f] obtain objss where
    l: "length objss = length ?target"
    and o: "\<forall>i<length ?target. cw_fetchCalendarObjects w i (?target ! i)
               (time_range startDate endDate) = Inr (objss ! i)"
    and a: "allEvents = concat (map (List.map_filter (\<lambda>obj. parseICS (obj_data obj))) objss)"
    by auto
  have v: "sorted (map ?t events)
         \<and> (\<exists>rest. mset allEvents = mset events + mset rest
               \<and> (\<forall>a\<in>set events. \<forall>b\<in>set rest. ?t a \<le> ?t b))
         \<and> (0 \<le> ?lim \<longrightarrow> events = take (nat ?lim) (sort_key ?t allEvents)
               \<and> int (length events) \<le> ?lim)
         \<and> (?lim < 0 \<longrightarrow> events = take (length allEvents - nat (- ?lim)) (sort_key ?t allEvents))"
    if valid: "\<forall>e\<in>set allEvents. cw_date w (start e) \<noteq> None"
  proof -
    have s: "cw_sort w (compare_start (cw_date w)) allEvents = sort_key ?t allEvents"
      using valid by (rule engine)
    have p: "0 \<le> ?lim \<Longrightarrow> events = take (nat ?lim) (sort_key ?t allEvents)"
      unfolding ev s by (simp add: js_slice0_def)
    have n: "?lim < 0 \<Longrightarrow> events = take (length allEvents - nat (- ?lim)) (sort_key ?t allEvents)"
    proof -
      assume neg: "?lim < 0"
      then have "nat (int (length allEvents) + ?lim) = length allEvents - nat (- ?lim)" by arith
      with neg show ?thesis unfolding ev s by (simp add: js_slice0_def)
    qed
    obtain k where k: "events = take k (sort_key ?t allEvents)"
      using p n by (cases "0 \<le> ?lim") auto
    have len: "0 \<le> ?lim \<Longrightarrow> int (length events) \<le> ?lim"
    proof -
      assume nn: "0 \<le> ?lim"
      have "length (take (nat ?lim) (sort_key ?t allEvents)) \<le> nat ?lim" by simp
      with p[OF nn] have "length events \<le> nat ?lim" by simp
      with nn show ?thesis by linarith
    qed
    from take_sorted_split[of ?t k allEvents] p n len show ?thesis unfolding k[symmetric] by blast
  qed
  from c l o a ev v show ?thesis by blast
qed

text \<open>
  On V8, two calendars of three events whose starts are dates, with a limit of 2: the
  two earliest events, in order.
\<close>

lemma getCalendarEvents_sorted_example:
  "map id' (events_of (fst (getCalendarEvents
        (demo_caldav [demo_ics ''a'' ''20260301T090000Z'', demo_ics ''b'' ''20260101T090000Z'']
                     [demo_ics ''c'' ''20260201T090000Z''])
        None (Some 2) None None \<lparr>dav_client = False\<rparr>)))
     = [''b'', ''c'']"
  by code_simp

text \<open>
  C10. The events returned by \<open>getCalendarEvents\<close> are in ascending order of start time,
  and the limit gives the earliest events of all targeted calendars. The code does not
  do so when the start of an event is no date. \<open>parseICS\<close> gives an event without
  \<^verbatim>\<open>DTSTART\<close> the empty string as start, which is no date, so the comparator is \<^verbatim>\<open>NaN\<close> on
  every pair with this event. On V8 the three events of the calendar below, the one of
  February, the one without a start and the one of January, are one ascending run and
  come back as they were fetched: February before January. With a limit of 1 the call
  returns the event of February, and not the earlier one of January.
\<close>

theorem getCalendarEvents_missing_start_unsorted:
  "map id' (events_of (fst (getCalendarEvents
        (demo_caldav [demo_ics ''a'' ''20260201T090000Z'', demo_ics ''b'' [],
                      demo_ics ''c'' ''20260101T090000Z''] [])
        (Some ''Work'') None None None \<lparr>dav_client = False\<rparr>)))
     = [''a'', ''b'', ''c'']
   \<and> map start (events_of (fst (getCalendarEvents
        (demo_caldav [demo_ics ''a'' ''20260201T090000Z'', demo_ics ''b'' [],
                      demo_ics ''c'' ''20260101T090000Z''] [])
        (Some ''Work'') None None None \<lparr>dav_client = False\<rparr>)))
     = [''2026-02-01T09:00:00Z'', [], ''2026-01-01T09:00:00Z'']
   \<and> demo_date ''2026-02-01T09:00:00Z'' = Some 1769936400000
   \<and> demo_date [] = None
   \<and> demo_date ''2026-01-01T09:00:00Z'' = Some 1767258000000
   \<and> map id' (events_of (fst (getCalendarEvents
        (demo_caldav [demo_ics ''a'' ''20260201T090000Z'', demo_ics ''b'' [],
                      demo_ics ''c'' ''20260101T090000Z''] [])
        (Some ''Work'') (Some 1) None None \<lparr>dav_client = False\<rparr>)))
     = [''a'']"
  by code_simp

text \<open>
  The order depends on where the event without a start stands. Fetched as February,
  January, no start, January, the events come back as the two of January, the one of
  February, the one without a start.
\<close>

lemma getCalendarEvents_missing_start_example:
  "map id' (events_of (fst (getCalendarEvents
        (demo_caldav [demo_ics ''a'' ''20260201T090000Z'', demo_ics ''b'' ''20260101T090000Z'',
                      demo_ics ''c'' [], demo_ics ''d'' ''20260101T090000Z''] [])
        (Some ''Work'') None None None \<lparr>dav_client = False\<rparr>)))
     = [''b'', ''d'', ''a'', ''c'']"
  by code_simp

section \<open>Properties of the tool dispatcher\<close>

subsection \<open>Validation before the backend\<close>

text \<open>
  C6. A \<open>send_email\<close> invocation whose arguments have neither a \<open>textBody\<close> nor an
  \<open>htmlBody\<close> (or have them empty) fails before any method of a client is called: the
  log of calls and the backend are as before, only the client may have been made. The
  error is the one of the first check that fails. The handler makes the client first, so
  without an API token the error is an invalid request; it then reads the arguments, so
  without an arguments object it is the \<^verbatim>\<open>TypeError\<close> of the destructuring, wrapped as an
  internal error; in every other case it is an invalid-params error: of the recipients,
  of the subject, or of the body.
\<close>

theorem send_email_body_checked_before_backend:
  assumes "\<not> truthy (arg args ''textBody'')" and "\<not> truthy (arg args ''htmlBody'')"
  shows "call_tool e ex ''send_email'' args srv =
           (if \<not> jmapClient srv \<and> \<not> given (api_token e)
            then (Inl (McpError InvalidRequest
                        ''FASTMAIL_API_TOKEN environment variable is required''), srv)
            else if args = JUndefined \<or> args = JNull
            then (Inl (McpError InternalError
                    (''Tool execution failed: '' @ message_of (cannot_destructure ''to'' args))),
                  srv\<lparr>jmapClient := True\<rparr>)
            else (Inl (McpError InvalidParams
                    (if no_items (arg args ''to'')
                     then ''to field is required and must be a non-empty array''
                     else if \<not> truthy (arg args ''subject'') then ''subject is required''
                     else ''Either textBody or htmlBody is required'')),
                  srv\<lparr>jmapClient := True\<rparr>))"
  using assms
  by (simp add: call_tool_def tool_body_def send_email_def bnd_def catch_def
      initializeClient_def destructure_def invalid_params_def throw_def ret_def wrap_error_def
      cannot_destructure_def)

theorem send_email_body_checked_before_backend_witness:
  "call_tool demo_env demo_exec ''send_email''
     (JObj [(''to'', JArr [JStr ''you@example.com'']), (''subject'', JStr ''Hi'')]) fresh_server
   = (Inl (McpError InvalidParams ''Either textBody or htmlBody is required''),
      fresh_server\<lparr>jmapClient := True\<rparr>)"
  using send_email_body_checked_before_backend
    [of "JObj [(''to'', JArr [JStr ''you@example.com'']), (''subject'', JStr ''Hi'')]"
        demo_env demo_exec fresh_server]
  by (simp add: arg_def field_def opt_prop_def truthy_def no_items_def is_array_def js_length_def
      demo_env_def given_def fresh_server_def)

text \<open>Without an API token the same invocation fails with an invalid request.\<close>

theorem send_email_without_token_is_invalid_request:
  "call_tool no_token_env demo_exec ''send_email''
     (JObj [(''to'', JArr [JStr ''you@example.com'']), (''subject'', JStr ''Hi'')]) fresh_server
   = (Inl (McpError InvalidRequest ''FASTMAIL_API_TOKEN environment variable is required''),
      fresh_server)"
  by (simp add: call_tool_def tool_body_def send_email_def bnd_def catch_def
      initializeClient_def wrap_error_def throw_def no_token_env_def given_def fresh_server_def)

text \<open>
  The method \<open>sendEmail\<close> of the client has a check of the body of its own, which it
  reaches after the session, the identities and the mailboxes have been requested.
\<close>

lemma sendEmail_checks_body_after_requests:
  "fst (sendEmail demo_world (demo_mail\<lparr>e_textBody := None\<rparr>) fresh_client)
     = Inl (Error ''Either textBody or htmlBody must be provided'')
   \<and> map (\<lambda>ev. case ev of SessionGet \<Rightarrow> [] | ApiPost u r \<Rightarrow> call_names r)
         (run_events (sendEmail demo_world (demo_mail\<lparr>e_textBody := None\<rparr>)) fresh_client)
     = [[], [''Identity/get''], [''Mailbox/get'']]"
  by code_simp

subsection \<open>Bulk operations\<close>

lemma map_of_replace:
  "map_of (map (\<lambda>(k', v'). if k' = k then (k, v) else (k', v')) kvs) x
     = (if x = k \<and> map_of kvs k \<noteq> None then Some v else map_of kvs x)"
  by (induction kvs) auto

lemma map_of_insert_key:
  "k \<notin> set (map fst kvs) \<Longrightarrow> map_of (insert_key k v kvs) = (map_of kvs)(k \<mapsto> v)"
  by (induction kvs) (auto simp: fun_eq_iff)

lemma map_of_obj_set:
  "map_of (obj_set k v kvs)
     = (if map_of kvs k \<noteq> None \<or> k \<noteq> ''__proto__'' then (map_of kvs)(k \<mapsto> v)
        else map_of kvs)"
proof -
  have "(k \<in> set (map fst kvs)) = (map_of kvs k \<noteq> None)"
    by (simp add: map_of_eq_None_iff)
  then show ?thesis
    using map_of_insert_key[of k kvs v]
    by (auto simp: obj_set_def map_of_replace fun_eq_iff)
qed

lemma map_of_obj_set_at:
  "map_of (obj_set i v kvs) k
     = (if k = i \<and> (map_of kvs i \<noteq> None \<or> i \<noteq> ''__proto__'') then Some v
        else map_of kvs k)"
  by (cases "map_of kvs i") (simp_all add: map_of_obj_set)

lemma map_of_foldl_obj_set:
  "map_of (foldl (\<lambda>updates i. obj_set i patch updates) acc ids) k
     = (if k \<in> set ids \<and> (k \<noteq> ''__proto__'' \<or> map_of acc k \<noteq> None) then Some patch
        else map_of acc k)"
proof (induction ids arbitrary: acc)
  case Nil
  then show ?case by simp
next
  case (Cons i ids)
  have "map_of (foldl (\<lambda>updates i. obj_set i patch updates) acc (i # ids)) k
        = map_of (foldl (\<lambda>updates i. obj_set i patch updates) (obj_set i patch acc) ids) k"
    by simp
  also have "\<dots> = (if k \<in> set ids
                        \<and> (k \<noteq> ''__proto__'' \<or> map_of (obj_set i patch acc) k \<noteq> None)
                     then Some patch else map_of (obj_set i patch acc) k)"
    by (rule Cons.IH)
  also have "\<dots> = (if k \<in> set (i # ids) \<and> (k \<noteq> ''__proto__'' \<or> map_of acc k \<noteq> None)
                     then Some patch else map_of acc k)"
    unfolding map_of_obj_set_at by (cases "k = i"; cases "k = ''__proto__''"; cases "map_of acc k") simp_all
  finally show ?case .
qed

lemma bulk_updates_map_of:
  "map_of (bulk_updates ids patch) k
     = (if k \<in> set ids \<and> k \<noteq> ''__proto__'' then Some patch else None)"
  by (simp add: bulk_updates_def map_of_foldl_obj_set)

text \<open>
  The keys of the update map come in the order of JavaScript, and the id \<^verbatim>\<open>__proto__\<close>
  gets no entry.
\<close>

lemma bulk_updates_examples:
  "bulk_updates [''M2'', ''10'', ''M1'', ''9''] patch
     = [(''9'', patch), (''10'', patch), (''M2'', patch), (''M1'', patch)]"
  "bulk_updates [''M1'', ''__proto__'', ''M2''] patch = [(''M1'', patch), (''M2'', patch)]"
  by (simp_all add: bulk_updates_def obj_set_def goes_before_def array_index_def number_of_def
      is_digit_def)


lemma appending_check_notUpdated [simp]: "appending (check_notUpdated msg response)"
  by (simp add: check_notUpdated_def)

lemma events_check_notUpdated [simp]: "run_events (check_notUpdated msg response) st = []"
  by (simp add: check_notUpdated_def run_events_def new_events_def bnd_def lift_def throw_def
      ret_def split: sum.splits)

lemma request_calls_bulk_request:
  "request_calls ''Email/set'' (bulk_request s updates cid)
     = [JObj [(''accountId'', accountId s), (''update'', JObj updates)]]"
  by (simp add: request_calls_def bulk_request_def)

lemma bulkMarkRead_set_calls:
  "calls_named ''Email/set'' (run_events (bulkMarkRead w ids read) st)
     = (case fst (getSession w st) of
          Inl err \<Rightarrow> []
        | Inr s \<Rightarrow>
            [JObj [(''accountId'', accountId s),
                   (''update'',
                    JObj (bulk_updates ids
                            (JObj [(''keywords'',
                                    if read then JObj [(''$seen'', JBool True)] else JObj [])])))]])"
proof (cases "getSession w st")
  case (Pair r st1)
  show ?thesis
  proof (cases r)
    case (Inl err)
    with Pair show ?thesis by (simp add: bulkMarkRead_def events_bnd Let_def)
  next
    case (Inr s)
    with Pair have "session st1 = Some s" by (auto dest: getSession_cases)
    with Pair Inr show ?thesis
      by (simp add: bulkMarkRead_def events_bnd Let_def calls_named_makeRequest getSession_memo
          request_calls_bulk_request split: prod.splits sum.splits)
  qed
qed

lemma bulkMove_set_calls:
  "calls_named ''Email/set'' (run_events (bulkMove w ids target) st)
     = (case fst (getSession w st) of
          Inl err \<Rightarrow> []
        | Inr s \<Rightarrow>
            [JObj [(''accountId'', accountId s),
                   (''update'',
                    JObj (bulk_updates ids
                            (JObj [(''mailboxIds'', JObj (obj_set target (JBool True) []))])))]])"
proof (cases "getSession w st")
  case (Pair r st1)
  show ?thesis
  proof (cases r)
    case (Inl err)
    with Pair show ?thesis by (simp add: bulkMove_def events_bnd Let_def)
  next
    case (Inr s)
    with Pair have "session st1 = Some s" by (auto dest: getSession_cases)
    with Pair Inr show ?thesis
      by (simp add: bulkMove_def events_bnd Let_def calls_named_makeRequest getSession_memo
          request_calls_bulk_request split: prod.splits sum.splits)
  qed
qed


lemma bulkDelete_set_calls:
  "calls_named ''Email/set'' (run_events (bulkDelete w ids) st)
     = (case getSession w st of
          (Inl err, st1) \<Rightarrow> []
        | (Inr s, st1) \<Rightarrow>
            (case getMailboxes w st1 of
               (Inl err, st2) \<Rightarrow> []
             | (Inr mailboxes, st2) \<Rightarrow>
                 (case find_mailbox mailboxes ''trash'' ''trash'' of
                    Inl err \<Rightarrow> []
                  | Inr trashMailbox \<Rightarrow>
                      if \<not> truthy trashMailbox then []
                      else [JObj [(''accountId'', accountId s),
                                  (''update'',
                                   JObj (bulk_updates ids
                                     (JObj [(''mailboxIds'',
                                             JObj (obj_set (to_js_string (field ''id'' trashMailbox))
                                                     (JBool True) []))])))]])))"
proof (cases "getSession w st")
  case g: (Pair r st1)
  show ?thesis
  proof (cases r)
    case (Inl err)
    with g show ?thesis by (simp add: bulkDelete_def events_bnd)
  next
    case (Inr s)
    with g have s1: "session st1 = Some s" by (auto dest: getSession_cases)
    obtain r2 st2 where mb: "getMailboxes w st1 = (r2, st2)" by (cases "getMailboxes w st1")
    have s2: "session st2 = Some s" using getMailboxes_session[OF s1, of w] mb by simp
    have ev: "run_events (bulkDelete w ids) st
       = run_events (getSession w) st @ run_events (getMailboxes w) st1 @
         (case r2 of Inl err \<Rightarrow> []
          | Inr mailboxes \<Rightarrow>
              (case find_mailbox mailboxes ''trash'' ''trash'' of
                 Inl err \<Rightarrow> []
               | Inr trashMailbox \<Rightarrow>
                   if \<not> truthy trashMailbox then []
                   else run_events (makeRequest w (bulk_request s
                          (bulk_updates ids
                             (JObj [(''mailboxIds'',
                                     JObj (obj_set (to_js_string (field ''id'' trashMailbox))
                                             (JBool True) []))]))
                          ''bulkDelete'')) st2))"
      using g Inr mb
      by (simp add: bulkDelete_def events_bnd Let_def get_prop_truthy lift_def
          split: sum.splits prod.splits)
    show ?thesis
      unfolding ev using g Inr mb s2
      by (simp add: calls_named_getMailboxes events_makeRequest_known request_calls_bulk_request
          split: sum.splits)
  qed
qed


lemma bulk_tools_empty:
  assumes "arg args ''emailIds'' = JArr []"
    and "nm = ''bulk_mark_read'' \<or> nm = ''bulk_move'' \<or> nm = ''bulk_delete''"
  shows "call_tool e ex nm args srv =
           (if \<not> jmapClient srv \<and> \<not> given (api_token e)
            then (Inl (McpError InvalidRequest
                        ''FASTMAIL_API_TOKEN environment variable is required''), srv)
            else (Inl (McpError InvalidParams
                        ''emailIds array is required and must not be empty''),
                  srv\<lparr>jmapClient := True\<rparr>))"
proof -
  from assms(1) have "args \<noteq> JUndefined" "args \<noteq> JNull"
    by (auto simp: arg_def field_def opt_prop_def)
  moreover from assms(1) have "no_items (arg args ''emailIds'')"
    by (simp add: no_items_def js_length_def)
  ultimately show ?thesis using assms(2)
    by (auto simp: call_tool_def tool_body_def bulk_mark_read_def bulk_move_def bulk_delete_def
        bnd_def catch_def initializeClient_def destructure_def invalid_params_def throw_def
        ret_def wrap_error_def)
qed

lemma bulk_tools_nonempty:
  assumes ids: "arg args ''emailIds'' = JArr (i # rest)"
    and av: "jmapClient srv \<or> given (api_token e)"
  shows "map fst (new_calls srv (snd (call_tool e ex ''bulk_mark_read'' args srv)))
           = [Jmap ''bulkMarkRead'' [JArr (i # rest), arg_default args ''read'' (JBool True)]]"
    and "map fst (new_calls srv (snd (call_tool e ex ''bulk_delete'' args srv)))
           = [Jmap ''bulkDelete'' [JArr (i # rest)]]"
    and "truthy (arg args ''targetMailboxId'') \<Longrightarrow>
         map fst (new_calls srv (snd (call_tool e ex ''bulk_move'' args srv)))
           = [Jmap ''bulkMove'' [JArr (i # rest), arg args ''targetMailboxId'']]"
    and "\<not> truthy (arg args ''targetMailboxId'') \<Longrightarrow>
         call_tool e ex ''bulk_move'' args srv
           = (Inl (McpError InvalidParams ''targetMailboxId is required''),
              srv\<lparr>jmapClient := True\<rparr>)"
proof -
  from ids have a: "args \<noteq> JUndefined" "args \<noteq> JNull"
    by (auto simp: arg_def field_def opt_prop_def)
  from ids have n: "\<not> no_items (arg args ''emailIds'')"
    by (simp add: no_items_def js_length_def truthy_def is_array_def)
  show "map fst (new_calls srv (snd (call_tool e ex ''bulk_mark_read'' args srv)))
           = [Jmap ''bulkMarkRead'' [JArr (i # rest), arg_default args ''read'' (JBool True)]]"
    using a n av ids
    by (auto simp: call_tool_def tool_body_def bulk_mark_read_def
        bnd_def catch_def initializeClient_def destructure_def throw_def
        ret_def wrap_error_def call_def new_calls_def split: prod.splits sum.splits js_error.splits)
  show "map fst (new_calls srv (snd (call_tool e ex ''bulk_delete'' args srv)))
           = [Jmap ''bulkDelete'' [JArr (i # rest)]]"
    using a n av ids
    by (auto simp: call_tool_def tool_body_def bulk_delete_def
        bnd_def catch_def initializeClient_def destructure_def throw_def
        ret_def wrap_error_def call_def new_calls_def split: prod.splits sum.splits js_error.splits)
  show "truthy (arg args ''targetMailboxId'') \<Longrightarrow>
         map fst (new_calls srv (snd (call_tool e ex ''bulk_move'' args srv)))
           = [Jmap ''bulkMove'' [JArr (i # rest), arg args ''targetMailboxId'']]"
    using a n av ids
    by (auto simp: call_tool_def tool_body_def bulk_move_def
        bnd_def catch_def initializeClient_def destructure_def throw_def
        ret_def wrap_error_def call_def new_calls_def split: prod.splits sum.splits js_error.splits)
  show "\<not> truthy (arg args ''targetMailboxId'') \<Longrightarrow>
         call_tool e ex ''bulk_move'' args srv
           = (Inl (McpError InvalidParams ''targetMailboxId is required''),
              srv\<lparr>jmapClient := True\<rparr>)"
    using a n av
    by (auto simp: call_tool_def tool_body_def bulk_move_def
        bnd_def catch_def initializeClient_def destructure_def invalid_params_def throw_def
        ret_def wrap_error_def)
qed

text \<open>
  C7. The three bulk tools. With an empty array of ids the invocation fails before any
  method of a client is called, with an invalid-params error (with an invalid request
  when there is no API token). With a non-empty array, and a client, \<open>bulk_mark_read\<close>
  and \<open>bulk_delete\<close> call the bulk method of the client exactly once, with the array;
  \<open>bulk_move\<close> does so when it is given a target mailbox, and fails with an invalid-params
  error before any call when it is not. The methods of the client:
  \<open>bulkMarkRead\<close> and \<open>bulkMove\<close> send exactly one \<^verbatim>\<open>Email/set\<close> call once they have the
  session, and none without it; \<open>bulkDelete\<close> sends exactly one once it has the session,
  the mailboxes and a Trash mailbox among them, and none otherwise. The update map of
  the call has the ids of the array as its keys, each with the same patch: the keywords,
  or the one mailbox. The id \<^verbatim>\<open>__proto__\<close> is the exception: the assignment
  \<^verbatim>\<open>updates[id] = patch\<close> stores nothing under it, and it is no key of the map.
\<close>

theorem bulk_operations_batched:
  "(arg empty_args ''emailIds'' = JArr []
      \<and> (nm = ''bulk_mark_read'' \<or> nm = ''bulk_move'' \<or> nm = ''bulk_delete'') \<longrightarrow>
      call_tool e ex nm empty_args srv =
        (if \<not> jmapClient srv \<and> \<not> given (api_token e)
         then (Inl (McpError InvalidRequest
                     ''FASTMAIL_API_TOKEN environment variable is required''), srv)
         else (Inl (McpError InvalidParams
                     ''emailIds array is required and must not be empty''),
               srv\<lparr>jmapClient := True\<rparr>)))
   \<and> (arg args ''emailIds'' = JArr (i # rest) \<and> (jmapClient srv \<or> given (api_token e)) \<longrightarrow>
        map fst (new_calls srv (snd (call_tool e ex ''bulk_mark_read'' args srv)))
          = [Jmap ''bulkMarkRead'' [JArr (i # rest), arg_default args ''read'' (JBool True)]]
        \<and> map fst (new_calls srv (snd (call_tool e ex ''bulk_delete'' args srv)))
          = [Jmap ''bulkDelete'' [JArr (i # rest)]]
        \<and> (truthy (arg args ''targetMailboxId'') \<longrightarrow>
             map fst (new_calls srv (snd (call_tool e ex ''bulk_move'' args srv)))
               = [Jmap ''bulkMove'' [JArr (i # rest), arg args ''targetMailboxId'']])
        \<and> (\<not> truthy (arg args ''targetMailboxId'') \<longrightarrow>
             call_tool e ex ''bulk_move'' args srv
               = (Inl (McpError InvalidParams ''targetMailboxId is required''),
                  srv\<lparr>jmapClient := True\<rparr>)))
   \<and> calls_named ''Email/set'' (run_events (bulkMarkRead w ids read) st)
       = (case fst (getSession w st) of
            Inl err \<Rightarrow> []
          | Inr s \<Rightarrow>
              [JObj [(''accountId'', accountId s),
                     (''update'',
                      JObj (bulk_updates ids
                              (JObj [(''keywords'',
                                      if read then JObj [(''$seen'', JBool True)]
                                      else JObj [])])))]])
   \<and> calls_named ''Email/set'' (run_events (bulkMove w ids target) st)
       = (case fst (getSession w st) of
            Inl err \<Rightarrow> []
          | Inr s \<Rightarrow>
              [JObj [(''accountId'', accountId s),
                     (''update'',
                      JObj (bulk_updates ids
                              (JObj [(''mailboxIds'',
                                      JObj (obj_set target (JBool True) []))])))]])
   \<and> calls_named ''Email/set'' (run_events (bulkDelete w ids) st)
       = (case getSession w st of
            (Inl err, st1) \<Rightarrow> []
          | (Inr s, st1) \<Rightarrow>
              (case getMailboxes w st1 of
                 (Inl err, st2) \<Rightarrow> []
               | (Inr mailboxes, st2) \<Rightarrow>
                   (case find_mailbox mailboxes ''trash'' ''trash'' of
                      Inl err \<Rightarrow> []
                    | Inr trashMailbox \<Rightarrow>
                        if \<not> truthy trashMailbox then []
                        else [JObj [(''accountId'', accountId s),
                                    (''update'',
                                     JObj (bulk_updates ids
                                       (JObj [(''mailboxIds'',
                                               JObj (obj_set
                                                       (to_js_string (field ''id'' trashMailbox))
                                                       (JBool True) []))])))]])))
   \<and> map_of (bulk_updates ids patch) k
       = (if k \<in> set ids \<and> k \<noteq> ''__proto__'' then Some patch else None)"
  using bulk_tools_empty[of empty_args nm e ex srv] bulk_tools_nonempty[of args i rest srv e ex]
    bulkMarkRead_set_calls[of w ids read st] bulkMove_set_calls[of w ids target st]
    bulkDelete_set_calls[of w ids st] bulk_updates_map_of[of ids patch k]
  by (intro conjI impI; (elim conjE)?; assumption?; blast?)

theorem bulk_operations_batched_witness:
  "call_tool demo_env demo_exec ''bulk_delete'' (JObj [(''emailIds'', JArr [])]) fresh_server
     = (Inl (McpError InvalidParams ''emailIds array is required and must not be empty''),
        fresh_server\<lparr>jmapClient := True\<rparr>)
   \<and> map fst (new_calls fresh_server (snd (call_tool demo_env demo_exec ''bulk_mark_read''
         (JObj [(''emailIds'', JArr [JStr ''M1'', JStr ''M2'']),
                (''targetMailboxId'', JStr ''mb-archive'')]) fresh_server)))
       = [Jmap ''bulkMarkRead'' [JArr [JStr ''M1'', JStr ''M2''], JBool True]]
   \<and> map fst (new_calls fresh_server (snd (call_tool demo_env demo_exec ''bulk_delete''
         (JObj [(''emailIds'', JArr [JStr ''M1'', JStr ''M2'']),
                (''targetMailboxId'', JStr ''mb-archive'')]) fresh_server)))
       = [Jmap ''bulkDelete'' [JArr [JStr ''M1'', JStr ''M2'']]]
   \<and> map fst (new_calls fresh_server (snd (call_tool demo_env demo_exec ''bulk_move''
         (JObj [(''emailIds'', JArr [JStr ''M1'', JStr ''M2'']),
                (''targetMailboxId'', JStr ''mb-archive'')]) fresh_server)))
       = [Jmap ''bulkMove'' [JArr [JStr ''M1'', JStr ''M2''], JStr ''mb-archive'']]
   \<and> calls_named ''Email/set'' (run_events (bulkMarkRead demo_world [''M1'', ''M2''] True) fresh_client)
       = [JObj [(''accountId'', JStr ''u1234''),
                (''update'',
                 JObj [(''M1'', JObj [(''keywords'', JObj [(''$seen'', JBool True)])]),
                       (''M2'', JObj [(''keywords'', JObj [(''$seen'', JBool True)])])])]]
   \<and> calls_named ''Email/set'' (run_events (bulkMove demo_world [''M1'', ''M2''] ''mb-archive'')
         fresh_client)
       = [JObj [(''accountId'', JStr ''u1234''),
                (''update'',
                 JObj [(''M1'', JObj [(''mailboxIds'', JObj [(''mb-archive'', JBool True)])]),
                       (''M2'', JObj [(''mailboxIds'', JObj [(''mb-archive'', JBool True)])])])]]
   \<and> calls_named ''Email/set'' (run_events (bulkDelete demo_world [''M1'', ''M2'']) fresh_client)
       = [JObj [(''accountId'', JStr ''u1234''),
                (''update'',
                 JObj [(''M1'', JObj [(''mailboxIds'', JObj [(''mb-trash'', JBool True)])]),
                       (''M2'', JObj [(''mailboxIds'', JObj [(''mb-trash'', JBool True)])])])]]
   \<and> map_of (bulk_updates [''M1'', ''M2''] (JObj [(''keywords'', JObj [])])) ''M2''
       = Some (JObj [(''keywords'', JObj [])])"
proof -
  let ?none = "JObj [(''emailIds'', JArr [])]"
  let ?args = "JObj [(''emailIds'', JArr [JStr ''M1'', JStr ''M2'']),
                (''targetMailboxId'', JStr ''mb-archive'')]"
  let ?st1 = "snd (getSession demo_world fresh_client)"
  let ?trash = "JObj [(''id'', JStr ''mb-trash''), (''name'', JStr ''Trash''), (''role'', JStr ''trash'')]"
  have h0: "arg ?none ''emailIds'' = JArr []" by (simp add: arg_def field_def opt_prop_def)
  have h1: "arg ?args ''emailIds'' = JArr (JStr ''M1'' # [JStr ''M2''])" by code_simp
  have h2: "given (api_token demo_env)" by code_simp
  have h3: "truthy (arg ?args ''targetMailboxId'')" by code_simp
  have h4: "arg ?args ''targetMailboxId'' = JStr ''mb-archive''"
    "arg_default ?args ''read'' (JBool True) = JBool True" by code_simp+
  have g: "fst (getSession demo_world fresh_client) = Inr demo_session" by code_simp
  have mb: "fst (getMailboxes demo_world ?st1) = Inr demo_mailboxes" by code_simp
  have f: "find_mailbox demo_mailboxes ''trash'' ''trash'' = Inr ?trash" by code_simp
  have t: "truthy ?trash" "to_js_string (field ''id'' ?trash) = ''mb-trash''" by code_simp+
  have a: "accountId demo_session = JStr ''u1234''" by code_simp
  have os: "obj_set ''mb-archive'' (JBool True) [] = [(''mb-archive'', JBool True)]"
    "obj_set ''mb-trash'' (JBool True) [] = [(''mb-trash'', JBool True)]" by code_simp+
  have u: "bulk_updates [''M1'', ''M2''] (JObj [(''keywords'', JObj [(''$seen'', JBool True)])])
             = [(''M1'', JObj [(''keywords'', JObj [(''$seen'', JBool True)])]),
                (''M2'', JObj [(''keywords'', JObj [(''$seen'', JBool True)])])]"
    "bulk_updates [''M1'', ''M2''] (JObj [(''mailboxIds'', JObj [(''mb-archive'', JBool True)])])
             = [(''M1'', JObj [(''mailboxIds'', JObj [(''mb-archive'', JBool True)])]),
                (''M2'', JObj [(''mailboxIds'', JObj [(''mb-archive'', JBool True)])])]"
    "bulk_updates [''M1'', ''M2''] (JObj [(''mailboxIds'', JObj [(''mb-trash'', JBool True)])])
             = [(''M1'', JObj [(''mailboxIds'', JObj [(''mb-trash'', JBool True)])]),
                (''M2'', JObj [(''mailboxIds'', JObj [(''mb-trash'', JBool True)])])]"
    by code_simp+
  from bulk_operations_batched[where empty_args = ?none and nm = "''bulk_delete''" and e = demo_env
      and ex = demo_exec and srv = fresh_server and args = ?args and i = "JStr ''M1''"
      and rest = "[JStr ''M2'']" and w = demo_world and ids = "[''M1'', ''M2'']" and read = True
      and st = fresh_client and target = "''mb-archive''"
      and patch = "JObj [(''keywords'', JObj [])]" and k = "''M2''"]
    h0 h1 h2 h3
  show ?thesis by (simp add: case_prod_unfold h4 g mb f t a os u)
qed

text \<open>
  A non-empty array and no \<^verbatim>\<open>Email/set\<close> call: \<open>bulk_move\<close> without a target mailbox
  calls no method of the client, and \<open>bulkDelete\<close> on an account without a Trash mailbox
  sends none.
\<close>

theorem bulk_without_target_or_trash_sends_no_update:
  "call_tool demo_env demo_exec ''bulk_move'' (JObj [(''emailIds'', JArr [JStr ''M1''])])
       fresh_server
     = (Inl (McpError InvalidParams ''targetMailboxId is required''),
        fresh_server\<lparr>jmapClient := True\<rparr>)
   \<and> calls_named ''Email/set'' (run_events (bulkDelete inbox_only_world [''M1'']) fresh_client) = []"
proof
  show "call_tool demo_env demo_exec ''bulk_move'' (JObj [(''emailIds'', JArr [JStr ''M1''])])
       fresh_server
     = (Inl (McpError InvalidParams ''targetMailboxId is required''),
        fresh_server\<lparr>jmapClient := True\<rparr>)"
    by code_simp
  show "calls_named ''Email/set'' (run_events (bulkDelete inbox_only_world [''M1'']) fresh_client) = []"
    by code_simp
qed

subsection \<open>Errors of the backend\<close>

lemma surfaces_ret [simp]: "surfaces t (ret x)" "surfaces t (throw e)" "surfaces t (lift r)"
  by (simp_all add: surfaces_def ret_def throw_def lift_def new_calls_def)

lemma surfaces_call [simp]: "surfaces (\<lambda>x. x) (call ex c)"
  by (auto simp: surfaces_def call_def new_calls_def split: prod.splits)

lemma surfaces_init [simp]:
  "surfaces t (initializeClient e)" "surfaces t (initializeContactsCalendarClient e)"
  "surfaces t (initializeCalDAVClient e)" "surfaces t (destructure k args)"
  "surfaces t (invalid_params msg)"
  by (simp_all add: surfaces_def initializeClient_def initializeContactsCalendarClient_def
      initializeCalDAVClient_def destructure_def invalid_params_def new_calls_def throw_def ret_def)

lemma surfaces_bnd [intro!]:
  assumes "surfaces t m" "\<And>x. surfaces t (f x)"
  shows "surfaces t (bnd m f)"
  unfolding surfaces_def
proof (intro allI)
  fix srv
  obtain r s1 where m: "m srv = (r, s1)" by (cases "m srv")
  from assms(1) m obtain cs1 where c1: "calls s1 = calls srv @ cs1"
    and t1: "\<And>c x. (c, Inl x) \<in> set cs1 \<Longrightarrow> r = Inl (t x)"
    by (auto simp: surfaces_def new_calls_def prefix_def dest!: spec[of _ srv])
  show "prefix (calls srv) (calls (snd (bnd m f srv))) \<and>
        (\<forall>c x. (c, Inl x) \<in> set (new_calls srv (snd (bnd m f srv))) \<longrightarrow>
               fst (bnd m f srv) = Inl (t x))"
  proof (cases r)
    case (Inl e)
    with m c1 t1 show ?thesis by (auto simp: bnd_def new_calls_def)
  next
    case (Inr v)
    obtain r2 s2 where f: "f v s1 = (r2, s2)" by (cases "f v s1")
    from assms(2)[of v] f obtain cs2 where c2: "calls s2 = calls s1 @ cs2"
      and t2: "\<And>c x. (c, Inl x) \<in> set cs2 \<Longrightarrow> r2 = Inl (t x)"
      by (auto simp: surfaces_def new_calls_def prefix_def dest!: spec[of _ s1])
    from t1 Inr have n1: "\<And>c x. (c, Inl x) \<notin> set cs1" by fastforce
    from m Inr f c1 c2 t2 n1 show ?thesis by (auto simp: bnd_def new_calls_def)
  qed
qed

lemma surfaces_catch:
  assumes "surfaces t m" "\<And>x. h x = throw (g x)"
  shows "surfaces (\<lambda>x. g (t x)) (catch m h)"
  unfolding surfaces_def
proof (intro allI)
  fix srv
  obtain r s1 where m: "m srv = (r, s1)" by (cases "m srv")
  from assms(1) m obtain cs1 where c1: "calls s1 = calls srv @ cs1"
    and t1: "\<And>c x. (c, Inl x) \<in> set cs1 \<Longrightarrow> r = Inl (t x)"
    by (auto simp: surfaces_def new_calls_def prefix_def dest!: spec[of _ srv])
  show "prefix (calls srv) (calls (snd (catch m h srv))) \<and>
        (\<forall>c x. (c, Inl x) \<in> set (new_calls srv (snd (catch m h srv))) \<longrightarrow>
               fst (catch m h srv) = Inl (g (t x)))"
    using m c1 t1 assms(2) by (cases r) (auto simp: catch_def new_calls_def throw_def)
qed

lemma surfaces_if [intro!]:
  "(c \<Longrightarrow> surfaces t a) \<Longrightarrow> (\<not> c \<Longrightarrow> surfaces t b) \<Longrightarrow> surfaces t (if c then a else b)"
  by simp

lemma surfaces_calendar_call [simp]:
  "surfaces (\<lambda>x. x) (calendar_call e ex method as bs)"
  unfolding calendar_call_def by (intro surfaces_bnd surfaces_if) simp_all

lemma surfaces_tools [simp]:
  "surfaces (\<lambda>x. x) (list_mailboxes ex)"
  "surfaces (\<lambda>x. x) (list_emails ex args)"
  "surfaces (\<lambda>x. x) (get_email ex args)"
  "surfaces (\<lambda>x. x) (send_email ex args)"
  "surfaces (\<lambda>x. x) (search_emails ex args)"
  "surfaces (\<lambda>x. x) (list_contacts e ex args)"
  "surfaces (\<lambda>x. x) (get_contact e ex args)"
  "surfaces (\<lambda>x. x) (search_contacts e ex args)"
  "surfaces (\<lambda>x. x) (list_calendars e ex)"
  "surfaces (\<lambda>x. x) (list_calendar_events e ex args)"
  "surfaces (\<lambda>x. x) (get_calendar_event e ex args)"
  "surfaces (\<lambda>x. x) (create_calendar_event e ex args)"
  "surfaces (\<lambda>x. x) (list_identities e ex)"
  "surfaces (\<lambda>x. x) (get_recent_emails e ex args)"
  unfolding list_mailboxes_def list_emails_def get_email_def send_email_def search_emails_def
    list_contacts_def get_contact_def search_contacts_def list_calendars_def
    list_calendar_events_def get_calendar_event_def create_calendar_event_def
    list_identities_def get_recent_emails_def
  by auto

lemma surfaces_tools2 [simp]:
  "surfaces (\<lambda>x. x) (mark_email_read e ex args)"
  "surfaces (\<lambda>x. x) (delete_email e ex args)"
  "surfaces (\<lambda>x. x) (move_email e ex args)"
  "surfaces (\<lambda>x. x) (get_email_attachments e ex args)"
  "surfaces (\<lambda>x. x) (advanced_search e ex args)"
  "surfaces (\<lambda>x. x) (get_mailbox_stats e ex args)"
  "surfaces (\<lambda>x. x) (get_account_summary e ex)"
  "surfaces (\<lambda>x. x) (bulk_mark_read e ex args)"
  "surfaces (\<lambda>x. x) (bulk_move e ex args)"
  "surfaces (\<lambda>x. x) (bulk_delete e ex args)"
  "surfaces (\<lambda>x. x) (check_function_availability e ex)"
  unfolding mark_email_read_def delete_email_def move_email_def get_email_attachments_def
    advanced_search_def get_mailbox_stats_def get_account_summary_def bulk_mark_read_def
    bulk_move_def bulk_delete_def check_function_availability_def
  by auto

lemma surfaces_download_attachment:
  "surfaces (\<lambda>x. download_failed) (download_attachment e ex args)"
  unfolding download_attachment_def
  by (auto intro!: surfaces_catch[where t = "\<lambda>x. x"])

lemma surfaces_get_thread:
  "surfaces (\<lambda>x. McpError InternalError (''Thread access failed: '' @ message_of x))
     (get_thread e ex args)"
  unfolding get_thread_def
  by (auto intro!: surfaces_catch[where t = "\<lambda>x. x"])

lemma bndE:
  assumes "bnd m f s = (r, s')"
  obtains (fail) e where "m s = (Inl e, s')" "r = Inl e"
        | (ok) v s1 where "m s = (Inr v, s1)" "f v s1 = (r, s')"
  using assms by (auto simp: bnd_def split: prod.splits sum.splits)

lemma callE:
  assumes "call ex c srv = (r, srv')"
  obtains "calls srv' = calls srv @ [(c, r)]"
  using assms by (auto simp: call_def split: prod.splits)

lemma initializeClient_calls:
  "initializeClient e srv = (r, srv') \<Longrightarrow> calls srv' = calls srv"
  by (auto simp: initializeClient_def split: if_splits)

lemma destructure_state: "destructure k args srv = (r, srv') \<Longrightarrow> srv' = srv"
  by (auto simp: destructure_def throw_def ret_def split: if_splits)

lemma lift_state: "lift x srv = (r, srv') \<Longrightarrow> srv' = srv \<and> r = x"
  by (simp add: lift_def)

lemma run_operations_report:
  "run_operations e ex ops k done srv = (r, srv') \<Longrightarrow>
     \<exists>entries cs. r = Inr (done @ entries) \<and> calls srv' = calls srv @ cs
       \<and> (\<forall>c y. (c, y) \<in> set cs \<longrightarrow> method_name c = ''bulkMarkRead'')
       \<and> (\<forall>c x. (c, Inl x) \<in> set cs \<longrightarrow>
             (\<exists>kvs. JObj kvs \<in> set entries \<and> (''status'', JStr ''FAILED'') \<in> set kvs
                    \<and> (''error'', JStr (message_of x)) \<in> set kvs))"
proof (induction ops arbitrary: k "done" srv)
  case Nil
  then show ?case by (auto simp: ret_def intro: exI[of _ "[]"])
next
  case (Cons op ops)
  obtain entry emailIds read where op: "op = (entry, emailIds, read)" by (cases op)
  let ?c = "Jmap ''bulkMarkRead'' [emailIds, read]"
  obtain r0 b0 where ex: "ex ?c (backend srv) = (r0, b0)" by (cases "ex ?c (backend srv)")
  let ?s1 = "srv\<lparr>backend := b0, calls := calls srv @ [(?c, r0)]\<rparr>"
  let ?failed = "entry @ [(''status'', JStr ''FAILED''), (''executed'', JBool False),
                 (''error'', JStr (message_of (projl r0))), (''timestamp'', JStr (clock e k))]"
  let ?success = "entry @ [(''status'', JStr ''SUCCESS''), (''executed'', JBool True),
                 (''timestamp'', JStr (clock e k))]"
  let ?en = "JObj (if isl r0 then ?failed else ?success)"
  from Cons.prems op ex
  have "run_operations e ex ops (Suc k) (done @ [?en]) ?s1 = (r, srv')"
    by (cases r0) (simp_all add: bnd_def catch_def call_def ret_def)
  from Cons.IH[OF this] obtain entries cs where
    a: "r = Inr (done @ [?en] @ entries)" "calls srv' = calls srv @ [(?c, r0)] @ cs"
    and m: "\<forall>c y. (c, y) \<in> set cs \<longrightarrow> method_name c = ''bulkMarkRead''"
    and b: "\<forall>c x. (c, Inl x) \<in> set cs \<longrightarrow>
           (\<exists>kvs. JObj kvs \<in> set entries \<and> (''status'', JStr ''FAILED'') \<in> set kvs
                  \<and> (''error'', JStr (message_of x)) \<in> set kvs)"
    by auto
  have m': "\<forall>c y. (c, y) \<in> set ([(?c, r0)] @ cs) \<longrightarrow> method_name c = ''bulkMarkRead''"
    using m by (auto simp: method_name_def)
  have b': "\<forall>c x. (c, Inl x) \<in> set ([(?c, r0)] @ cs) \<longrightarrow>
           (\<exists>kvs. JObj kvs \<in> set ([?en] @ entries) \<and> (''status'', JStr ''FAILED'') \<in> set kvs
                  \<and> (''error'', JStr (message_of x)) \<in> set kvs)"
  proof (intro allI impI)
    fix c x
    assume "(c, Inl x) \<in> set ([(?c, r0)] @ cs)"
    then consider "r0 = Inl x" | "(c, Inl x) \<in> set cs" by auto
    then show "\<exists>kvs. JObj kvs \<in> set ([?en] @ entries) \<and> (''status'', JStr ''FAILED'') \<in> set kvs
                  \<and> (''error'', JStr (message_of x)) \<in> set kvs"
    proof cases
      case 1
      then show ?thesis by (intro exI[of _ ?failed]) simp
    next
      case 2
      with b obtain kvs where "JObj kvs \<in> set entries" "(''status'', JStr ''FAILED'') \<in> set kvs"
        "(''error'', JStr (message_of x)) \<in> set kvs" by blast
      then show ?thesis by (intro exI[of _ kvs]) simp
    qed
  qed
  from a m' b' show ?case by blast
qed

lemma test_bulk_operations_thrown:
  assumes run: "test_bulk_operations e ex args srv = (r, srv')"
  shows "\<exists>cs. calls srv' = calls srv @ cs \<and>
     (\<forall>c x. (c, Inl x) \<in> set cs \<longrightarrow>
        (if method_name c = ''bulkMarkRead''
         then (\<exists>head emails entries kvs.
                 r = Inr [Lit head, Stringify (JObj [(''testEmails'', emails),
                                                     (''operations'', JArr entries)])]
                 \<and> JObj kvs \<in> set entries \<and> (''status'', JStr ''FAILED'') \<in> set kvs
                 \<and> (''error'', JStr (message_of x)) \<in> set kvs)
         else r = Inl x))"
  using run unfolding test_bulk_operations_def
proof (cases rule: bndE)
  case (fail e1)
  then show ?thesis by (auto dest: destructure_state)
next
  case (ok v s1)
  then have s1: "s1 = srv" by (auto dest: destructure_state)
  from ok(2) show ?thesis
  proof (cases rule: bndE)
    case (fail e2)
    then show ?thesis using s1 by (auto dest: initializeClient_calls)
  next
    case (ok u s2)
    then have s2: "calls s2 = calls srv" using s1 by (auto dest: initializeClient_calls)
    let ?lim = "min (max (number_arg (arg_default args ''limit'' (JNum 3))) 1) 10"
    let ?c0 = "Jmap ''getRecentEmails'' [JNum ?lim, JStr ''inbox'']"
    from ok(2) show ?thesis unfolding Let_def
    proof (cases rule: bndE)
      case (fail e3)
      then have "calls srv' = calls srv @ [(?c0, Inl e3)]" using s2 by (auto elim!: callE)
      with fail show ?thesis by (auto simp: method_name_def)
    next
      case (ok emails s3)
      then have s3: "calls s3 = calls srv @ [(?c0, Inr emails)]" using s2 by (auto elim!: callE)
      from ok(2) show ?thesis
      proof (cases rule: bndE)
        case (fail e4)
        then show ?thesis using s3 by (auto dest: lift_state)
      next
        case (ok items s4)
        then have s4: "s4 = s3" by (auto dest: lift_state)
        show ?thesis
        proof (cases "items = []")
          case True
          with ok(2) s4 s3 show ?thesis by (auto simp: ret_def)
        next
          case False
          with ok(2) have
            "bnd (lift (map_err (\<lambda>mail. get_prop mail ''id'') (take (nat ?lim) items)))
              (\<lambda>emailIds.
            bnd (lift (map_err test_email items)) (\<lambda>testEmails.
              if truthy (arg_default args ''dryRun'' (JBool True))
              then ret [Lit (''BULK OPERATIONS TEST (DRY RUN)'' @ [LF, LF]),
                        Stringify (JObj [(''testEmails'', JArr testEmails),
                                         (''operations'', JArr (map dry_run (operations emailIds)))]),
                        Lit ([LF, LF] @ ''To actually execute the test, set dryRun: false'')]
              else
                bnd (run_operations e ex (operations emailIds) 0 []) (\<lambda>done.
                  ret [Lit (''BULK OPERATIONS TEST (EXECUTED)'' @ [LF, LF]),
                       Stringify (JObj [(''testEmails'', JArr testEmails),
                                        (''operations'', JArr done)])]))) s4 = (r, srv')"
            by simp
          then show ?thesis
          proof (cases rule: bndE)
            case (fail e5)
            then show ?thesis using s3 s4 by (auto dest: lift_state)
          next
            case (ok emailIds s5)
            then have s5: "s5 = s3" using s4 by (auto dest: lift_state)
            from ok(2) show ?thesis
            proof (cases rule: bndE)
              case (fail e6)
              then show ?thesis using s3 s5 by (auto dest: lift_state)
            next
              case (ok testEmails s6)
              then have s6: "s6 = s3" using s5 by (auto dest: lift_state)
              show ?thesis
              proof (cases "truthy (arg_default args ''dryRun'' (JBool True))")
                case True
                with ok(2) s6 s3 show ?thesis by (auto simp: ret_def)
              next
                case False
                with ok(2) have
                  "bnd (run_operations e ex (operations emailIds) 0 []) (\<lambda>done.
                  ret [Lit (''BULK OPERATIONS TEST (EXECUTED)'' @ [LF, LF]),
                       Stringify (JObj [(''testEmails'', JArr testEmails),
                                        (''operations'', JArr done)])]) s6 = (r, srv')"
                  by simp
                then show ?thesis
                proof (cases rule: bndE)
                  case (fail e7)
                  then show ?thesis using run_operations_report[OF fail(1)] by simp
                next
                  case (ok dn s7)
                  from run_operations_report[OF ok(1)] obtain entries cs where
                    a: "dn = entries" "calls s7 = calls s6 @ cs"
                    and m: "\<forall>c y. (c, y) \<in> set cs \<longrightarrow> method_name c = ''bulkMarkRead''"
                    and b: "\<forall>c x. (c, Inl x) \<in> set cs \<longrightarrow>
                       (\<exists>kvs. JObj kvs \<in> set entries \<and> (''status'', JStr ''FAILED'') \<in> set kvs
                          \<and> (''error'', JStr (message_of x)) \<in> set kvs)"
                    by auto
                  from ok(2) have r: "r = Inr [Lit (''BULK OPERATIONS TEST (EXECUTED)'' @ [LF, LF]),
                       Stringify (JObj [(''testEmails'', JArr testEmails),
                                        (''operations'', JArr dn)])]" and s7: "srv' = s7"
                    by (auto simp: ret_def)
                  have "calls srv' = calls srv @ ((?c0, Inr emails) # cs)"
                    using a s7 s6 s3 by simp
                  moreover have "\<forall>c x. (c, Inl x) \<in> set ((?c0, Inr emails) # cs) \<longrightarrow>
                     (if method_name c = ''bulkMarkRead''
                      then (\<exists>head emails entries kvs.
                         r = Inr [Lit head, Stringify (JObj [(''testEmails'', emails),
                                                     (''operations'', JArr entries)])]
                         \<and> JObj kvs \<in> set entries \<and> (''status'', JStr ''FAILED'') \<in> set kvs
                         \<and> (''error'', JStr (message_of x)) \<in> set kvs)
                      else r = Inl x)"
                    using m b r a(1) by auto
                  ultimately show ?thesis by blast
                qed
              qed
            qed
          qed
        qed
      qed
    qed
  qed
qed


lemma surfaces_tool_body:
  assumes "nm \<noteq> ''test_bulk_operations''"
  shows "surfaces (\<lambda>x. if nm = ''download_attachment'' then download_failed
                       else if nm = ''get_thread''
                       then McpError InternalError (''Thread access failed: '' @ message_of x)
                       else x)
           (tool_body e ex nm args)"
proof -
  consider "nm = ''download_attachment''" | "nm = ''get_thread''"
    | "nm \<noteq> ''download_attachment''" "nm \<noteq> ''get_thread''" by blast
  then show ?thesis
  proof cases
    case 1
    then show ?thesis using surfaces_download_attachment[of e ex args]
      by (simp add: tool_body_def)
  next
    case 2
    then show ?thesis using surfaces_get_thread[of e ex args]
      by (simp add: tool_body_def)
  next
    case 3
    then show ?thesis using assms by (simp add: tool_body_def)
  qed
qed

lemma wrap_error_throw:
  "wrap_error x = throw (case x of McpError code m \<Rightarrow> McpError code m
                         | _ \<Rightarrow> McpError InternalError (''Tool execution failed: '' @ message_of x))"
  by (cases x) (simp_all add: wrap_error_def)

lemma surfacesD:
  assumes "surfaces t m" "m srv = (r, srv')"
  shows "calls srv' = calls srv @ new_calls srv srv'"
    and "(c, Inl x) \<in> set (new_calls srv srv') \<Longrightarrow> r = Inl (t x)"
  using assms by (auto simp: surfaces_def new_calls_def prefix_def dest!: spec[of _ srv])

lemma call_tool_thrown:
  assumes run: "call_tool e ex nm args srv = (r, srv')"
  shows "calls srv' = calls srv @ new_calls srv srv' \<and>
        ((c, Inl x) \<in> set (new_calls srv srv') \<longrightarrow>
         (if nm = ''download_attachment'' then r = Inl download_failed
         else if nm = ''get_thread''
         then r = Inl (McpError InternalError (''Thread access failed: '' @ message_of x))
         else if nm = ''test_bulk_operations'' \<and> method_name c = ''bulkMarkRead''
         then \<exists>head emails entries kvs.
                r = Inr [Lit head, Stringify (JObj [(''testEmails'', emails),
                                                    (''operations'', JArr entries)])]
                \<and> JObj kvs \<in> set entries \<and> (''status'', JStr ''FAILED'') \<in> set kvs
                \<and> (''error'', JStr (message_of x)) \<in> set kvs
         else r = Inl (case x of McpError code m \<Rightarrow> McpError code m
                       | _ \<Rightarrow> McpError InternalError
                                (''Tool execution failed: '' @ message_of x))))"
proof (cases "nm = ''test_bulk_operations''")
  case False
  let ?t = "\<lambda>x. if nm = ''download_attachment'' then download_failed
                       else if nm = ''get_thread''
                       then McpError InternalError (''Thread access failed: '' @ message_of x)
                       else x"
  let ?g = "\<lambda>x. case x of McpError code m \<Rightarrow> McpError code m
                       | _ \<Rightarrow> McpError InternalError (''Tool execution failed: '' @ message_of x)"
  have "surfaces ?t (bnd (initializeClient e) (\<lambda>_. tool_body e ex nm args))"
    using surfaces_tool_body[OF False, of e ex args] by (intro surfaces_bnd) simp_all
  from surfaces_catch[OF this, of wrap_error ?g]
  have "surfaces (\<lambda>x. ?g (?t x)) (call_tool e ex nm args)"
    by (simp add: call_tool_def wrap_error_throw)
  from surfacesD[OF this run] have "calls srv' = calls srv @ new_calls srv srv'"
    and "(c, Inl x) \<in> set (new_calls srv srv') \<Longrightarrow> r = Inl (?g (?t x))" by blast+
  with False show ?thesis by (simp add: download_failed_def)
next
  case True
  let ?g = "\<lambda>x. case x of McpError code m \<Rightarrow> McpError code m
                       | _ \<Rightarrow> McpError InternalError (''Tool execution failed: '' @ message_of x)"
  obtain r1 s1 where body: "bnd (initializeClient e) (\<lambda>_. test_bulk_operations e ex args) srv = (r1, s1)"
    by (cases "bnd (initializeClient e) (\<lambda>_. test_bulk_operations e ex args) srv")
  have res: "srv' = s1 \<and> r = (case r1 of Inl y \<Rightarrow> Inl (?g y) | Inr v \<Rightarrow> Inr v)"
    using run body True
    by (auto simp: call_tool_def tool_body_def catch_def wrap_error_throw throw_def
        split: sum.splits)
  from body have "\<exists>cs. calls s1 = calls srv @ cs \<and>
     (\<forall>c x. (c, Inl x) \<in> set cs \<longrightarrow>
        (if method_name c = ''bulkMarkRead''
         then (\<exists>head emails entries kvs.
                 r1 = Inr [Lit head, Stringify (JObj [(''testEmails'', emails),
                                                     (''operations'', JArr entries)])]
                 \<and> JObj kvs \<in> set entries \<and> (''status'', JStr ''FAILED'') \<in> set kvs
                 \<and> (''error'', JStr (message_of x)) \<in> set kvs)
         else r1 = Inl x))"
  proof (cases rule: bndE)
    case (fail e1)
    then show ?thesis by (auto dest: initializeClient_calls)
  next
    case (ok v s0)
    from test_bulk_operations_thrown[OF ok(2)] initializeClient_calls[OF ok(1)]
    show ?thesis by simp
  qed
  then obtain cs where cs: "calls s1 = calls srv @ cs"
    and t: "\<forall>c x. (c, Inl x) \<in> set cs \<longrightarrow>
        (if method_name c = ''bulkMarkRead''
         then (\<exists>head emails entries kvs.
                 r1 = Inr [Lit head, Stringify (JObj [(''testEmails'', emails),
                                                     (''operations'', JArr entries)])]
                 \<and> JObj kvs \<in> set entries \<and> (''status'', JStr ''FAILED'') \<in> set kvs
                 \<and> (''error'', JStr (message_of x)) \<in> set kvs)
         else r1 = Inl x)" by blast
  from res cs have nc: "new_calls srv srv' = cs" by (simp add: new_calls_def)
  from t have "(c, Inl x) \<in> set cs \<longrightarrow> (if method_name c = ''bulkMarkRead''
         then (\<exists>head emails entries kvs.
                 r1 = Inr [Lit head, Stringify (JObj [(''testEmails'', emails),
                                                     (''operations'', JArr entries)])]
                 \<and> JObj kvs \<in> set entries \<and> (''status'', JStr ''FAILED'') \<in> set kvs
                 \<and> (''error'', JStr (message_of x)) \<in> set kvs)
         else r1 = Inl x)" by blast
  with res True nc cs show ?thesis by (auto split: if_splits)
qed

text \<open>
  C9. When a method of a client throws during an invocation: \<open>download_attachment\<close> ends
  with the fixed error \<open>download_failed\<close>, whatever was thrown and whatever the
  arguments; \<open>get_thread\<close> ends with an internal error whose text is
  \<^verbatim>\<open>Thread access failed: \<close> and the message thrown; every other tool ends with the
  \<^verbatim>\<open>McpError\<close> thrown, or with an internal error whose text is \<^verbatim>\<open>Tool execution failed: \<close>
  and the message thrown. The one exception is \<open>test_bulk_operations\<close>: an error of
  its \<open>bulkMarkRead\<close> calls is caught, the invocation returns its report, and the report
  has an entry with the status \<^verbatim>\<open>FAILED\<close> and the message. The log of an invocation only
  grows.
\<close>

theorem backend_errors_surfaced:
  assumes run: "call_tool e ex nm args srv = (r, srv')"
    and thrown: "(c, Inl x) \<in> set (new_calls srv srv')"
  shows "calls srv' = calls srv @ new_calls srv srv'
     \<and> (if nm = ''download_attachment'' then r = Inl download_failed
         else if nm = ''get_thread''
         then r = Inl (McpError InternalError (''Thread access failed: '' @ message_of x))
         else if nm = ''test_bulk_operations'' \<and> method_name c = ''bulkMarkRead''
         then \<exists>head emails entries kvs.
                r = Inr [Lit head, Stringify (JObj [(''testEmails'', emails),
                                                    (''operations'', JArr entries)])]
                \<and> JObj kvs \<in> set entries \<and> (''status'', JStr ''FAILED'') \<in> set kvs
                \<and> (''error'', JStr (message_of x)) \<in> set kvs
         else r = Inl (case x of McpError code m \<Rightarrow> McpError code m
                       | _ \<Rightarrow> McpError InternalError
                                (''Tool execution failed: '' @ message_of x)))"
  using call_tool_thrown[OF run, of c x] thrown by blast

theorem backend_errors_surfaced_witness:
  "fst (call_tool demo_env demo_exec ''list_mailboxes'' JUndefined fresh_server)
     = Inl (McpError InternalError ''Tool execution failed: fetch failed'')
   \<and> fst (call_tool demo_env demo_exec ''download_attachment''
            (JObj [(''emailId'', JStr ''M1''), (''attachmentId'', JStr ''A1'')]) fresh_server)
     = Inl (McpError InternalError
              ''Attachment download failed. Verify emailId and attachmentId and try again.'')
   \<and> fst (call_tool demo_env demo_exec ''get_thread'' (JObj [(''threadId'', JStr ''T1'')])
            fresh_server)
     = Inl (McpError InternalError ''Thread access failed: fetch failed'')"
proof -
  let ?a2 = "JObj [(''emailId'', JStr ''M1''), (''attachmentId'', JStr ''A1'')]"
  let ?a3 = "JObj [(''threadId'', JStr ''T1'')]"
  let ?r1 = "call_tool demo_env demo_exec ''list_mailboxes'' JUndefined fresh_server"
  let ?r2 = "call_tool demo_env demo_exec ''download_attachment'' ?a2 fresh_server"
  let ?r3 = "call_tool demo_env demo_exec ''get_thread'' ?a3 fresh_server"
  have c1: "(Jmap ''getMailboxes'' [], Inl (Error ''fetch failed''))
              \<in> set (new_calls fresh_server (snd ?r1))" by code_simp
  have c2: "(Jmap ''downloadAttachment'' [JStr ''M1'', JStr ''A1''], Inl (Error ''fetch failed''))
              \<in> set (new_calls fresh_server (snd ?r2))" by code_simp
  have c3: "(Jmap ''getThread'' [JStr ''T1''], Inl (Error ''fetch failed''))
              \<in> set (new_calls fresh_server (snd ?r3))" by code_simp
  have m: "message_of (Error ''fetch failed'') = ''fetch failed''" by code_simp
  from backend_errors_surfaced[OF _ c1, where r = "fst ?r1"]
    backend_errors_surfaced[OF _ c2, where r = "fst ?r2"]
    backend_errors_surfaced[OF _ c3, where r = "fst ?r3"] m
  show ?thesis by (simp add: download_failed_def)
qed

text \<open>
  \<open>test_bulk_operations\<close> with \<^verbatim>\<open>dryRun: false\<close> on a backend whose \<open>bulkMarkRead\<close>
  throws: the invocation returns the report, with both operations failed.
\<close>

theorem test_bulk_operations_reports_failures:
  "call_tool demo_env demo_exec ''test_bulk_operations'' (JObj [(''dryRun'', JBool False)])
     fresh_server
   = (Inr [Lit (''BULK OPERATIONS TEST (EXECUTED)'' @ [LF, LF]),
           Stringify
             (JObj [(''testEmails'',
                     JArr [JObj [(''id'', JStr ''M1''), (''subject'', JStr ''Hello''),
                                 (''from'', JStr ''unknown''), (''receivedAt'', JUndefined)]]),
                    (''operations'',
                     JArr [JObj [(''name'', JStr ''bulk_mark_read''),
                                 (''description'', JStr ''Mark 1 emails as read''),
                                 (''parameters'',
                                  JObj [(''emailIds'', JArr [JStr ''M1'']), (''read'', JBool True)]),
                                 (''status'', JStr ''FAILED''), (''executed'', JBool False),
                                 (''error'', JStr ''fetch failed''),
                                 (''timestamp'', JStr ''2026-01-30T09:00:00.000Z'')],
                           JObj [(''name'', JStr ''bulk_mark_read (undo)''),
                                 (''description'',
                                  JStr ''Mark 1 emails as unread (undo previous)''),
                                 (''parameters'',
                                  JObj [(''emailIds'', JArr [JStr ''M1'']), (''read'', JBool False)]),
                                 (''status'', JStr ''FAILED''), (''executed'', JBool False),
                                 (''error'', JStr ''fetch failed''),
                                 (''timestamp'', JStr ''2026-01-30T09:00:00.000Z'')]])])],
      \<lparr>jmapClient = True, contactsCalendarClient = False, caldavClient = False, backend = (),
         calls = [(Jmap ''getRecentEmails'' [JNum 3, JStr ''inbox''],
                   Inr (JArr [JObj [(''id'', JStr ''M1''), (''subject'', JStr ''Hello'')]])),
                  (Jmap ''bulkMarkRead'' [JArr [JStr ''M1''], JBool True],
                   Inl (Error ''fetch failed'')),
                  (Jmap ''bulkMarkRead'' [JArr [JStr ''M1''], JBool False],
                   Inl (Error ''fetch failed''))]\<rparr>)"
  by code_simp

end
